(* ===== verification/Prelude.thy ===== *)
theory Prelude
  imports Complex_Main "HOL-Library.AList" "HOL-Library.List_Lexorder" "HOL-Library.Char_ord"
    "HOL-Library.Multiset"
begin

text \<open>
  Shared vocabulary of the dstock development.  Go maps (\<open>map[K]V\<close>) are modelled as
  association lists with distinct keys: the list order is the order in which a
  \<open>range\<close> loop visits the map (Go randomises it, so every theorem that matters is
  proved for an arbitrary such order), \<open>m[k]\<close> is \<open>lookup_or\<close> with Go's zero value
  as default, and the assignment \<open>m[k] = v\<close> is \<open>AList.update\<close>.  The lemmas below
  are the generic facts about these maps and about sums over them that the component
  theories share.
\<close>

named_theorems gomap_simps "lookup and key facts of Go maps modelled as association lists"

type_synonym ('k, 'v) gomap = "('k \<times> 'v) list"

text \<open>Go's index expression \<open>m[k]\<close>: the stored value, or the zero value \<open>d\<close> of the
  value type when the key is absent (reading a missing key never fails in Go).\<close>

definition lookup_or :: "'v \<Rightarrow> ('k, 'v) gomap \<Rightarrow> 'k \<Rightarrow> 'v" where
  "lookup_or d m k = (case map_of m k of None \<Rightarrow> d | Some v \<Rightarrow> v)"

definition gomap_wf :: "('k, 'v) gomap \<Rightarrow> bool" where
  "gomap_wf m \<longleftrightarrow> distinct (map fst m)"

lemma lookup_or_update [simp, gomap_simps]:
  "lookup_or d (AList.update k v m) k' = (if k' = k then v else lookup_or d m k')"
  by (simp add: lookup_or_def update_conv')

lemma lookup_or_notin [gomap_simps]:
  "k \<notin> set (map fst m) \<Longrightarrow> lookup_or d m k = d"
  by (auto simp: lookup_or_def split: option.split dest!: map_of_SomeD intro: rev_image_eqI)

lemma lookup_or_in [gomap_simps]:
  "distinct (map fst m) \<Longrightarrow> (k, v) \<in> set m \<Longrightarrow> lookup_or d m k = v"
  by (simp add: lookup_or_def)

lemma lookup_or_Cons [simp, gomap_simps]:
  "lookup_or d ((k, v) # m) k' = (if k' = k then v else lookup_or d m k')"
  by (simp add: lookup_or_def)

lemma lookup_or_Nil [simp, gomap_simps]: "lookup_or d [] k = d"
  by (simp add: lookup_or_def)

lemma keys_update_in [gomap_simps]:
  "k \<in> set (map fst m) \<Longrightarrow> map fst (AList.update k v m) = map fst m"
  by (simp add: update_keys)

lemma gomap_wf_update [simp, gomap_simps]:
  "gomap_wf m \<Longrightarrow> gomap_wf (AList.update k v m)"
  by (simp add: gomap_wf_def distinct_update)

text \<open>A value different from the zero value can only be read at a present key.\<close>

lemma lookup_or_neq_default [gomap_simps]:
  "lookup_or d m k \<noteq> d \<Longrightarrow> k \<in> set (map fst m)"
  using lookup_or_notin by metis

text \<open>A new key goes to the end of the association list, as it goes last in the order
  the model gives the map.\<close>

lemma update_absent [gomap_simps]:
  "k \<notin> set (map fst m) \<Longrightarrow> AList.update k v m = m @ [(k, v)]"
  by (induction m) auto

lemma update_last [gomap_simps]:
  "k \<notin> set (map fst m) \<Longrightarrow> AList.update k v (m @ [(k, w)]) = m @ [(k, v)]"
  by (induction m) auto

lemma lookup_or_last [gomap_simps]:
  "k \<notin> set (map fst m) \<Longrightarrow> lookup_or d (m @ [(k, v)]) k = v"
  by (induction m) auto

subsection \<open>Sums over the keys of a map\<close>

text \<open>Over distinct keys, a function that is non-zero at one key only sums to its
  value there; this is how a two-entry change (one store gives, one receives) is seen
  in a sum over all stores.\<close>

lemma sum_list_single_key:
  fixes c :: "'a::comm_monoid_add"
  assumes "distinct xs" and "x \<in> set xs"
  shows "sum_list (map (\<lambda>y. if y = x then c else 0) xs) = c"
  using assms
proof (induction xs)
  case Nil
  then show ?case by simp
next
  case (Cons y ys)
  show ?case
  proof (cases "y = x")
    case True
    with Cons.prems have "x \<notin> set ys" by simp
    then have "sum_list (map (\<lambda>y. if y = x then c else 0) ys) = 0"
      by (induction ys) auto
    with True show ?thesis by simp
  next
    case False
    with Cons show ?thesis by simp
  qed
qed

lemma sum_list_absent_key:
  fixes c :: "'a::comm_monoid_add"
  shows "x \<notin> set xs \<Longrightarrow> sum_list (map (\<lambda>y. if y = x then c else 0) xs) = 0"
  by (induction xs) auto

text \<open>Summing a function of the stored values is summing it over the keys, read back
  with \<open>lookup_or\<close>.\<close>

lemma sum_entries_by_keys:
  assumes "distinct (map fst m)"
  shows "sum_list (map (\<lambda>(k, v). f v) m) = sum_list (map (\<lambda>k. f (lookup_or d m k)) (map fst m))"
  using assms
proof (induction m)
  case Nil
  then show ?case by simp
next
  case (Cons kv m)
  obtain k v where kv: "kv = (k, v)" by (cases kv)
  with Cons.prems have k: "k \<notin> set (map fst m)" and d: "distinct (map fst m)" by auto
  from k have eq: "map (\<lambda>k'. f (lookup_or d ((k, v) # m) k')) (map fst m)
      = map (\<lambda>k'. f (lookup_or d m k')) (map fst m)"
    by (intro map_cong) auto
  have "sum_list (map (\<lambda>(k, v). f v) (kv # m)) = f v + sum_list (map (\<lambda>(k, v). f v) m)"
    using kv by simp
  also have "\<dots> = f v + sum_list (map (\<lambda>k'. f (lookup_or d m k')) (map fst m))"
    using Cons.IH [OF d] by simp
  also have "\<dots> = f v + sum_list (map (\<lambda>k'. f (lookup_or d ((k, v) # m) k')) (map fst m))"
    by (simp only: eq)
  also have "\<dots> = sum_list (map (\<lambda>k'. f (lookup_or d (kv # m) k')) (map fst (kv # m)))"
    using kv by simp
  finally show ?case .
qed

lemma sum_list_add_map:
  fixes f g :: "'b \<Rightarrow> 'a::comm_monoid_add"
  shows "sum_list (map (\<lambda>x. f x + g x) xs) = sum_list (map f xs) + sum_list (map g xs)"
  by (induction xs) (simp_all add: algebra_simps)

lemma sum_list_diff_map:
  fixes f g :: "'b \<Rightarrow> 'a::ab_group_add"
  shows "sum_list (map (\<lambda>x. f x - g x) xs) = sum_list (map f xs) - sum_list (map g xs)"
  by (induction xs) (simp_all add: algebra_simps)

subsection \<open>Strings joined by a separator\<close>

lemma append_sep_inj:
  assumes "c \<notin> set u" and "c \<notin> set u'"
  shows "u @ c # v = u' @ c # v' \<Longrightarrow> u = u' \<and> v = v'"
  using assms
proof (induction u arbitrary: u')
  case Nil
  then show ?case by (cases u') auto
next
  case (Cons x u)
  then show ?case by (cases u') auto
qed

subsection \<open>Lists\<close>

text \<open>What a suffix starting with a given element says about the list.\<close>

lemma drop_eq_Cons:
  assumes "drop j xs = y # ys"
  shows "j < length xs" and "xs ! j = y" and "drop (Suc j) xs = ys"
proof -
  show j: "j < length xs" using assms by (metis drop_all list.distinct(1) not_le)
  from Cons_nth_drop_Suc [OF j] assms show "xs ! j = y" and "drop (Suc j) xs = ys" by simp_all
qed

end
