(* ===== verification/Stock.thy ===== *)
theory Stock
  imports Prelude
begin

text \<open>
  The inventory snapshot of \<open>src/stockparser/stockparser.go\<close>: \<open>StockItem\<close> (on-hand
  \<open>Has\<close> and target \<open>Needs\<close>, Go \<open>int\<close>) and \<open>StockMatrix\<close>, a map from store to a
  map from product to item.  The two accessors are the Go expressions the optimiser
  uses on it: \<open>stock[s][p]\<close> (\<open>item_of\<close>, the zero item when the store or the product
  is missing) and the assignment \<open>stock[s][p] = v\<close> (\<open>set_item\<close>).  Conservation
  and non-negativity of the whole matrix are stated here, over \<open>product_total\<close> and
  \<open>stock_nonneg\<close>.
\<close>

record stock_item =
  has :: int
  needs :: int

type_synonym store_stock = "(string, stock_item) gomap"
type_synonym stock_matrix = "(string, store_stock) gomap"

definition zero_item :: stock_item where
  "zero_item = \<lparr>has = 0, needs = 0\<rparr>"

text \<open>\<open>stock[s]\<close>: a nil map (no products) for an unknown store.\<close>

definition store_of :: "stock_matrix \<Rightarrow> string \<Rightarrow> store_stock" where
  "store_of st s = lookup_or [] st s"

text \<open>\<open>stock[s][p]\<close>.\<close>

definition item_of :: "stock_matrix \<Rightarrow> string \<Rightarrow> string \<Rightarrow> stock_item" where
  "item_of st s p = lookup_or zero_item (store_of st s) p"

text \<open>\<open>stock[s][p] = v\<close>: the inner map of \<open>s\<close> gets the entry.  Go panics when
  \<open>stock[s]\<close> is a nil map; the optimiser only ever writes at stores that are keys of
  the matrix (lemma \<open>keys_set_item\<close> and its uses), so that branch is unreachable.\<close>

definition set_item :: "stock_matrix \<Rightarrow> string \<Rightarrow> string \<Rightarrow> stock_item \<Rightarrow> stock_matrix" where
  "set_item st s p v = AList.update s (AList.update p v (store_of st s)) st"

text \<open>Well-formedness: the store keys and, in each store, the product keys are
  distinct (they are the keys of Go maps).\<close>

definition stock_wf :: "stock_matrix \<Rightarrow> bool" where
  "stock_wf st \<longleftrightarrow> distinct (map fst st) \<and> (\<forall>(s, ps) \<in> set st. distinct (map fst ps))"

definition stock_nonneg :: "stock_matrix \<Rightarrow> bool" where
  "stock_nonneg st \<longleftrightarrow> (\<forall>(s, ps) \<in> set st. \<forall>(p, it) \<in> set ps. 0 \<le> has it \<and> 0 \<le> needs it)"

text \<open>Units of product \<open>p\<close> held over all stores.\<close>

definition product_total :: "stock_matrix \<Rightarrow> string \<Rightarrow> int" where
  "product_total st p = sum_list (map (\<lambda>(s, ps). has (lookup_or zero_item ps p)) st)"

text \<open>The deep copy at the start of \<open>RunOpti\<close> (\<open>src/opti/opti.go\<close>, lines 23 and
  29--37): every store and item is rebuilt field by field.\<close>

definition copy_stock :: "stock_matrix \<Rightarrow> stock_matrix" where
  "copy_stock st = map (\<lambda>(k, v). (k, map (\<lambda>(kk, vv). (kk, \<lparr>has = has vv, needs = needs vv\<rparr>)) v)) st"

subsection \<open>The fixture of the package test\<close>

text \<open>The stock of \<open>TestOptiSuccess\<close> (\<open>src/opti/opti_test.go\<close>, lines 12--27),
  with the stores and products in the order the test lists them.\<close>

definition test_stock :: stock_matrix where
  "test_stock =
    [(''Paris'', [(''Apples'', \<lparr>has = 7, needs = 9\<rparr>), (''Corn'', \<lparr>has = 0, needs = 4\<rparr>),
       (''Sugar'', \<lparr>has = 4, needs = 4\<rparr>), (''Gems'', \<lparr>has = 2, needs = 0\<rparr>),
       (''Roses'', \<lparr>has = 6, needs = 4\<rparr>)]),
     (''Bucharest'', [(''Apples'', \<lparr>has = 17, needs = 3\<rparr>), (''Corn'', \<lparr>has = 6, needs = 2\<rparr>),
       (''Sugar'', \<lparr>has = 4, needs = 4\<rparr>), (''Gems'', \<lparr>has = 3, needs = 0\<rparr>),
       (''Roses'', \<lparr>has = 5, needs = 2\<rparr>)])]"

subsection \<open>Reading back what was written\<close>

lemma item_of_set_item [simp]:
  "item_of (set_item st s p v) s' p' = (if s' = s \<and> p' = p then v else item_of st s' p')"
  by (simp add: item_of_def store_of_def set_item_def)

lemma store_of_set_item_other:
  "s' \<noteq> s \<Longrightarrow> store_of (set_item st s p v) s' = store_of st s'"
  by (simp add: store_of_def set_item_def)

lemma store_of_set_item:
  "store_of (set_item st s p v) s' = (if s' = s then AList.update p v (store_of st s) else store_of st s')"
  by (simp add: store_of_def set_item_def)

lemma keys_set_item:
  "s \<in> set (map fst st) \<Longrightarrow> map fst (set_item st s p v) = map fst st"
  by (simp add: set_item_def keys_update_in)

lemma item_of_absent_store:
  "s \<notin> set (map fst st) \<Longrightarrow> item_of st s p = zero_item"
  by (simp add: item_of_def store_of_def lookup_or_notin)

text \<open>A store that holds an item other than the zero item is a key of the matrix.\<close>

lemma item_of_nonzero_store:
  "item_of st s p \<noteq> zero_item \<Longrightarrow> s \<in> set (map fst st)"
  using item_of_absent_store by metis

lemma store_of_nonempty:
  "store_of st s \<noteq> [] \<Longrightarrow> s \<in> set (map fst st)"
  unfolding store_of_def by (rule lookup_or_neq_default)

lemma store_of_distinct:
  assumes "stock_wf st"
  shows "distinct (map fst (store_of st s))"
proof (cases "s \<in> set (map fst st)")
  case True
  then obtain ps where "(s, ps) \<in> set st" by auto
  with assms show ?thesis
    by (auto simp: stock_wf_def store_of_def lookup_or_in)
next
  case False
  then show ?thesis by (simp add: store_of_def lookup_or_notin)
qed

text \<open>The entries a \<open>range\<close> loop over \<open>stock[s]\<close> produces are what
  \<open>stock[s][p]\<close> reads.\<close>

lemma item_of_store_entry:
  "stock_wf st \<Longrightarrow> (p, it) \<in> set (store_of st s) \<Longrightarrow> item_of st s p = it"
  by (simp add: item_of_def lookup_or_in store_of_distinct)

lemma item_of_not_in_store:
  "p \<notin> set (map fst (store_of st s)) \<Longrightarrow> item_of st s p = zero_item"
  by (simp add: item_of_def lookup_or_notin)

lemma stock_wf_set_item:
  assumes "stock_wf st"
  shows "stock_wf (set_item st s p v)"
proof -
  have "distinct (map fst (AList.update p v (store_of st s)))"
    using store_of_distinct [OF assms] by (rule distinct_update)
  moreover have "(s', ps') \<in> set (AList.update s x st) \<Longrightarrow> (s', ps') \<in> set st \<or> (s' = s \<and> ps' = x)"
    for s' ps' x
    by (induction st) (auto split: if_splits)
  ultimately show ?thesis
    using assms unfolding stock_wf_def set_item_def
    by (fastforce simp: distinct_update)
qed

text \<open>Under well-formedness a property of every entry is a property of every read
  \<open>stock[s][p]\<close>, when the zero item (what a missing entry reads as) has it.\<close>

lemma stock_entries_iff:
  assumes "stock_wf st" and "P zero_item"
  shows "(\<forall>(s, ps) \<in> set st. \<forall>(p, it) \<in> set ps. P it) \<longleftrightarrow> (\<forall>s p. P (item_of st s p))"
proof
  assume all: "\<forall>(s, ps) \<in> set st. \<forall>(p, it) \<in> set ps. P it"
  show "\<forall>s p. P (item_of st s p)"
  proof (intro allI)
    fix s p
    show "P (item_of st s p)"
    proof (cases "p \<in> set (map fst (store_of st s))")
      case True
      then obtain it where e: "(p, it) \<in> set (store_of st s)" by auto
      then have "s \<in> set (map fst st)"
        by (intro store_of_nonempty) auto
      then obtain ps where "(s, ps) \<in> set st" by auto
      with assms(1) have "store_of st s = ps"
        by (simp add: store_of_def stock_wf_def lookup_or_in)
      with all e \<open>(s, ps) \<in> set st\<close> have "P it" by fastforce
      with e assms(1) show ?thesis by (simp add: item_of_store_entry)
    next
      case False
      then show ?thesis by (simp add: item_of_not_in_store assms(2))
    qed
  qed
next
  assume r: "\<forall>s p. P (item_of st s p)"
  have "P it" if "(s, ps) \<in> set st" "(p, it) \<in> set ps" for s ps p it
  proof -
    from that(1) assms(1) have "store_of st s = ps"
      by (simp add: store_of_def stock_wf_def lookup_or_in)
    with that(2) assms(1) have "item_of st s p = it" by (simp add: item_of_store_entry)
    with r show ?thesis by metis
  qed
  then show "\<forall>(s, ps) \<in> set st. \<forall>(p, it) \<in> set ps. P it" by auto
qed

lemma stock_nonneg_iff:
  assumes "stock_wf st"
  shows "stock_nonneg st \<longleftrightarrow> (\<forall>s p. 0 \<le> has (item_of st s p) \<and> 0 \<le> needs (item_of st s p))"
  using stock_entries_iff [OF assms, of "\<lambda>it. 0 \<le> has it \<and> 0 \<le> needs it"]
  by (simp add: stock_nonneg_def zero_item_def)

text \<open>Under well-formedness the total of a product is the sum over the store keys of
  what \<open>stock[s][p]\<close> reads.\<close>

lemma product_total_by_keys:
  assumes "stock_wf st"
  shows "product_total st p = sum_list (map (\<lambda>s. has (item_of st s p)) (map fst st))"
  using assms sum_entries_by_keys [of st "\<lambda>ps. has (lookup_or zero_item ps p)" "[]"]
  by (simp add: product_total_def stock_wf_def item_of_def store_of_def)

lemma copy_stock_id: "copy_stock st = st"
  by (auto simp: copy_stock_def intro!: map_idI)

lemma test_stock_wf: "stock_wf test_stock"
  by (simp add: stock_wf_def test_stock_def)

lemma test_stock_nonneg: "stock_nonneg test_stock"
  by (simp add: stock_nonneg_def test_stock_def)

end
