(* ===== verification/Opti_Types.thy ===== *)
theory Opti_Types
  imports Stock
begin

text \<open>
  The value types of package \<open>opti\<close>: \<open>Transfer\<close> and \<open>TransferedProduct\<close>
  (\<open>src/opti/transfer.go\<close>) and \<open>Settings\<close> (\<open>src/opti/settings.go\<close>).  Field
  names keep the source's spelling (\<open>TotaItemsCount\<close>, \<open>OsaImprouve\<close>); the
  product field of \<open>TransferedProduct\<close> is \<open>tp_product\<close> because \<open>product\<close> is a
  constant of HOL's list library.  Go's zero value \<open>Transfer{}\<close>, the seed of the
  round reducer, is \<open>zero_transfer\<close>.
\<close>

record transfered_product =
  tp_product :: string
  quant :: int

record transfer =
  from_store :: string
  to_store :: string
  products :: "transfered_product list"
  tota_items_count :: int
  osa_improuve :: int

record settings =
  max_to :: int
  min_products :: int
  secure_stock_in :: "string list"
  de_stock_in :: "string list"

definition zero_transfer :: transfer where
  "zero_transfer = \<lparr>from_store = [], to_store = [], products = [], tota_items_count = 0,
     osa_improuve = 0\<rparr>"

text \<open>The settings of \<open>TestOptiSuccess\<close> (\<open>src/opti/opti_test.go\<close>, line 28).\<close>

definition test_settings :: settings where
  "test_settings = \<lparr>max_to = 1, min_products = 1, secure_stock_in = [], de_stock_in = []\<rparr>"

end
