(* ===== verification/Exchange.thy ===== *)
theory Exchange
  imports Opti_Types
begin

text \<open>
  The pair evaluator \<open>doExchangeItems\<close> of \<open>src/opti/opti.go\<close> (lines 206--231) and
  its helper \<open>min\<close> (lines 233--238).  The \<open>range\<close> loop over the products of
  \<open>store1\<close> is a left fold of \<open>exchange_product\<close> (one iteration of the loop body)
  over the entries of \<open>stock[store1]\<close>, threading the local variables \<open>totalCount\<close>,
  \<open>osaImprouve\<close>, \<open>exchangeList\<close> and the mutated matrix in \<open>exch_acc\<close>.

  The lemmas give the closed form of one evaluation: the quantity moved per product
  (\<open>transfer_qty\<close>, \<open>min(surplus, deficit)\<close> read from the matrix before the call), the
  items afterwards (\<open>moved_item\<close>), the product list, the totals; then conservation of
  every product, non-negativity, and that a dry run (\<open>alterStock = false\<close>) reports
  the same totals as the committing run.
\<close>

text \<open>\<open>func min(a, b int) int\<close>.\<close>

definition opti_min :: "int \<Rightarrow> int \<Rightarrow> int" where
  "opti_min a b = (if a < b then a else b)"

record exch_acc =
  ex_stock :: stock_matrix
  total_count :: int
  osa_count :: int
  exchange_list :: "transfered_product list"

text \<open>One iteration of \<open>for product, stockInStore1 := range stock[store1]\<close> (lines
  211--228).  \<open>stockInStore1\<close> is the value the range loop produced; \<open>stockInStore2\<close>
  is read from the matrix as it is now.\<close>

definition exchange_product ::
  "string \<Rightarrow> string \<Rightarrow> bool \<Rightarrow> exch_acc \<Rightarrow> string \<times> stock_item \<Rightarrow> exch_acc" where
  "exchange_product store1 store2 alter_stock acc entry =
    (case entry of (product, stock_in_store1) \<Rightarrow>
      let stock_in_store2 = item_of (ex_stock acc) store2 product in
      if has stock_in_store2 - needs stock_in_store2 < 0
         \<and> has stock_in_store1 - needs stock_in_store1 > 0 then
        let transfer_items = opti_min (has stock_in_store1 - needs stock_in_store1)
                                      (needs stock_in_store2 - has stock_in_store2);
            osa' = (if has stock_in_store2 = 0 \<and> transfer_items > 0
                    then osa_count acc + 1 else osa_count acc);
            acc' = (if alter_stock then
                      (let st2 = set_item (ex_stock acc) store2 product
                                   (stock_in_store2\<lparr>has := has stock_in_store2 + transfer_items\<rparr>);
                           st1 = set_item st2 store1 product
                                   (stock_in_store1\<lparr>has := has stock_in_store1 - transfer_items\<rparr>)
                       in acc\<lparr>ex_stock := st1,
                              exchange_list := exchange_list acc
                                @ [\<lparr>tp_product = product, quant = transfer_items\<rparr>]\<rparr>)
                    else acc)
        in acc'\<lparr>osa_count := osa', total_count := total_count acc + transfer_items\<rparr>
      else acc)"

text \<open>\<open>doExchangeItems(stock, settings, store1, store2, alterStock)\<close>: the mutated
  matrix (the Go function mutates its argument in place) and the returned
  \<open>Transfer\<close>.  \<open>settings\<close> is unused, as in the source.\<close>

definition do_exchange_items ::
  "stock_matrix \<Rightarrow> settings \<Rightarrow> string \<Rightarrow> string \<Rightarrow> bool \<Rightarrow> stock_matrix \<times> transfer" where
  "do_exchange_items stock sets store1 store2 alter_stock =
    (let acc = foldl (exchange_product store1 store2 alter_stock)
                 \<lparr>ex_stock = stock, total_count = 0, osa_count = 0, exchange_list = []\<rparr>
                 (store_of stock store1)
     in (ex_stock acc,
         \<lparr>from_store = store1, to_store = store2, products = exchange_list acc,
          tota_items_count = total_count acc, osa_improuve = osa_count acc\<rparr>))"

subsection \<open>Closed form\<close>

text \<open>The quantity of \<open>p\<close> moved from \<open>s1\<close> to \<open>s2\<close>, read from the matrix \<open>st\<close>:
  \<open>min(surplus, deficit)\<close> when both are positive, and nothing otherwise.\<close>

definition transfer_qty :: "stock_matrix \<Rightarrow> string \<Rightarrow> string \<Rightarrow> string \<Rightarrow> int" where
  "transfer_qty st s1 s2 p =
    (let a = item_of st s1 p; b = item_of st s2 p in
     if has b - needs b < 0 \<and> 0 < has a - needs a
     then min (has a - needs a) (needs b - has b) else 0)"

text \<open>The item of store \<open>s\<close> for \<open>p\<close> after the transfer from \<open>s1\<close> to \<open>s2\<close>.\<close>

definition moved_item :: "stock_matrix \<Rightarrow> string \<Rightarrow> string \<Rightarrow> string \<Rightarrow> string \<Rightarrow> stock_item" where
  "moved_item st s1 s2 s p =
    (let it = item_of st s p; q = transfer_qty st s1 s2 p in
     it\<lparr>has := has it + (if s = s2 then q else 0) - (if s = s1 then q else 0)\<rparr>)"

text \<open>Two matrices that read the same at product \<open>p\<close> in every store.\<close>

definition agree_at :: "stock_matrix \<Rightarrow> stock_matrix \<Rightarrow> string \<Rightarrow> bool" where
  "agree_at st st' p \<longleftrightarrow> (\<forall>s. item_of st s p = item_of st' s p)"

lemma transfer_qty_agree:
  "agree_at st st' p \<Longrightarrow> transfer_qty st s1 s2 p = transfer_qty st' s1 s2 p"
  by (simp add: agree_at_def transfer_qty_def)

lemma moved_item_agree:
  assumes "agree_at st st' p"
  shows "moved_item st s1 s2 s p = moved_item st' s1 s2 s p"
  using assms transfer_qty_agree [OF assms, of s1 s2] by (simp add: agree_at_def moved_item_def)

lemma exchange_product_step:
  fixes alter :: bool
  assumes it: "item_of (ex_stock acc) s1 p = it" and ne: "s1 \<noteq> s2"
  defines "acc' \<equiv> exchange_product s1 s2 alter acc (p, it)"
    and "q \<equiv> transfer_qty (ex_stock acc) s1 s2 p"
  shows "item_of (ex_stock acc') s p' =
           (if alter \<and> p' = p then moved_item (ex_stock acc) s1 s2 s p else item_of (ex_stock acc) s p')"
    and "total_count acc' = total_count acc + q"
    and "osa_count acc' = osa_count acc + (if 0 < q \<and> has (item_of (ex_stock acc) s2 p) = 0 then 1 else 0)"
    and "exchange_list acc' = exchange_list acc
           @ (if alter \<and> 0 < q then [\<lparr>tp_product = p, quant = q\<rparr>] else [])"
  using it ne unfolding acc'_def q_def
  by (auto simp: exchange_product_def transfer_qty_def moved_item_def opti_min_def Let_def)

lemma exchange_loop:
  fixes alter :: bool
  assumes "distinct (map fst ps)" and "\<forall>(p, it) \<in> set ps. item_of st0 s1 p = it"
    and "s1 \<noteq> s2" and "\<forall>p \<in> set (map fst ps). agree_at (ex_stock acc) st0 p"
  shows "(\<forall>s p'. item_of (ex_stock (foldl (exchange_product s1 s2 alter) acc ps)) s p' =
            (if alter \<and> p' \<in> set (map fst ps) then moved_item st0 s1 s2 s p'
             else item_of (ex_stock acc) s p'))
       \<and> total_count (foldl (exchange_product s1 s2 alter) acc ps)
           = total_count acc + sum_list (map (transfer_qty st0 s1 s2) (map fst ps))
       \<and> osa_count (foldl (exchange_product s1 s2 alter) acc ps)
           = osa_count acc + int (length (filter
               (\<lambda>p. 0 < transfer_qty st0 s1 s2 p \<and> has (item_of st0 s2 p) = 0) (map fst ps)))
       \<and> exchange_list (foldl (exchange_product s1 s2 alter) acc ps)
           = exchange_list acc @ (if alter then map (\<lambda>p. \<lparr>tp_product = p, quant = transfer_qty st0 s1 s2 p\<rparr>)
               (filter (\<lambda>p. 0 < transfer_qty st0 s1 s2 p) (map fst ps)) else [])"
  using assms
proof (induction ps arbitrary: acc)
  case Nil
  then show ?case by simp
next
  case (Cons e ps)
  obtain p it where e: "e = (p, it)" by (cases e)
  let ?acc1 = "exchange_product s1 s2 alter acc (p, it)"
  from Cons.prems e have agp: "agree_at (ex_stock acc) st0 p" and itp: "item_of st0 s1 p = it"
    and pn: "p \<notin> set (map fst ps)" by auto
  from agp itp have it: "item_of (ex_stock acc) s1 p = it" by (simp add: agree_at_def)
  note step = exchange_product_step [OF it \<open>s1 \<noteq> s2\<close>, of alter]
  have q: "transfer_qty (ex_stock acc) s1 s2 p = transfer_qty st0 s1 s2 p"
    using agp by (rule transfer_qty_agree)
  have h2: "has (item_of (ex_stock acc) s2 p) = has (item_of st0 s2 p)"
    using agp by (simp add: agree_at_def)
  have ag1: "\<forall>p' \<in> set (map fst ps). agree_at (ex_stock ?acc1) st0 p'"
    using Cons.prems e pn by (auto simp: agree_at_def step(1))
  from Cons.prems e have "distinct (map fst ps)" and "\<forall>(p, it) \<in> set ps. item_of st0 s1 p = it"
    by auto
  note IH = Cons.IH [OF this \<open>s1 \<noteq> s2\<close> ag1]
  have mv: "moved_item (ex_stock acc) s1 s2 s p = moved_item st0 s1 s2 s p" for s
    using agp by (rule moved_item_agree)
  show ?case
    using IH e step q h2 mv by (auto simp: algebra_simps)
qed


lemma transfer_qty_bounds:
  "0 \<le> transfer_qty st s1 s2 p"
  "0 < transfer_qty st s1 s2 p \<Longrightarrow> transfer_qty st s1 s2 p \<le> has (item_of st s1 p) - needs (item_of st s1 p)"
  "0 < transfer_qty st s1 s2 p \<Longrightarrow> transfer_qty st s1 s2 p \<le> needs (item_of st s2 p) - has (item_of st s2 p)"
  by (auto simp: transfer_qty_def Let_def split: if_splits)

text \<open>A product that store \<open>s1\<close> does not list, or a store that is not in the
  matrix, moves nothing: the missing entry reads as the zero item, whose surplus and
  deficit are 0.\<close>

lemma transfer_qty_not_listed:
  "p \<notin> set (map fst (store_of st s1)) \<Longrightarrow> transfer_qty st s1 s2 p = 0"
  by (simp add: transfer_qty_def item_of_not_in_store zero_item_def)

lemma transfer_qty_stores:
  assumes "transfer_qty st s1 s2 p \<noteq> 0"
  shows "s1 \<in> set (map fst st) \<and> s2 \<in> set (map fst st)"
proof (rule conjI; rule ccontr)
  assume "s1 \<notin> set (map fst st)"
  then have "item_of st s1 p = zero_item" by (rule item_of_absent_store)
  then have "transfer_qty st s1 s2 p = 0" by (simp add: transfer_qty_def Let_def zero_item_def)
  with assms show False by contradiction
next
  assume "s2 \<notin> set (map fst st)"
  then have "item_of st s2 p = zero_item" by (rule item_of_absent_store)
  then have "transfer_qty st s1 s2 p = 0" by (simp add: transfer_qty_def Let_def zero_item_def)
  with assms show False by contradiction
qed

lemma moved_item_unlisted:
  "transfer_qty st s1 s2 p = 0 \<Longrightarrow> moved_item st s1 s2 s p = item_of st s p"
  by (simp add: moved_item_def)

subsection \<open>Keys and well-formedness\<close>

text \<open>The evaluator writes only at stores of the matrix: it writes \<open>store2\<close>
  only when that store has a deficit, which the zero item of a missing store has not.\<close>

lemma exchange_product_keys:
  assumes "s1 \<in> set (map fst (ex_stock acc))"
  shows "map fst (ex_stock (exchange_product s1 s2 alter acc e)) = map fst (ex_stock acc)"
proof -
  obtain p it where e: "e = (p, it)" by (cases e)
  let ?b = "item_of (ex_stock acc) s2 p"
  have "s2 \<in> set (map fst (ex_stock acc))" if "has ?b - needs ?b < 0"
  proof (rule item_of_nonzero_store)
    show "?b \<noteq> zero_item" using that by (auto simp: zero_item_def)
  qed
  with assms e show ?thesis
    by (auto simp: exchange_product_def Let_def keys_set_item)
qed

lemma exchange_product_wf:
  "stock_wf (ex_stock acc) \<Longrightarrow> stock_wf (ex_stock (exchange_product s1 s2 alter acc e))"
  by (cases e) (simp add: exchange_product_def Let_def stock_wf_set_item)

lemma exchange_foldl_keys_wf:
  assumes "s1 \<in> set (map fst (ex_stock acc))"
  shows "map fst (ex_stock (foldl (exchange_product s1 s2 alter) acc ps)) = map fst (ex_stock acc)
       \<and> (stock_wf (ex_stock acc) \<longrightarrow> stock_wf (ex_stock (foldl (exchange_product s1 s2 alter) acc ps)))"
  using assms
proof (induction ps arbitrary: acc)
  case Nil
  then show ?case by simp
next
  case (Cons e ps)
  from Cons.prems have k: "map fst (ex_stock (exchange_product s1 s2 alter acc e)) = map fst (ex_stock acc)"
    by (rule exchange_product_keys)
  with Cons.prems have "s1 \<in> set (map fst (ex_stock (exchange_product s1 s2 alter acc e)))" by simp
  from Cons.IH [OF this] k show ?case by (simp add: exchange_product_wf)
qed

lemma do_exchange_items_keys:
  "map fst (fst (do_exchange_items st sets s1 s2 alter)) = map fst st"
proof (cases "s1 \<in> set (map fst st)")
  case True
  then show ?thesis
    using exchange_foldl_keys_wf [of s1 "\<lparr>ex_stock = st, total_count = 0, osa_count = 0, exchange_list = []\<rparr>"
        s2 alter "store_of st s1"]
    by (simp add: do_exchange_items_def Let_def)
next
  case False
  then have "store_of st s1 = []" by (simp add: store_of_def lookup_or_notin)
  then show ?thesis by (simp add: do_exchange_items_def)
qed

lemma do_exchange_items_length:
  "length (fst (do_exchange_items st sets s1 s2 alter)) = length st"
  using do_exchange_items_keys [of st sets s1 s2 alter] by (metis length_map)

lemma do_exchange_items_ends:
  "from_store (snd (do_exchange_items st sets s1 s2 alter)) = s1
   \<and> to_store (snd (do_exchange_items st sets s1 s2 alter)) = s2"
  by (simp add: do_exchange_items_def Let_def)

lemma do_exchange_items_wf:
  assumes "stock_wf st"
  shows "stock_wf (fst (do_exchange_items st sets s1 s2 alter))"
proof (cases "s1 \<in> set (map fst st)")
  case True
  then show ?thesis
    using assms exchange_foldl_keys_wf [of s1 "\<lparr>ex_stock = st, total_count = 0, osa_count = 0, exchange_list = []\<rparr>"
        s2 alter "store_of st s1"]
    by (simp add: do_exchange_items_def Let_def)
next
  case False
  then have "store_of st s1 = []" by (simp add: store_of_def lookup_or_notin)
  with assms show ?thesis by (simp add: do_exchange_items_def)
qed

subsection \<open>The whole evaluation\<close>

lemma do_exchange_items_closed_form:
  fixes alter :: bool and sets :: settings
  assumes wf: "stock_wf st" and ne: "s1 \<noteq> s2"
  defines "r \<equiv> do_exchange_items st sets s1 s2 alter"
    and "ks \<equiv> map fst (store_of st s1)"
  shows "item_of (fst r) s p = (if alter then moved_item st s1 s2 s p else item_of st s p)"
    and "products (snd r) = (if alter then map (\<lambda>p. \<lparr>tp_product = p, quant = transfer_qty st s1 s2 p\<rparr>)
           (filter (\<lambda>p. 0 < transfer_qty st s1 s2 p) ks) else [])"
    and "tota_items_count (snd r) = sum_list (map (transfer_qty st s1 s2) ks)"
    and "osa_improuve (snd r) = int (length (filter
           (\<lambda>p. 0 < transfer_qty st s1 s2 p \<and> has (item_of st s2 p) = 0) ks))"
    and "from_store (snd r) = s1" and "to_store (snd r) = s2"
proof -
  let ?acc0 = "\<lparr>ex_stock = st, total_count = 0, osa_count = 0, exchange_list = []\<rparr>"
  have e1: "\<forall>(p, it) \<in> set (store_of st s1). item_of st s1 p = it"
    using wf by (auto simp: item_of_store_entry)
  have e2: "\<forall>p \<in> set (map fst (store_of st s1)). agree_at (ex_stock ?acc0) st p"
    by (simp add: agree_at_def)
  note L = exchange_loop [where alter = alter, OF store_of_distinct [OF wf] e1 ne e2, folded ks_def]
  have "moved_item st s1 s2 s p = item_of st s p" if "p \<notin> set ks"
    using that by (simp add: ks_def transfer_qty_not_listed moved_item_unlisted)
  with L show "item_of (fst r) s p = (if alter then moved_item st s1 s2 s p else item_of st s p)"
    by (auto simp: r_def do_exchange_items_def)
  from L show "products (snd r) = (if alter then map (\<lambda>p. \<lparr>tp_product = p, quant = transfer_qty st s1 s2 p\<rparr>)
           (filter (\<lambda>p. 0 < transfer_qty st s1 s2 p) ks) else [])"
    by (simp add: r_def do_exchange_items_def ks_def)
  from L show "tota_items_count (snd r) = sum_list (map (transfer_qty st s1 s2) ks)"
    by (simp add: r_def do_exchange_items_def ks_def)
  from L show "osa_improuve (snd r) = int (length (filter
           (\<lambda>p. 0 < transfer_qty st s1 s2 p \<and> has (item_of st s2 p) = 0) ks))"
    by (simp add: r_def do_exchange_items_def ks_def)
  show "from_store (snd r) = s1" and "to_store (snd r) = s2"
    by (simp_all add: r_def do_exchange_items_def Let_def)
qed


lemma exchange_dry_run_stock:
  "ex_stock (foldl (exchange_product s1 s2 False) acc ps) = ex_stock acc"
  by (induction ps arbitrary: acc) (auto simp: exchange_product_def Let_def)

lemma do_exchange_items_dry_stock:
  "fst (do_exchange_items st sets s1 s2 False) = st"
  by (simp add: do_exchange_items_def exchange_dry_run_stock Let_def)

lemma do_exchange_items_dry_run:
  assumes "stock_wf st" and "s1 \<noteq> s2"
  shows "snd (do_exchange_items st sets s1 s2 False)
           = (snd (do_exchange_items st sets s1 s2 True))\<lparr>products := []\<rparr>"
  using do_exchange_items_closed_form [OF assms, of sets True]
    do_exchange_items_closed_form [OF assms, of sets False]
  by (simp add: transfer.equality)

lemma do_exchange_items_conserves:
  assumes wf: "stock_wf st" and ne: "s1 \<noteq> s2"
  shows "product_total (fst (do_exchange_items st sets s1 s2 alter)) p = product_total st p"
proof -
  let ?st' = "fst (do_exchange_items st sets s1 s2 alter)"
  let ?q = "transfer_qty st s1 s2 p"
  let ?d = "\<lambda>x s. if s = x then (if alter then ?q else 0) else 0"
  have wf': "stock_wf ?st'" using wf by (rule do_exchange_items_wf)
  have keys: "map fst ?st' = map fst st" by (rule do_exchange_items_keys)
  have dk: "distinct (map fst st)" using wf by (simp add: stock_wf_def)
  have item: "has (item_of ?st' s p) = has (item_of st s p) + ?d s2 s - ?d s1 s" for s
    using do_exchange_items_closed_form (1) [OF wf ne, of sets alter s p] ne
    by (auto simp: moved_item_def Let_def)
  have zero: "sum_list (map (?d x) (map fst st)) = (if alter then ?q else 0)"
    if "?q \<noteq> 0 \<longrightarrow> x \<in> set (map fst st)" for x
  proof (cases "?q = 0")
    case True
    then have "?d x = (\<lambda>_. 0)" by auto
    moreover have "sum_list (map (\<lambda>_. 0::int) xs) = 0" for xs :: "string list"
      by (induction xs) simp_all
    ultimately show ?thesis using True by (simp del: map_map)
  next
    case False
    with that have "x \<in> set (map fst st)" by simp
    with dk show ?thesis
      using sum_list_single_key [of "map fst st" x "if alter then ?q else 0"] by simp
  qed
  have "product_total ?st' p = sum_list (map (\<lambda>s. has (item_of ?st' s p)) (map fst st))"
    using product_total_by_keys [OF wf'] keys by simp
  also have "\<dots> = sum_list (map (\<lambda>s. has (item_of st s p) + ?d s2 s - ?d s1 s) (map fst st))"
    by (simp only: item)
  also have "\<dots> = product_total st p + sum_list (map (?d s2) (map fst st))
                   - sum_list (map (?d s1) (map fst st))"
    by (simp only: sum_list_diff_map sum_list_add_map product_total_by_keys [OF wf])
  also have "\<dots> = product_total st p"
    using zero [of s1] zero [of s2] transfer_qty_stores [of st s1 s2 p] by simp
  finally show ?thesis .
qed

lemma do_exchange_items_nonneg:
  assumes wf: "stock_wf st" and ne: "s1 \<noteq> s2" and nn: "stock_nonneg st"
  shows "stock_nonneg (fst (do_exchange_items st sets s1 s2 alter))"
proof -
  let ?st' = "fst (do_exchange_items st sets s1 s2 alter)"
  have all: "0 \<le> has (item_of st s p) \<and> 0 \<le> needs (item_of st s p)" for s p
    using nn wf by (simp add: stock_nonneg_iff)
  have "0 \<le> has (item_of ?st' s p) \<and> 0 \<le> needs (item_of ?st' s p)" for s p
  proof -
    have "0 \<le> has (moved_item st s1 s2 s p)"
    proof (cases "0 < transfer_qty st s1 s2 p")
      case True
      then show ?thesis
        using transfer_qty_bounds [of st s1 s2 p] all [of s p] all [of s1 p] ne
        by (auto simp: moved_item_def Let_def)
    next
      case False
      then have "transfer_qty st s1 s2 p = 0"
        using transfer_qty_bounds (1) [of st s1 s2 p] by simp
      then show ?thesis using all [of s p] by (simp add: moved_item_unlisted)
    qed
    moreover have "needs (moved_item st s1 s2 s p) = needs (item_of st s p)"
      by (simp add: moved_item_def Let_def)
    ultimately show ?thesis
      using do_exchange_items_closed_form (1) [OF wf ne, of sets alter s p] all [of s p]
      by (cases alter) simp_all
  qed
  then show ?thesis
    using do_exchange_items_wf [OF wf] by (simp add: stock_nonneg_iff)
qed

subsection \<open>Properties of one evaluation\<close>

text \<open>C5: Feasibility bound. Every product line of a committing evaluation moves
  \<open>min(surplus, deficit)\<close> units, both positive, of a product that \<open>store1\<close>
  lists, read from the matrix as it was before the call.\<close>

theorem committed_quantities:
  assumes "stock_wf st" and "s1 \<noteq> s2"
  shows "\<forall>tp \<in> set (products (snd (do_exchange_items st sets s1 s2 True))).
           tp_product tp \<in> set (map fst (store_of st s1))
           \<and> 0 < has (item_of st s1 (tp_product tp)) - needs (item_of st s1 (tp_product tp))
           \<and> 0 < needs (item_of st s2 (tp_product tp)) - has (item_of st s2 (tp_product tp))
           \<and> quant tp = min (has (item_of st s1 (tp_product tp)) - needs (item_of st s1 (tp_product tp)))
                             (needs (item_of st s2 (tp_product tp)) - has (item_of st s2 (tp_product tp)))"
  using do_exchange_items_closed_form (2) [OF assms, of sets True]
  by (auto simp: transfer_qty_def Let_def split: if_splits)

text \<open>C6: Dry run and commit agree. An evaluation with \<open>alterStock = false\<close>, as in the
  goroutines of a round, leaves the matrix unchanged and reports exactly the item count
  and OSA gain that the committing evaluation of the same pair on the same matrix
  applies; only the product lines are missing.\<close>

theorem dry_run_matches_commit:
  assumes "stock_wf st" and "s1 \<noteq> s2"
  shows "fst (do_exchange_items st sets s1 s2 False) = st
       \<and> snd (do_exchange_items st sets s1 s2 False)
           = (snd (do_exchange_items st sets s1 s2 True))\<lparr>products := []\<rparr>"
  using do_exchange_items_dry_stock do_exchange_items_dry_run [OF assms] by simp

subsection \<open>Committing never enlarges what a pair can move\<close>

lemma exchange_product_store_keys:
  assumes "fst e \<in> set (map fst (store_of (ex_stock acc) s1))" and "s1 \<noteq> s2"
  shows "map fst (store_of (ex_stock (exchange_product s1 s2 alter acc e)) s)
       = map fst (store_of (ex_stock acc) s)"
proof -
  obtain p it where e: "e = (p, it)" by (cases e)
  let ?b = "item_of (ex_stock acc) s2 p"
  have "p \<in> set (map fst (store_of (ex_stock acc) s2))" if "has ?b - needs ?b < 0"
  proof (rule ccontr)
    assume "p \<notin> set (map fst (store_of (ex_stock acc) s2))"
    then have "?b = zero_item" by (rule item_of_not_in_store)
    with that show False by (simp add: zero_item_def)
  qed
  with assms e show ?thesis
    by (auto simp: exchange_product_def Let_def store_of_set_item keys_update_in)
qed

lemma exchange_foldl_store_keys:
  assumes "set (map fst ps) \<subseteq> set (map fst (store_of (ex_stock acc) s1))" and "s1 \<noteq> s2"
  shows "map fst (store_of (ex_stock (foldl (exchange_product s1 s2 alter) acc ps)) s)
       = map fst (store_of (ex_stock acc) s)"
  using assms
proof (induction ps arbitrary: acc)
  case Nil
  then show ?case by simp
next
  case (Cons e ps)
  let ?acc1 = "exchange_product s1 s2 alter acc e"
  have k: "map fst (store_of (ex_stock ?acc1) s') = map fst (store_of (ex_stock acc) s')" for s'
    using Cons.prems by (intro exchange_product_store_keys) auto
  have "set (map fst ps) \<subseteq> set (map fst (store_of (ex_stock ?acc1) s1))"
    using Cons.prems k [of s1] by auto
  from Cons.IH [OF this Cons.prems(2)] k show ?case by simp
qed

text \<open>No evaluation adds a product to a store: it writes \<open>store2\<close> only where that
  store lists the product with a deficit.\<close>

lemma do_exchange_items_store_keys:
  assumes "s1 \<noteq> s2"
  shows "map fst (store_of (fst (do_exchange_items st sets s1 s2 alter)) s) = map fst (store_of st s)"
  using exchange_foldl_store_keys [of "store_of st s1"
      "\<lparr>ex_stock = st, total_count = 0, osa_count = 0, exchange_list = []\<rparr>" s1 s2 alter s] assms
  by (simp add: do_exchange_items_def Let_def)

lemma transfer_qty_pos_parts:
  "transfer_qty st s1 s2 p
     = min (max 0 (has (item_of st s1 p) - needs (item_of st s1 p)))
           (max 0 (needs (item_of st s2 p) - has (item_of st s2 p)))"
  by (simp add: transfer_qty_def Let_def min_def max_def)

text \<open>A committed transfer never raises the positive surplus or the positive deficit
  of any store for any product: the source keeps at least its target, the
  destination gets at most its target.\<close>

lemma moved_item_shrinks:
  assumes "s1 \<noteq> s2"
  shows "max 0 (has (moved_item st s1 s2 s p) - needs (moved_item st s1 s2 s p))
           \<le> max 0 (has (item_of st s p) - needs (item_of st s p))"
    and "max 0 (needs (moved_item st s1 s2 s p) - has (moved_item st s1 s2 s p))
           \<le> max 0 (needs (item_of st s p) - has (item_of st s p))"
  using assms transfer_qty_bounds [of st s1 s2 p]
  by (cases "0 < transfer_qty st s1 s2 p"; auto simp: moved_item_def Let_def max_def)+

lemma transfer_qty_commit_mono:
  assumes "stock_wf st" and "s1 \<noteq> s2"
  shows "transfer_qty (fst (do_exchange_items st sets s1 s2 True)) a b p \<le> transfer_qty st a b p"
proof -
  let ?st' = "fst (do_exchange_items st sets s1 s2 True)"
  have i: "item_of ?st' s p = moved_item st s1 s2 s p" for s
    using do_exchange_items_closed_form (1) [OF assms, of sets True] by simp
  show ?thesis
    unfolding transfer_qty_pos_parts i by (intro min.mono moved_item_shrinks [OF assms(2)])
qed

lemma dry_run_total_mono:
  assumes "stock_wf st" and "s1 \<noteq> s2" and "a \<noteq> b"
  shows "tota_items_count (snd (do_exchange_items (fst (do_exchange_items st sets s1 s2 True)) sets a b False))
         \<le> tota_items_count (snd (do_exchange_items st sets a b False))"
proof -
  let ?st' = "fst (do_exchange_items st sets s1 s2 True)"
  have wf': "stock_wf ?st'" using assms(1) by (rule do_exchange_items_wf)
  have ks: "map fst (store_of ?st' a) = map fst (store_of st a)"
    using assms(2) by (rule do_exchange_items_store_keys)
  have "sum_list (map (transfer_qty ?st' a b) (map fst (store_of st a)))
        \<le> sum_list (map (transfer_qty st a b) (map fst (store_of st a)))"
    by (rule sum_list_mono) (rule transfer_qty_commit_mono [OF assms(1,2)])
  then show ?thesis
    using do_exchange_items_closed_form (3) [OF wf' assms(3), of sets False]
      do_exchange_items_closed_form (3) [OF assms(1,3), of sets False] ks
    by simp
qed

lemma exchange_foldl_osa_mono:
  "osa_count acc \<le> osa_count (foldl (exchange_product s1 s2 alter) acc ps)"
proof (induction ps arbitrary: acc)
  case Nil
  then show ?case by simp
next
  case (Cons e ps)
  have "osa_count acc \<le> osa_count (exchange_product s1 s2 alter acc e)"
    by (cases e) (simp add: exchange_product_def Let_def)
  with Cons.IH [of "exchange_product s1 s2 alter acc e"] show ?case by simp
qed

lemma do_exchange_items_osa_nonneg:
  "0 \<le> osa_improuve (snd (do_exchange_items st sets s1 s2 alter))"
  using exchange_foldl_osa_mono [of "\<lparr>ex_stock = st, total_count = 0, osa_count = 0, exchange_list = []\<rparr>"]
  by (simp add: do_exchange_items_def Let_def)

subsection \<open>A store paired with itself\<close>

lemma exchange_foldl_same_store:
  assumes "ex_stock acc = st" and "\<forall>(p, it) \<in> set ps. item_of st s p = it"
  shows "foldl (exchange_product s s alter) acc ps = acc"
  using assms
proof (induction ps)
  case Nil
  then show ?case by simp
next
  case (Cons e ps)
  obtain p it where e: "e = (p, it)" by (cases e)
  with Cons.prems have "exchange_product s s alter acc e = acc"
    by (auto simp: exchange_product_def)
  with Cons show ?case by simp
qed

text \<open>A pair of equal stores moves nothing: no item has both a surplus and a deficit.\<close>

lemma do_exchange_items_same_store:
  assumes "stock_wf st"
  shows "do_exchange_items st sets s s alter
     = (st, \<lparr>from_store = s, to_store = s, products = [], tota_items_count = 0, osa_improuve = 0\<rparr>)"
proof -
  have "\<forall>(p, it) \<in> set (store_of st s). item_of st s p = it"
    using assms by (auto intro: item_of_store_entry)
  then show ?thesis
    using exchange_foldl_same_store [of "\<lparr>ex_stock = st, total_count = 0, osa_count = 0, exchange_list = []\<rparr>"]
    by (simp add: do_exchange_items_def Let_def)
qed

end
