(* ===== verification/Selector.thy ===== *)
theory Selector
  imports Opti_Types
begin

text \<open>
  The candidate selector of \<open>src/opti/opti.go\<close>: \<open>determineBestTransfer\<close> (lines
  161--173) and the reducer goroutine of a round (lines 99--106), which folds the
  transfers received on the channel, keeping those with at least \<open>minProducts\<close>
  items, starting from the zero \<open>Transfer{}\<close>.

  Scores are Go \<open>float64\<close> values \<open>OsaImprouve * order[0] + TotaItemsCount * order[1]\<close>;
  here they are exact rationals, so two candidates tie exactly when their exact
  scores are equal (float rounding of \<open>0.99\<close> and \<open>0.01\<close> is not modelled).  Go
  compares strings bytewise, which is the lexicographic order of
  \<open>HOL-Library.List_Lexorder\<close> on \<open>char\<close> lists ordered by code.

  The lemmas show that \<open>determineBestTransfer\<close> keeps the better of two transfers for
  the strict order \<open>better\<close> (higher score, then smaller \<open>from-to\<close> key), that the
  reducer returns the \<open>better\<close>-greatest admitted candidate, that its result does not
  depend on the order in which the goroutines deliver the candidates when their keys
  are distinct, and that it does depend on it when two keys collide.
\<close>

definition transfer_key :: "transfer \<Rightarrow> string" where
  "transfer_key t = from_store t @ ''-'' @ to_store t"

definition transfer_score :: "transfer \<Rightarrow> rat list \<Rightarrow> rat" where
  "transfer_score t order =
     of_int (osa_improuve t) * order ! 0 + of_int (tota_items_count t) * order ! 1"

definition determine_best_transfer :: "transfer \<Rightarrow> transfer \<Rightarrow> rat list \<Rightarrow> transfer" where
  "determine_best_transfer old new order =
    (let old_score = transfer_score old order; new_score = transfer_score new order in
     if new_score > old_score then new
     else if new_score = old_score then
       (if transfer_key old > transfer_key new then new else old)
     else old)"

text \<open>The weights passed at line 103, \<open>[]float64{0.99, 0.01}\<close>.\<close>

definition best_order :: "rat list" where
  "best_order = [99 / 100, 1 / 100]"

text \<open>One iteration of the reducer's \<open>for transfer := range transfersList\<close>.\<close>

definition reduce_step :: "int \<Rightarrow> transfer \<Rightarrow> transfer \<Rightarrow> transfer" where
  "reduce_step min_prods transfer optimal =
    (if tota_items_count transfer \<ge> min_prods
     then determine_best_transfer optimal transfer best_order else optimal)"

definition reduce_transfers :: "int \<Rightarrow> transfer list \<Rightarrow> transfer" where
  "reduce_transfers min_prods ts = fold (reduce_step min_prods) ts zero_transfer"

subsection \<open>The order the selector maximises\<close>

definition better :: "rat list \<Rightarrow> transfer \<Rightarrow> transfer \<Rightarrow> bool" where
  "better order a b \<longleftrightarrow>
     transfer_score b order < transfer_score a order
     \<or> (transfer_score a order = transfer_score b order \<and> transfer_key a < transfer_key b)"

lemma determine_best_transfer_better:
  "determine_best_transfer old new order = (if better order new old then new else old)"
  by (auto simp: determine_best_transfer_def better_def Let_def)

lemma better_irrefl: "\<not> better order a a"
  by (simp add: better_def)

lemma better_trans:
  assumes "better order a b" and "better order b c"
  shows "better order a c"
proof -
  let ?s = "\<lambda>t. transfer_score t order"
  from assms(1) have "?s b < ?s a \<or> (?s a = ?s b \<and> transfer_key a < transfer_key b)"
    by (simp add: better_def)
  moreover from assms(2) have "?s c < ?s b \<or> (?s b = ?s c \<and> transfer_key b < transfer_key c)"
    by (simp add: better_def)
  ultimately have "?s c < ?s a \<or> (?s a = ?s c \<and> transfer_key a < transfer_key c)"
    by (elim disjE conjE) (simp_all, (erule less_trans, assumption)?)
  then show ?thesis by (simp add: better_def)
qed

lemma better_asym: "better order a b \<Longrightarrow> \<not> better order b a"
  using better_trans better_irrefl by blast

lemma better_total:
  "transfer_key a \<noteq> transfer_key b \<Longrightarrow> better order a b \<or> better order b a"
  unfolding better_def by (meson linorder_neq_iff)

text \<open>\<open>better\<close> compares the pairs (score, key) lexicographically, so it is negatively
  transitive: what beats \<open>c\<close> beats \<open>b\<close>, or \<open>b\<close> beats \<open>c\<close>.\<close>

lemma better_neg_trans:
  assumes "better order a c"
  shows "better order a b \<or> better order b c"
proof -
  let ?s = "\<lambda>t. transfer_score t order"
  consider "?s b < ?s a" | "?s a < ?s b" | "?s a = ?s b"
    by (meson linorder_neq_iff)
  then show ?thesis
  proof cases
    case 3
    consider "transfer_key a < transfer_key b" | "transfer_key b \<le> transfer_key a"
      by (meson not_le)
    then show ?thesis
      using assms 3 by cases (auto simp: better_def dest: order.strict_trans1)
  qed (use assms in \<open>auto simp: better_def\<close>)
qed


subsection \<open>Order of delivery\<close>

text \<open>Two reducer steps commute when the two candidates' keys differ: the result of
  the fold is then the same for every order in which the evaluation goroutines
  deliver the candidates (\<open>fold_multiset_equiv\<close> of HOL-Library.Multiset).\<close>

lemma reduce_step_commute:
  assumes "transfer_key x \<noteq> transfer_key y \<or> x = y"
  shows "reduce_step m x \<circ> reduce_step m y = reduce_step m y \<circ> reduce_step m x"
proof (rule ext)
  fix acc
  consider (eq) "x = y" | (xy) "better best_order x y" | (yx) "better best_order y x"
    using assms better_total by blast
  then show "(reduce_step m x \<circ> reduce_step m y) acc = (reduce_step m y \<circ> reduce_step m x) acc"
  proof cases
    case eq
    then show ?thesis by simp
  next
    case xy
    have "better best_order x acc" if "better best_order y acc"
      using xy that by (rule better_trans)
    moreover have "\<not> better best_order y x" using xy by (rule better_asym)
    ultimately show ?thesis using xy
      by (simp add: reduce_step_def determine_best_transfer_better)
  next
    case yx
    have "better best_order y acc" if "better best_order x acc"
      using yx that by (rule better_trans)
    moreover have "\<not> better best_order x y" using yx by (rule better_asym)
    ultimately show ?thesis using yx
      by (simp add: reduce_step_def determine_best_transfer_better)
  qed
qed

text \<open>C8: Delivery order does not matter. When the candidates of a round have distinct
  \<open>from-to\<close> keys, every order in which the goroutines deliver them gives the same
  winner.\<close>

theorem reduce_transfers_order_independent:
  assumes "mset xs = mset ys" and "distinct (map transfer_key xs)"
  shows "reduce_transfers m xs = reduce_transfers m ys"
proof -
  have "reduce_step m x \<circ> reduce_step m y = reduce_step m y \<circ> reduce_step m x"
    if "x \<in> set xs" and "y \<in> set xs" for x y
  proof (rule reduce_step_commute)
    from assms(2) that show "transfer_key x \<noteq> transfer_key y \<or> x = y"
      by (auto simp: distinct_map dest: inj_onD)
  qed
  then have "fold (reduce_step m) xs = fold (reduce_step m) ys"
    using assms(1) by (rule fold_multiset_equiv)
  then show ?thesis by (simp add: reduce_transfers_def)
qed

subsection \<open>What the reducer returns\<close>

lemma fold_reduce_step_greatest:
  "fold (reduce_step m) ts a \<in> insert a (set (filter (\<lambda>t. m \<le> tota_items_count t) ts))
   \<and> \<not> better best_order a (fold (reduce_step m) ts a)
   \<and> (\<forall>t \<in> set ts. m \<le> tota_items_count t \<longrightarrow> \<not> better best_order t (fold (reduce_step m) ts a))"
proof (induction ts arbitrary: a)
  case Nil
  then show ?case by (simp add: better_irrefl)
next
  case (Cons t ts)
  let ?a1 = "reduce_step m t a"
  let ?r = "fold (reduce_step m) ts ?a1"
  have a1: "?a1 \<in> {a, t} \<and> \<not> better best_order a ?a1
      \<and> (m \<le> tota_items_count t \<longrightarrow> \<not> better best_order t ?a1 \<and> ?a1 \<in> {a, t})
      \<and> (\<not> m \<le> tota_items_count t \<longrightarrow> ?a1 = a)"
    by (auto simp: reduce_step_def determine_best_transfer_better better_irrefl dest: better_asym)
  from Cons.IH [of ?a1] have ih: "?r \<in> insert ?a1 (set (filter (\<lambda>t. m \<le> tota_items_count t) ts))"
    "\<not> better best_order ?a1 ?r"
    "\<forall>t' \<in> set ts. m \<le> tota_items_count t' \<longrightarrow> \<not> better best_order t' ?r"
    by auto
  have "\<not> better best_order a ?r"
    using a1 ih(2) better_neg_trans by blast
  moreover have "\<not> better best_order t ?r" if "m \<le> tota_items_count t"
    using a1 ih(2) that better_neg_trans by blast
  moreover have "?r \<in> insert a (set (filter (\<lambda>t. m \<le> tota_items_count t) (t # ts)))"
    using ih(1) a1 by auto
  ultimately show ?case using ih(3) by simp
qed

text \<open>C7: The reducer returns the best admitted candidate. The winner of a round is the
  zero transfer or a candidate with at least \<open>minProducts\<close> items, and no admitted
  candidate is \<open>better\<close> (higher score, or equal score and smaller key) than it.\<close>

theorem reduce_transfers_greatest:
  "reduce_transfers m ts \<in> insert zero_transfer (set (filter (\<lambda>t. m \<le> tota_items_count t) ts))
   \<and> (\<forall>t \<in> set ts. m \<le> tota_items_count t \<longrightarrow> \<not> better best_order t (reduce_transfers m ts))"
  using fold_reduce_step_greatest [of m ts zero_transfer] by (simp add: reduce_transfers_def)

lemma better_zero_transfer:
  "0 \<le> osa_improuve t \<Longrightarrow> 0 < tota_items_count t \<Longrightarrow> better best_order t zero_transfer"
  by (simp add: better_def transfer_score_def best_order_def zero_transfer_def)

text \<open>With \<open>minProducts\<close> positive and candidates of non-negative OSA gain (as every
  evaluation returns), an admitted candidate always beats the zero seed, so the round
  has a winner with at least \<open>minProducts\<close> items exactly when some candidate has.\<close>

lemma reduce_transfers_admitted:
  assumes "0 < m" and "\<forall>t \<in> set ts. 0 \<le> osa_improuve t"
    and "t0 \<in> set ts" and "m \<le> tota_items_count t0"
  shows "reduce_transfers m ts \<in> set ts \<and> m \<le> tota_items_count (reduce_transfers m ts)"
proof -
  have "better best_order t0 zero_transfer"
    using assms by (intro better_zero_transfer) auto
  moreover note g = fold_reduce_step_greatest [of m ts zero_transfer]
  ultimately have "reduce_transfers m ts \<noteq> zero_transfer"
    using assms(3,4) by (auto simp: reduce_transfers_def)
  with g show ?thesis by (auto simp: reduce_transfers_def)
qed

text \<open>C9: Deterministic tie-break. Of two transfers with equal score,
  \<open>determineBestTransfer\<close> returns the one with the lexicographically smaller
  \<open>from-to\<close> key, whichever is passed first.\<close>

theorem determine_best_transfer_tie:
  assumes "transfer_score a order = transfer_score b order"
    and "transfer_key a < transfer_key b"
  shows "determine_best_transfer a b order = a \<and> determine_best_transfer b a order = a"
  using assms by (auto simp: determine_best_transfer_def Let_def)

text \<open>C10: Colliding keys make the winner order-dependent. Stores named \<open>a-b\<close>, \<open>c\<close>,
  \<open>a\<close> and \<open>b-c\<close> give the pairs (\<open>a-b\<close>, \<open>c\<close>) and (\<open>a\<close>, \<open>b-c\<close>) the same key
  \<open>a-b-c\<close>; with equal scores the reducer keeps whichever arrives first, so the
  winner depends on goroutine scheduling.\<close>

theorem reduce_transfers_key_collision:
  "mset [\<lparr>from_store = ''a-b'', to_store = ''c'', products = [], tota_items_count = 1, osa_improuve = 0\<rparr>,
         \<lparr>from_store = ''a'', to_store = ''b-c'', products = [], tota_items_count = 1, osa_improuve = 0\<rparr>]
   = mset [\<lparr>from_store = ''a'', to_store = ''b-c'', products = [], tota_items_count = 1, osa_improuve = 0\<rparr>,
         \<lparr>from_store = ''a-b'', to_store = ''c'', products = [], tota_items_count = 1, osa_improuve = 0\<rparr>]
   \<and> reduce_transfers 1
       [\<lparr>from_store = ''a-b'', to_store = ''c'', products = [], tota_items_count = 1, osa_improuve = 0\<rparr>,
        \<lparr>from_store = ''a'', to_store = ''b-c'', products = [], tota_items_count = 1, osa_improuve = 0\<rparr>]
     \<noteq> reduce_transfers 1
       [\<lparr>from_store = ''a'', to_store = ''b-c'', products = [], tota_items_count = 1, osa_improuve = 0\<rparr>,
        \<lparr>from_store = ''a-b'', to_store = ''c'', products = [], tota_items_count = 1, osa_improuve = 0\<rparr>]"
  by (simp add: reduce_transfers_def reduce_step_def determine_best_transfer_def transfer_score_def
      transfer_key_def best_order_def zero_transfer_def)

text \<open>Without dashes in the source store names the key determines the pair.\<close>

lemma transfer_key_inj:
  assumes "CHR ''-'' \<notin> set (from_store a)" and "CHR ''-'' \<notin> set (from_store b)"
    and "transfer_key a = transfer_key b"
  shows "from_store a = from_store b \<and> to_store a = to_store b"
  using append_sep_inj [OF assms(1,2)] assms(3) by (simp add: transfer_key_def)

end
