(* ===== verification/Osa.thy ===== *)
theory Osa
  imports Stock
begin

text \<open>
  The OSA scorer \<open>computeOSA\<close> of \<open>src/opti/opti.go\<close> (lines 175--204): the number
  of (store, product) entries with stock on hand before and after, and the change as
  percentage points of the entries of the final matrix.  The two nested \<open>range\<close>
  loops count over all entries of the matrix; Go's \<open>float64\<close> division is exact
  rational division here.
\<close>

definition items_in_stock :: "stock_matrix \<Rightarrow> nat" where
  "items_in_stock st = length (filter (\<lambda>(p, it). 0 < has it) (concat (map snd st)))"

definition total_items :: "stock_matrix \<Rightarrow> nat" where
  "total_items st = length (concat (map snd st))"

definition compute_osa :: "stock_matrix \<Rightarrow> stock_matrix \<Rightarrow> rat" where
  "compute_osa in_stock out_stock =
    (let in_items_in_stock = items_in_stock in_stock;
         out_items_in_stock = items_in_stock out_stock;
         out_total_items = total_items out_stock
     in if out_total_items \<noteq> 0
        then (of_nat out_items_in_stock - of_nat in_items_in_stock) * 100 / of_nat out_total_items
        else 0)"

end
