(* ===== verification/Orchestrator.thy ===== *)
theory Orchestrator
  imports Exchange Selector Osa
begin

text \<open>
  The transfer orchestrator \<open>RunOpti\<close> of \<open>src/opti/opti.go\<close> (lines 11--159).
  Its local state is the record \<open>opti_state\<close>: the private copy \<open>mystock\<close>, the flag
  \<open>prioriFirst\<close>, the availability matrix \<open>transferAvailabilityMat\<close> (a function,
  \<open>False\<close> where Go's map has no entry), the per-store counter
  \<open>transferCounterMat\<close>, \<open>loopCounter\<close>, the committed \<open>transfers\<close> and the values
  sent on the \<open>progress\<close> channel, in order.

  One round (lines 70--139) is: the eligible ordered pairs of stores
  (\<open>round_pairs\<close>), their dry-run evaluations (\<open>round_candidates\<close>), the reducer's
  winner (\<open>round_winner\<close>); then either the phase switch, the exit, or the commit of
  the winner (\<open>commit_transfer\<close>).  The goroutines of a round only read the matrix,
  and the winner is read after \<open>wg.Wait()\<close>; the model takes the barrier the
  design intends (every candidate reduced before the winner is read) and the
  candidates in the order of the two \<open>range\<close> loops, which \<open>Selector\<close> shows
  immaterial.  The per-round matrix \<open>exchangeCounterMat\<close> (lines 71--78) is built
  afresh in every round and never read (\<open>exchange_counter_mat\<close>): the loop state does
  not carry it.
\<close>

record opti_state =
  mystock :: stock_matrix
  prio_first :: bool
  transfer_avail :: "string \<Rightarrow> string \<Rightarrow> bool"
  transfer_counter :: "string \<Rightarrow> int"
  loop_counter :: int
  transfers :: "transfer list"
  progress_sent :: "int list"

record optimisation =
  in_stock :: stock_matrix
  after_stock :: stock_matrix
  opti_transfers :: "transfer list"
  opti_settings :: settings
  osa_increase :: rat

text \<open>\<open>stringInSlice\<close> (lines 152--159).\<close>

fun string_in_slice :: "string \<Rightarrow> string list \<Rightarrow> bool" where
  "string_in_slice a [] = False"
| "string_in_slice a (b # list) = (if b = a then True else string_in_slice a list)"

text \<open>Rules 1 and 3 (lines 41--51): the defaults for unset settings.\<close>

definition effective_max_to :: "settings \<Rightarrow> int" where
  "effective_max_to sets = (if max_to sets > 0 then max_to sets else 10)"

definition effective_min_products :: "settings \<Rightarrow> int" where
  "effective_min_products sets = (if min_products sets > 0 then min_products sets else 1)"

text \<open>The initial availability matrix (lines 57--67): every ordered pair of distinct
  stores.\<close>

definition init_avail :: "string list \<Rightarrow> string \<Rightarrow> string \<Rightarrow> bool" where
  "init_avail stores store1 store2 \<longleftrightarrow> store1 \<in> set stores \<and> store2 \<in> set stores \<and> store1 \<noteq> store2"

text \<open>\<open>exchangeCounterMat\<close> as lines 71--78 build it at the start of each round:
  every ordered pair of stores, a store with itself included, at \<open>-1\<close>.\<close>

definition exchange_counter_mat :: "string list \<Rightarrow> (string, (string, int) gomap) gomap" where
  "exchange_counter_mat stores = map (\<lambda>store1. (store1, map (\<lambda>store2. (store2, -1)) stores)) stores"

text \<open>The guards of lines 86--87.\<close>

definition pair_eligible :: "settings \<Rightarrow> int \<Rightarrow> opti_state \<Rightarrow> string \<Rightarrow> string \<Rightarrow> bool" where
  "pair_eligible sets max_to' st store1 store2 \<longleftrightarrow>
     transfer_avail st store1 store2 \<and> transfer_counter st store1 < max_to'
     \<and> ((prio_first st \<and> (string_in_slice store1 (de_stock_in sets)
                            \<or> string_in_slice store2 (secure_stock_in sets)))
        \<or> \<not> prio_first st)"

text \<open>The pairs for which a goroutine is started (lines 84--97).\<close>

definition round_pairs :: "settings \<Rightarrow> int \<Rightarrow> opti_state \<Rightarrow> (string \<times> string) list" where
  "round_pairs sets max_to' st =
    [(store1, store2). store1 \<leftarrow> map fst (mystock st), store2 \<leftarrow> map fst (mystock st),
       pair_eligible sets max_to' st store1 store2]"

text \<open>What the goroutines send: \<open>doExchangeItems(mystock, settings, store1, store2, false)\<close>.\<close>

definition round_candidates :: "settings \<Rightarrow> int \<Rightarrow> opti_state \<Rightarrow> transfer list" where
  "round_candidates sets max_to' st =
    map (\<lambda>(store1, store2). snd (do_exchange_items (mystock st) sets store1 store2 False))
      (round_pairs sets max_to' st)"

text \<open>\<open>optimalTransferFound\<close> after the reducer has consumed every candidate
  (lines 99--112).\<close>

definition round_winner :: "settings \<Rightarrow> int \<Rightarrow> int \<Rightarrow> opti_state \<Rightarrow> transfer" where
  "round_winner sets max_to' min_prods st = reduce_transfers min_prods (round_candidates sets max_to' st)"

text \<open>The commit of a winner (lines 128--138): availability and counter first, then
  the committing evaluation against the current matrix, the iteration counter and the
  progress value \<open>loopCounter * 100 / (len(mystock) * maxTo)\<close> (positive operands, so
  Go's truncating division is \<open>div\<close>).\<close>

definition commit_transfer :: "settings \<Rightarrow> int \<Rightarrow> transfer \<Rightarrow> opti_state \<Rightarrow> opti_state" where
  "commit_transfer sets max_to' w st =
    (let f = from_store w; t = to_store w;
         avail' = (transfer_avail st)(f := (transfer_avail st f)(t := False));
         counter' = (transfer_counter st)(f := transfer_counter st f + 1);
         r = do_exchange_items (mystock st) sets f t True;
         lc = loop_counter st + 1
     in st\<lparr>transfer_avail := avail', transfer_counter := counter', mystock := fst r,
           transfers := transfers st @ [snd r], loop_counter := lc,
           progress_sent := progress_sent st @ [lc * 100 div (int (length (fst r)) * max_to')]\<rparr>)"

text \<open>The \<open>for loopCounter < len(mystock)*maxTo\<close> loop (lines 69--139): a round
  whose winner has no items switches from the priority phase to the normal phase
  (\<open>continue\<close>) or leaves the loop (\<open>break\<close>); any other round commits its winner.
  The loop ends because every commit raises \<open>loopCounter\<close> towards its bound and the
  phase switch happens once.\<close>

function opti_loop :: "settings \<Rightarrow> int \<Rightarrow> int \<Rightarrow> opti_state \<Rightarrow> opti_state" where
  "opti_loop sets max_to' min_prods st =
    (if loop_counter st < int (length (mystock st)) * max_to' then
       (let w = round_winner sets max_to' min_prods st in
        if tota_items_count w = 0 then
          (if prio_first st then opti_loop sets max_to' min_prods (st\<lparr>prio_first := False\<rparr>)
           else st)
        else opti_loop sets max_to' min_prods (commit_transfer sets max_to' w st))
     else st)"
  by pat_completeness auto
termination
  by (relation "measure (\<lambda>(sets, max_to', min_prods, st).
        nat (2 * (int (length (mystock st)) * max_to' - loop_counter st))
        + (if prio_first st then 1 else 0))")
     (auto simp: commit_transfer_def Let_def do_exchange_items_length)

declare opti_loop.simps [simp del]

text \<open>The state before the loop (lines 22--37 and 53--69): priority mode when a
  secure or destock list is given, the deep copy of the stock, every pair of distinct
  stores available, no transfer counted.\<close>

definition opti_init :: "stock_matrix \<Rightarrow> settings \<Rightarrow> opti_state" where
  "opti_init stock sets =
    (let mys = copy_stock stock in
     \<lparr>mystock = mys,
      prio_first = (length (secure_stock_in sets) > 0 \<or> length (de_stock_in sets) > 0),
      transfer_avail = init_avail (map fst mys), transfer_counter = (\<lambda>_. 0),
      loop_counter = 0, transfers = [], progress_sent = []\<rparr>)"

text \<open>\<open>RunOpti(stock, settings, progress)\<close>: the \<open>Optimisation\<close> it returns (lines
  143--149) and the values it sent on \<open>progress\<close>.\<close>

definition run_opti :: "stock_matrix \<Rightarrow> settings \<Rightarrow> optimisation \<times> int list" where
  "run_opti stock sets =
    (let st = opti_loop sets (effective_max_to sets) (effective_min_products sets) (opti_init stock sets)
     in (\<lparr>in_stock = stock, after_stock = mystock st, opti_transfers = transfers st,
          opti_settings = sets, osa_increase = compute_osa stock (mystock st)\<rparr>,
         progress_sent st))"

subsection \<open>Unfolding the loop\<close>


lemma opti_loop_stop:
  "\<not> loop_counter st < int (length (mystock st)) * mt \<Longrightarrow> opti_loop sets mt mp st = st"
  by (simp add: opti_loop.simps [of sets mt mp st])

lemma opti_loop_commit:
  "loop_counter st < int (length (mystock st)) * mt \<Longrightarrow> tota_items_count (round_winner sets mt mp st) \<noteq> 0 \<Longrightarrow>
   opti_loop sets mt mp st = opti_loop sets mt mp (commit_transfer sets mt (round_winner sets mt mp st) st)"
  by (simp add: opti_loop.simps [of sets mt mp st] Let_def)

lemma opti_loop_switch:
  "loop_counter st < int (length (mystock st)) * mt \<Longrightarrow> tota_items_count (round_winner sets mt mp st) = 0 \<Longrightarrow>
   prio_first st \<Longrightarrow> opti_loop sets mt mp st = opti_loop sets mt mp (st\<lparr>prio_first := False\<rparr>)"
  by (simp add: opti_loop.simps [of sets mt mp st] Let_def)

lemma opti_loop_exit:
  "loop_counter st < int (length (mystock st)) * mt \<Longrightarrow> tota_items_count (round_winner sets mt mp st) = 0 \<Longrightarrow>
   \<not> prio_first st \<Longrightarrow> opti_loop sets mt mp st = st"
  by (simp add: opti_loop.simps [of sets mt mp st] Let_def)

text \<open>A run of one committed round followed by a round without winner in the normal
  phase.\<close>

lemma opti_loop_commit_exit:
  assumes "loop_counter st < int (length (mystock st)) * mt"
    and "tota_items_count (round_winner sets mt mp st) \<noteq> 0"
    and "commit_transfer sets mt (round_winner sets mt mp st) st = st1"
    and "loop_counter st1 < int (length (mystock st1)) * mt"
    and "tota_items_count (round_winner sets mt mp st1) = 0" and "\<not> prio_first st1"
  shows "opti_loop sets mt mp st = st1"
  using opti_loop_commit [OF assms(1,2)] opti_loop_exit [OF assms(4-6)] assms(3) by simp

text \<open>Invariant rule of the loop: a property that holds at the start, survives the
  phase switch (taken by a round of the priority phase whose winner has no items) and
  survives the commit of a round's winner holds at the end.\<close>

lemma opti_loop_inv:
  assumes "P st"
    and switch: "\<And>st. P st \<Longrightarrow> loop_counter st < int (length (mystock st)) * mt \<Longrightarrow>
        tota_items_count (round_winner sets mt mp st) = 0 \<Longrightarrow> prio_first st \<Longrightarrow>
        P (st\<lparr>prio_first := False\<rparr>)"
    and commit: "\<And>st. P st \<Longrightarrow> loop_counter st < int (length (mystock st)) * mt \<Longrightarrow>
        tota_items_count (round_winner sets mt mp st) \<noteq> 0 \<Longrightarrow>
        P (commit_transfer sets mt (round_winner sets mt mp st) st)"
  shows "P (opti_loop sets mt mp st)"
proof -
  have "sets' = sets \<longrightarrow> mt' = mt \<longrightarrow> mp' = mp \<longrightarrow> P st' \<longrightarrow> P (opti_loop sets' mt' mp' st')"
    for sets' mt' mp' st'
  proof (induction sets' mt' mp' st' rule: opti_loop.induct)
    case (1 sets' mt' mp' st)
    show ?case
    proof (intro impI)
      assume eq: "sets' = sets" "mt' = mt" "mp' = mp" and p: "P st"
      show "P (opti_loop sets' mt' mp' st)"
      proof (cases "loop_counter st < int (length (mystock st)) * mt")
        case False
        with p eq show ?thesis by (simp add: opti_loop_stop)
      next
        case lt: True
        show ?thesis
        proof (cases "tota_items_count (round_winner sets mt mp st) = 0")
          case z: True
          show ?thesis
          proof (cases "prio_first st")
            case True
            with lt z p eq switch "1.IH"(1) show ?thesis
              by (simp add: opti_loop_switch)
          next
            case False
            with lt z p eq show ?thesis by (simp add: opti_loop_exit)
          qed
        next
          case nz: False
          with lt p eq commit "1.IH"(2) show ?thesis
            by (simp add: opti_loop_commit)
        qed
      qed
    qed
  qed
  with assms(1) show ?thesis by blast
qed

text \<open>A round winner with items is the dry-run evaluation of an eligible pair of stores
  of the matrix, and has at least \<open>minProducts\<close> items.\<close>

lemma round_winner_facts:
  assumes "tota_items_count (round_winner sets mt mp st) \<noteq> 0"
  defines "w \<equiv> round_winner sets mt mp st"
  shows "pair_eligible sets mt st (from_store w) (to_store w)"
    and "from_store w \<in> set (map fst (mystock st))" and "to_store w \<in> set (map fst (mystock st))"
    and "mp \<le> tota_items_count w"
    and "w = snd (do_exchange_items (mystock st) sets (from_store w) (to_store w) False)"
proof -
  have "w \<in> insert zero_transfer (set (filter (\<lambda>t. mp \<le> tota_items_count t) (round_candidates sets mt st)))"
    using fold_reduce_step_greatest [of mp "round_candidates sets mt st" zero_transfer]
    by (simp add: w_def round_winner_def reduce_transfers_def)
  moreover have "w \<noteq> zero_transfer" using assms by (auto simp: zero_transfer_def)
  ultimately have wc: "w \<in> set (round_candidates sets mt st)" and mpw: "mp \<le> tota_items_count w"
    by auto
  from wc obtain s1 s2 where pr: "(s1, s2) \<in> set (round_pairs sets mt st)"
    and ws: "w = snd (do_exchange_items (mystock st) sets s1 s2 False)"
    by (auto simp: round_candidates_def)
  from ws have ft: "from_store w = s1" "to_store w = s2"
    by (simp_all add: do_exchange_items_ends)
  from pr show "pair_eligible sets mt st (from_store w) (to_store w)"
    and "from_store w \<in> set (map fst (mystock st))" and "to_store w \<in> set (map fst (mystock st))"
    by (auto simp: round_pairs_def ft)
  show "mp \<le> tota_items_count w" by (rule mpw)
  from ws ft show "w = snd (do_exchange_items (mystock st) sets (from_store w) (to_store w) False)"
    by simp
qed

text \<open>The fields of the state after a commit.\<close>

lemma commit_transfer_fields:
  fixes sets :: settings and w :: transfer and st :: opti_state
  defines "r \<equiv> do_exchange_items (mystock st) sets (from_store w) (to_store w) True"
  shows "mystock (commit_transfer sets mt w st) = fst r"
    and "transfers (commit_transfer sets mt w st) = transfers st @ [snd r]"
    and "loop_counter (commit_transfer sets mt w st) = loop_counter st + 1"
    and "prio_first (commit_transfer sets mt w st) = prio_first st"
    and "transfer_avail (commit_transfer sets mt w st) s1 s2
           = (transfer_avail st s1 s2 \<and> (s1, s2) \<noteq> (from_store w, to_store w))"
    and "transfer_counter (commit_transfer sets mt w st) s
           = transfer_counter st s + (if s = from_store w then 1 else 0)"
    and "progress_sent (commit_transfer sets mt w st)
           = progress_sent st @ [(loop_counter st + 1) * 100 div (int (length (mystock st)) * mt)]"
  by (auto simp: commit_transfer_def Let_def r_def do_exchange_items_length)

end
