(* ===== verification/Run_Properties.thy ===== *)
theory Run_Properties
  imports Orchestrator
begin

text \<open>
  Invariants of the \<open>RunOpti\<close> loop and the properties of a whole run that follow
  from them.  \<open>inv_stock\<close> relates the private matrix to the input (same stores,
  well-formed, every product's total kept, non-negativity kept); \<open>inv_book\<close> is the
  agreement between the availability and counter matrices and the committed
  transfers; \<open>inv_min\<close> says every committed transfer has at least \<open>minProducts\<close>
  items; \<open>inv_progress\<close> gives the values sent on the progress channel in closed
  form.  Each is preserved by the phase switch and by the commit of a round winner,
  so \<open>opti_loop_inv\<close> carries them to the end of the loop.  Those that need the
  winner to be read whole (no self-transfer, each pair at most once, the outgoing cap,
  the minimum product count) hold for the barrier schedule only, and are lemmas here:
  \<open>Race_Examples\<close> shows runs of the code's synchronisation that break them.
\<close>

definition inv_stock :: "stock_matrix \<Rightarrow> opti_state \<Rightarrow> bool" where
  "inv_stock st0 st \<longleftrightarrow> stock_wf (mystock st) \<and> map fst (mystock st) = map fst st0
     \<and> (\<forall>p. product_total (mystock st) p = product_total st0 p)
     \<and> (stock_nonneg st0 \<longrightarrow> stock_nonneg (mystock st))"

definition inv_book :: "int \<Rightarrow> opti_state \<Rightarrow> bool" where
  "inv_book mt st \<longleftrightarrow> (\<forall>s. \<not> transfer_avail st s s)
     \<and> (\<forall>s. transfer_counter st s = int (length (filter (\<lambda>t. from_store t = s) (transfers st))))
     \<and> (\<forall>s. transfer_counter st s \<le> mt)
     \<and> loop_counter st = int (length (transfers st))
     \<and> (\<forall>t \<in> set (transfers st). from_store t \<noteq> to_store t
                                 \<and> \<not> transfer_avail st (from_store t) (to_store t))
     \<and> distinct (map (\<lambda>t. (from_store t, to_store t)) (transfers st))"

definition inv_min :: "int \<Rightarrow> opti_state \<Rightarrow> bool" where
  "inv_min mp st \<longleftrightarrow> (\<forall>t \<in> set (transfers st). mp \<le> tota_items_count t)"

definition inv_progress :: "int \<Rightarrow> int \<Rightarrow> opti_state \<Rightarrow> bool" where
  "inv_progress n mt st \<longleftrightarrow> int (length (mystock st)) = n \<and> 0 \<le> loop_counter st
     \<and> loop_counter st \<le> n * mt
     \<and> progress_sent st = map (\<lambda>i. i * 100 div (n * mt)) [1..loop_counter st]"

text \<open>None of the invariants reads the phase flag.\<close>

lemma invs_prio_first [simp]:
  "inv_stock st0 (st\<lparr>prio_first := b\<rparr>) = inv_stock st0 st"
  "inv_book mt (st\<lparr>prio_first := b\<rparr>) = inv_book mt st"
  "inv_min mp (st\<lparr>prio_first := b\<rparr>) = inv_min mp st"
  "inv_progress n mt (st\<lparr>prio_first := b\<rparr>) = inv_progress n mt st"
  by (simp_all add: inv_stock_def inv_book_def inv_min_def inv_progress_def)

subsection \<open>The committed pair\<close>

lemma commit_pair:
  assumes book: "inv_book mt st" and nz: "tota_items_count (round_winner sets mt mp st) \<noteq> 0"
  defines "w \<equiv> round_winner sets mt mp st"
  shows "from_store w \<noteq> to_store w" and "transfer_avail st (from_store w) (to_store w)"
    and "transfer_counter st (from_store w) < mt"
proof -
  from round_winner_facts (1) [OF nz]
  show av: "transfer_avail st (from_store w) (to_store w)"
    and "transfer_counter st (from_store w) < mt"
    by (simp_all add: pair_eligible_def w_def)
  from book have "\<not> transfer_avail st s s" for s by (simp add: inv_book_def)
  with av show "from_store w \<noteq> to_store w" by metis
qed

lemma inv_stock_commit:
  assumes "inv_stock st0 st" and "inv_book mt st"
    and nz: "tota_items_count (round_winner sets mt mp st) \<noteq> 0"
  shows "inv_stock st0 (commit_transfer sets mt (round_winner sets mt mp st) st)"
proof -
  let ?w = "round_winner sets mt mp st"
  have ne: "from_store ?w \<noteq> to_store ?w" using commit_pair (1) [OF assms(2) nz] .
  from assms(1) have wf: "stock_wf (mystock st)" by (simp add: inv_stock_def)
  show ?thesis
    using assms(1) ne
    by (simp add: inv_stock_def commit_transfer_fields do_exchange_items_wf [OF wf]
        do_exchange_items_keys do_exchange_items_conserves [OF wf]
        do_exchange_items_nonneg [OF wf])
qed

lemma inv_book_commit:
  assumes book: "inv_book mt st"
    and nz: "tota_items_count (round_winner sets mt mp st) \<noteq> 0"
  shows "inv_book mt (commit_transfer sets mt (round_winner sets mt mp st) st)"
proof -
  let ?w = "round_winner sets mt mp st"
  let ?f = "from_store ?w" and ?t = "to_store ?w"
  let ?tr = "snd (do_exchange_items (mystock st) sets ?f ?t True)"
  note cp = commit_pair [OF book nz]
  have tr: "from_store ?tr = ?f" "to_store ?tr = ?t"
    by (simp_all add: do_exchange_items_ends)
  have old: "(?f, ?t) \<notin> set (map (\<lambda>t. (from_store t, to_store t)) (transfers st))"
    using book cp(2) by (auto simp: inv_book_def)
  show ?thesis
    using book cp tr old
    by (auto simp: inv_book_def commit_transfer_fields)
qed

lemma inv_min_commit:
  assumes "inv_min mp st" and "inv_stock st0 st" and "inv_book mt st"
    and nz: "tota_items_count (round_winner sets mt mp st) \<noteq> 0"
  shows "inv_min mp (commit_transfer sets mt (round_winner sets mt mp st) st)"
proof -
  let ?w = "round_winner sets mt mp st"
  let ?f = "from_store ?w" and ?t = "to_store ?w"
  have ne: "?f \<noteq> ?t" using commit_pair (1) [OF assms(3) nz] .
  from assms(2) have wf: "stock_wf (mystock st)" by (simp add: inv_stock_def)
  have "tota_items_count (snd (do_exchange_items (mystock st) sets ?f ?t True))
        = tota_items_count ?w"
    using do_exchange_items_dry_run [OF wf ne, of sets] round_winner_facts (5) [OF nz]
    by (metis transfer.select_convs(4) transfer.surjective transfer.update_convs(3))
  with round_winner_facts (4) [OF nz] assms(1) show ?thesis
    by (simp add: inv_min_def commit_transfer_fields)
qed

lemma inv_progress_commit:
  assumes "inv_progress n mt st" and lt: "loop_counter st < int (length (mystock st)) * mt"
  shows "inv_progress n mt (commit_transfer sets mt w st)"
proof -
  from assms(1) have n: "int (length (mystock st)) = n" and nn: "0 \<le> loop_counter st"
    and pr: "progress_sent st = map (\<lambda>i. i * 100 div (n * mt)) [1..loop_counter st]"
    by (simp_all add: inv_progress_def)
  have "[1..loop_counter st + 1] = [1..loop_counter st] @ [loop_counter st + 1]"
    using nn upto_rec2 [of 1 "loop_counter st + 1"] by simp
  with n nn pr lt show ?thesis
    by (simp add: inv_progress_def commit_transfer_fields do_exchange_items_length)
qed

subsection \<open>The whole run\<close>

lemma opti_init_invs:
  assumes "0 \<le> mt"
  shows "inv_book mt (opti_init stock sets)"
    and "inv_min mp (opti_init stock sets)"
    and "inv_progress (int (length stock)) mt (opti_init stock sets)"
    and "stock_wf stock \<Longrightarrow> inv_stock stock (opti_init stock sets)"
  using assms
  by (simp_all add: opti_init_def inv_book_def inv_min_def inv_progress_def inv_stock_def
      init_avail_def copy_stock_id Let_def)

lemma effective_max_to_pos: "0 < effective_max_to sets"
  by (simp add: effective_max_to_def)

lemma effective_min_products_pos: "0 < effective_min_products sets"
  by (simp add: effective_min_products_def)

text \<open>The bookkeeping and progress invariants hold for any input; the stock
  invariants need the input matrix to be well-formed, which every Go map is.\<close>

lemma run_book_progress:
  assumes "0 \<le> mt"
  shows "inv_book mt (opti_loop sets mt mp (opti_init stock sets))
       \<and> inv_progress (int (length stock)) mt (opti_loop sets mt mp (opti_init stock sets))"
proof (rule opti_loop_inv)
  show "inv_book mt (opti_init stock sets) \<and> inv_progress (int (length stock)) mt (opti_init stock sets)"
    using opti_init_invs [OF assms] by simp
next
  fix st
  assume "inv_book mt st \<and> inv_progress (int (length stock)) mt st"
  then show "inv_book mt (st\<lparr>prio_first := False\<rparr>) \<and> inv_progress (int (length stock)) mt (st\<lparr>prio_first := False\<rparr>)"
    by simp
next
  fix st
  assume "inv_book mt st \<and> inv_progress (int (length stock)) mt st"
    and "loop_counter st < int (length (mystock st)) * mt"
    and "tota_items_count (round_winner sets mt mp st) \<noteq> 0"
  then show "inv_book mt (commit_transfer sets mt (round_winner sets mt mp st) st)
     \<and> inv_progress (int (length stock)) mt (commit_transfer sets mt (round_winner sets mt mp st) st)"
    by (simp add: inv_book_commit inv_progress_commit)
qed

lemma run_stock_min:
  assumes "stock_wf stock" and "0 \<le> mt"
  shows "inv_stock stock (opti_loop sets mt mp (opti_init stock sets))
       \<and> inv_book mt (opti_loop sets mt mp (opti_init stock sets))
       \<and> inv_min mp (opti_loop sets mt mp (opti_init stock sets))"
proof (rule opti_loop_inv)
  show "inv_stock stock (opti_init stock sets) \<and> inv_book mt (opti_init stock sets)
      \<and> inv_min mp (opti_init stock sets)"
    using opti_init_invs [OF assms(2)] assms(1) by simp
next
  fix st
  assume "inv_stock stock st \<and> inv_book mt st \<and> inv_min mp st"
  then show "inv_stock stock (st\<lparr>prio_first := False\<rparr>) \<and> inv_book mt (st\<lparr>prio_first := False\<rparr>)
      \<and> inv_min mp (st\<lparr>prio_first := False\<rparr>)"
    by simp
next
  fix st
  assume "inv_stock stock st \<and> inv_book mt st \<and> inv_min mp st"
    and "tota_items_count (round_winner sets mt mp st) \<noteq> 0"
  then show "inv_stock stock (commit_transfer sets mt (round_winner sets mt mp st) st)
      \<and> inv_book mt (commit_transfer sets mt (round_winner sets mt mp st) st)
      \<and> inv_min mp (commit_transfer sets mt (round_winner sets mt mp st) st)"
    by (blast intro: inv_stock_commit inv_book_commit inv_min_commit)
qed

lemmas run_opti_unfold = run_opti_def Let_def

lemma run_book:
  "inv_book (effective_max_to sets)
     (opti_loop sets (effective_max_to sets) (effective_min_products sets) (opti_init stock sets))"
  using run_book_progress [of "effective_max_to sets"] effective_max_to_pos [of sets] by simp

lemma run_progress:
  "inv_progress (int (length stock)) (effective_max_to sets)
     (opti_loop sets (effective_max_to sets) (effective_min_products sets) (opti_init stock sets))"
  using run_book_progress [of "effective_max_to sets"] effective_max_to_pos [of sets] by simp

lemma run_stock:
  assumes "stock_wf stock"
  shows "inv_stock stock
     (opti_loop sets (effective_max_to sets) (effective_min_products sets) (opti_init stock sets))"
    and "inv_min (effective_min_products sets)
     (opti_loop sets (effective_max_to sets) (effective_min_products sets) (opti_init stock sets))"
  using run_stock_min [OF assms, of "effective_max_to sets"] effective_max_to_pos [of sets] by simp_all

subsection \<open>Properties of RunOpti\<close>

text \<open>C1: Conservation. For a well-formed input matrix, every product has the same total
  over all stores in the final matrix of \<open>RunOpti\<close> as in the input: transfers move
  stock and never create or destroy it.\<close>

theorem run_opti_conserves:
  assumes "stock_wf stock"
  shows "product_total (after_stock (fst (run_opti stock sets))) p = product_total stock p"
  using run_stock (1) [OF assms, of sets] by (simp add: run_opti_unfold inv_stock_def)

text \<open>C2: Non-negativity. If every on-hand and target quantity of the input is
  non-negative, so is every quantity of the final matrix.\<close>

theorem run_opti_nonneg:
  assumes "stock_wf stock" and "stock_nonneg stock"
  shows "stock_nonneg (after_stock (fst (run_opti stock sets)))"
  using run_stock (1) [OF assms(1), of sets] assms(2) by (simp add: run_opti_unfold inv_stock_def)

text \<open>Of the barrier schedule only (the code's torn reads break all three, see
  \<open>Race\<close> and \<open>Race_Examples\<close>): no committed transfer goes from a store to itself,
  no ordered pair of stores is committed twice, every store sources at most
  \<open>maxTo\<close> transfers, and every transfer moves at least \<open>minProducts\<close> items.\<close>

lemma run_opti_distinct_pairs:
  "distinct (map (\<lambda>t. (from_store t, to_store t)) (opti_transfers (fst (run_opti stock sets))))
   \<and> (\<forall>t \<in> set (opti_transfers (fst (run_opti stock sets))). from_store t \<noteq> to_store t)"
  using run_book [of sets stock] by (simp add: run_opti_unfold inv_book_def)

lemma run_opti_outgoing_cap:
  "int (length (filter (\<lambda>t. from_store t = s) (opti_transfers (fst (run_opti stock sets)))))
     \<le> effective_max_to sets"
  using run_book [of sets stock] by (simp add: run_opti_unfold inv_book_def) (metis)

text \<open>C4: Termination bound. \<open>RunOpti\<close> commits at most
  \<open>len(stock) * maxTo\<close> transfers.\<close>

theorem run_opti_transfer_bound:
  "int (length (opti_transfers (fst (run_opti stock sets)))) \<le> int (length stock) * effective_max_to sets"
  using run_book [of sets stock] run_progress [of stock sets]
  by (simp add: run_opti_unfold inv_book_def inv_progress_def)

lemma run_opti_min_products:
  assumes "stock_wf stock"
  shows "\<forall>t \<in> set (opti_transfers (fst (run_opti stock sets))). effective_min_products sets \<le> tota_items_count t"
  using run_stock (2) [OF assms, of sets] by (simp add: run_opti_unfold inv_min_def)

lemma progress_values:
  assumes "0 \<le> k" and "k \<le> d"
  shows "sorted (map (\<lambda>i. i * 100 div d) [1..k])
       \<and> (\<forall>x \<in> set (map (\<lambda>i. i * 100 div d) [1..k]). 0 \<le> x \<and> x \<le> (100::int))"
proof (cases "1 \<le> k")
  case False
  then show ?thesis by simp
next
  case True
  with assms have d: "0 < d" by simp
  have mono: "i * 100 div d \<le> j * 100 div d" if "i \<le> j" for i j :: int
    using that d by (simp add: zdiv_mono1)
  have "sorted (map (\<lambda>i. i * 100 div d) [1..k])"
    using sorted_upto [of 1 k] by (rule sorted_map_mono) (auto simp: mono_on_def mono)
  moreover have "0 \<le> i * 100 div d \<and> i * 100 div d \<le> 100" if "1 \<le> i" and "i \<le> k" for i
  proof -
    have "i * 100 div d \<le> d * 100 div d"
      using zdiv_mono1 [of "i * 100" "d * 100" d] that assms d by simp
    moreover have "0 \<le> i * 100 div d" using that d by (simp add: pos_imp_zdiv_nonneg_iff)
    ultimately show ?thesis using d by (simp split: if_splits)
  qed
  ultimately show ?thesis by auto
qed

text \<open>C11: Progress. The values \<open>RunOpti\<close> sends on its progress channel are
  non-decreasing and lie between 0 and 100.\<close>

theorem run_opti_progress:
  "sorted (snd (run_opti stock sets))
   \<and> (\<forall>x \<in> set (snd (run_opti stock sets)). 0 \<le> x \<and> x \<le> 100)"
  using run_progress [of stock sets]
    progress_values [of "loop_counter (opti_loop sets (effective_max_to sets) (effective_min_products sets)
       (opti_init stock sets))" "int (length stock) * effective_max_to sets"]
  by (simp add: run_opti_unfold inv_progress_def)

end
