(* ===== verification/Phase.thy ===== *)
theory Phase
  imports Run_Properties
begin

text \<open>
  The two-phase priority state machine of \<open>RunOpti\<close> (\<open>src/opti/opti.go\<close>,
  lines 53--55, 87 and 116--126).  While \<open>prioriFirst\<close> holds only pairs passing the
  priority filter \<open>prio_pair\<close> (the source is a destock store or the destination a
  secure store) are evaluated; the first round without a winner switches to the
  normal phase for good.  The invariant \<open>inv_phase\<close> says that the committed
  transfers are a block of priority transfers followed, once the phase has switched,
  by a block of other transfers, and that in the normal phase no still-open priority
  pair can reach \<open>minProducts\<close> items (\<open>prio_exhausted\<close>).  The latter survives a
  commit because a commit never enlarges what a pair can move
  (\<open>Exchange.dry_run_total_mono\<close>).  This is the barrier schedule; under the
  code's synchronisation the order breaks (\<open>Race_Examples.racy_run_priority_mixed\<close>).
\<close>

text \<open>The priority filter of line 87.\<close>

definition prio_pair :: "settings \<Rightarrow> string \<Rightarrow> string \<Rightarrow> bool" where
  "prio_pair sets store1 store2 \<longleftrightarrow>
     string_in_slice store1 (de_stock_in sets) \<or> string_in_slice store2 (secure_stock_in sets)"

definition prio_exhausted :: "settings \<Rightarrow> int \<Rightarrow> int \<Rightarrow> opti_state \<Rightarrow> bool" where
  "prio_exhausted sets mt mp st \<longleftrightarrow>
     (\<forall>a b. prio_pair sets a b \<and> transfer_avail st a b \<and> transfer_counter st a < mt
        \<longrightarrow> tota_items_count (snd (do_exchange_items (mystock st) sets a b False)) < mp)"

definition avail_keys :: "opti_state \<Rightarrow> bool" where
  "avail_keys st \<longleftrightarrow>
     (\<forall>a b. transfer_avail st a b \<longrightarrow> a \<in> set (map fst (mystock st)) \<and> b \<in> set (map fst (mystock st)))"

definition inv_phase :: "settings \<Rightarrow> int \<Rightarrow> int \<Rightarrow> opti_state \<Rightarrow> bool" where
  "inv_phase sets mt mp st \<longleftrightarrow> avail_keys st \<and>
     (if prio_first st then list_all (\<lambda>t. prio_pair sets (from_store t) (to_store t)) (transfers st)
      else prio_exhausted sets mt mp st
        \<and> (\<exists>as bs. transfers st = as @ bs
             \<and> list_all (\<lambda>t. prio_pair sets (from_store t) (to_store t)) as
             \<and> list_all (\<lambda>t. \<not> prio_pair sets (from_store t) (to_store t)) bs))"

lemma pair_eligible_prio:
  "pair_eligible sets mt st a b \<longleftrightarrow>
     transfer_avail st a b \<and> transfer_counter st a < mt \<and> (prio_first st \<longrightarrow> prio_pair sets a b)"
  by (auto simp: pair_eligible_def prio_pair_def)

lemma no_lists_no_prio_pair:
  "\<not> (length (secure_stock_in sets) > 0 \<or> length (de_stock_in sets) > 0) \<Longrightarrow> \<not> prio_pair sets a b"
  by (simp add: prio_pair_def)

lemma round_candidates_osa_nonneg:
  "\<forall>t \<in> set (round_candidates sets mt st). 0 \<le> osa_improuve t"
  by (auto simp: round_candidates_def do_exchange_items_osa_nonneg)

text \<open>An eligible pair of stores of the matrix is evaluated in the round.\<close>

lemma eligible_candidate:
  assumes "a \<in> set (map fst (mystock st))" and "b \<in> set (map fst (mystock st))"
    and "pair_eligible sets mt st a b"
  shows "snd (do_exchange_items (mystock st) sets a b False) \<in> set (round_candidates sets mt st)"
  using assms by (force simp: round_candidates_def round_pairs_def)

lemma avail_keys_commit:
  "avail_keys st \<Longrightarrow> avail_keys (commit_transfer sets mt w st)"
  by (simp add: avail_keys_def commit_transfer_fields do_exchange_items_keys) blast

text \<open>The phase switches only when no open priority pair can reach \<open>minProducts\<close>:
  such a pair would be a candidate of the round and would win it.\<close>

lemma prio_exhausted_switch:
  assumes "avail_keys st" and "prio_first st" and "0 < mp"
    and z: "tota_items_count (round_winner sets mt mp st) = 0"
  shows "prio_exhausted sets mt mp (st\<lparr>prio_first := False\<rparr>)"
proof -
  have "tota_items_count (snd (do_exchange_items (mystock st) sets a b False)) < mp"
    if p: "prio_pair sets a b \<and> transfer_avail st a b \<and> transfer_counter st a < mt" for a b
  proof (rule ccontr)
    let ?c = "snd (do_exchange_items (mystock st) sets a b False)"
    assume "\<not> tota_items_count ?c < mp"
    moreover have "?c \<in> set (round_candidates sets mt st)"
      using p assms(1,2) by (intro eligible_candidate) (auto simp: avail_keys_def pair_eligible_prio)
    ultimately have "mp \<le> tota_items_count (round_winner sets mt mp st)"
      using reduce_transfers_admitted [OF assms(3) round_candidates_osa_nonneg]
      by (simp add: round_winner_def)
    with z assms(3) show False by simp
  qed
  then show ?thesis by (simp add: prio_exhausted_def)
qed

text \<open>A commit keeps the normal phase's exhaustion: it closes pairs, raises counters,
  and never lets a pair move more than before.\<close>

lemma prio_exhausted_commit:
  assumes "prio_exhausted sets mt mp st" and "stock_wf (mystock st)"
    and "from_store w \<noteq> to_store w" and "\<forall>s. \<not> transfer_avail st s s"
  shows "prio_exhausted sets mt mp (commit_transfer sets mt w st)"
  unfolding prio_exhausted_def
proof (intro allI impI)
  fix a b
  assume p: "prio_pair sets a b \<and> transfer_avail (commit_transfer sets mt w st) a b
    \<and> transfer_counter (commit_transfer sets mt w st) a < mt"
  then have av: "transfer_avail st a b" and c: "transfer_counter st a < mt"
    by (auto simp: commit_transfer_fields split: if_splits)
  with assms(4) have ab: "a \<noteq> b" by metis
  have "tota_items_count (snd (do_exchange_items (mystock st) sets a b False)) < mp"
    using assms(1) p av c by (simp add: prio_exhausted_def)
  then show "tota_items_count (snd (do_exchange_items (mystock (commit_transfer sets mt w st)) sets a b False)) < mp"
    using dry_run_total_mono [OF assms(2,3) ab, of sets]
    by (simp add: commit_transfer_fields)
qed

subsection \<open>The phase invariant along the loop\<close>

lemma prio_blocks_all:
  "list_all P xs \<Longrightarrow> \<exists>as bs. xs = as @ bs \<and> list_all P as \<and> list_all (\<lambda>t. \<not> P t) bs"
  by (intro exI [of _ xs] exI [of _ "[]"]) simp

lemma inv_phase_init:
  "inv_phase sets mt mp (opti_init stock sets)"
proof (cases "length (secure_stock_in sets) > 0 \<or> length (de_stock_in sets) > 0")
  case True
  then show ?thesis
    by (simp add: inv_phase_def opti_init_def Let_def avail_keys_def init_avail_def copy_stock_id)
next
  case False
  then show ?thesis
    by (simp add: inv_phase_def opti_init_def Let_def avail_keys_def init_avail_def copy_stock_id
        prio_exhausted_def no_lists_no_prio_pair)
qed

lemma inv_phase_switch:
  assumes "inv_phase sets mt mp st" and "prio_first st" and "0 < mp"
    and "tota_items_count (round_winner sets mt mp st) = 0"
  shows "inv_phase sets mt mp (st\<lparr>prio_first := False\<rparr>)"
proof -
  from assms(1,2) have k: "avail_keys st"
    and a: "list_all (\<lambda>t. prio_pair sets (from_store t) (to_store t)) (transfers st)"
    by (simp_all add: inv_phase_def)
  have "prio_exhausted sets mt mp (st\<lparr>prio_first := False\<rparr>)"
    using k assms(2,3,4) by (rule prio_exhausted_switch)
  moreover have "avail_keys (st\<lparr>prio_first := False\<rparr>)" using k by (simp add: avail_keys_def)
  ultimately show ?thesis using a by (simp add: inv_phase_def prio_blocks_all)
qed

text \<open>The committed transfer is for the winner's pair; in the priority phase that
  pair passes the filter, in the normal phase it does not, since an open priority pair
  no longer reaches \<open>minProducts\<close> items while the winner does.\<close>

lemma winner_phase:
  assumes "inv_phase sets mt mp st" and nz: "tota_items_count (round_winner sets mt mp st) \<noteq> 0"
  defines "w \<equiv> round_winner sets mt mp st"
  shows "prio_pair sets (from_store w) (to_store w) \<longleftrightarrow> prio_first st"
proof (cases "prio_first st")
  case True
  with round_winner_facts (1) [OF nz] show ?thesis
    by (simp add: pair_eligible_prio w_def)
next
  case False
  with assms(1) have ex: "prio_exhausted sets mt mp st" by (simp add: inv_phase_def)
  from round_winner_facts (1) [OF nz] have av: "transfer_avail st (from_store w) (to_store w)"
    and c: "transfer_counter st (from_store w) < mt"
    by (simp_all add: pair_eligible_prio w_def)
  have e: "snd (do_exchange_items (mystock st) sets (from_store w) (to_store w) False) = w"
    using round_winner_facts (5) [OF nz] by (simp add: w_def)
  have "\<not> prio_pair sets (from_store w) (to_store w)"
  proof
    assume "prio_pair sets (from_store w) (to_store w)"
    with ex av c have "tota_items_count (snd (do_exchange_items (mystock st) sets
        (from_store w) (to_store w) False)) < mp"
      unfolding prio_exhausted_def by blast
    then have "tota_items_count w < mp" by (simp only: e)
    with round_winner_facts (4) [OF nz] show False by (simp add: w_def)
  qed
  with False show ?thesis by simp
qed

lemma inv_phase_commit:
  assumes ph: "inv_phase sets mt mp st" and sk: "inv_stock st0 st" and bk: "inv_book mt st"
    and nz: "tota_items_count (round_winner sets mt mp st) \<noteq> 0"
  shows "inv_phase sets mt mp (commit_transfer sets mt (round_winner sets mt mp st) st)"
proof -
  let ?w = "round_winner sets mt mp st"
  let ?st' = "commit_transfer sets mt ?w st"
  let ?tr = "snd (do_exchange_items (mystock st) sets (from_store ?w) (to_store ?w) True)"
  have tr: "transfers ?st' = transfers st @ [?tr]" and pf: "prio_first ?st' = prio_first st"
    by (simp_all add: commit_transfer_fields)
  have p: "prio_pair sets (from_store ?tr) (to_store ?tr) \<longleftrightarrow> prio_first st"
    using winner_phase [OF ph nz] by (simp add: do_exchange_items_ends)
  have k: "avail_keys ?st'" using ph by (simp add: inv_phase_def avail_keys_commit)
  show ?thesis
  proof (cases "prio_first st")
    case True
    with ph p k show ?thesis by (simp add: inv_phase_def tr pf)
  next
    case False
    from ph False obtain as bs where ex: "prio_exhausted sets mt mp st"
      and split: "transfers st = as @ bs"
      and a: "list_all (\<lambda>t. prio_pair sets (from_store t) (to_store t)) as"
      and b: "list_all (\<lambda>t. \<not> prio_pair sets (from_store t) (to_store t)) bs"
      by (auto simp: inv_phase_def)
    have "prio_exhausted sets mt mp ?st'"
      using ex sk commit_pair (1) [OF bk nz] bk
      by (intro prio_exhausted_commit) (auto simp: inv_stock_def inv_book_def)
    moreover have "\<exists>as bs. transfers ?st' = as @ bs
        \<and> list_all (\<lambda>t. prio_pair sets (from_store t) (to_store t)) as
        \<and> list_all (\<lambda>t. \<not> prio_pair sets (from_store t) (to_store t)) bs"
      using tr split a b p False by (intro exI [of _ as] exI [of _ "bs @ [?tr]"]) simp
    ultimately show ?thesis
      using False k pf by (simp add: inv_phase_def)
  qed
qed

lemma run_phase:
  assumes "stock_wf stock" and "0 \<le> mt" and "0 < mp"
  shows "inv_stock stock (opti_loop sets mt mp (opti_init stock sets))
       \<and> inv_book mt (opti_loop sets mt mp (opti_init stock sets))
       \<and> inv_phase sets mt mp (opti_loop sets mt mp (opti_init stock sets))"
proof (rule opti_loop_inv)
  show "inv_stock stock (opti_init stock sets) \<and> inv_book mt (opti_init stock sets)
      \<and> inv_phase sets mt mp (opti_init stock sets)"
    using opti_init_invs [OF assms(2)] assms(1) inv_phase_init by simp
next
  fix st
  assume "inv_stock stock st \<and> inv_book mt st \<and> inv_phase sets mt mp st"
    and "loop_counter st < int (length (mystock st)) * mt"
    and "tota_items_count (round_winner sets mt mp st) = 0" and "prio_first st"
  with assms(3) show "inv_stock stock (st\<lparr>prio_first := False\<rparr>) \<and> inv_book mt (st\<lparr>prio_first := False\<rparr>)
      \<and> inv_phase sets mt mp (st\<lparr>prio_first := False\<rparr>)"
    by (simp add: inv_phase_switch)
next
  fix st
  assume "inv_stock stock st \<and> inv_book mt st \<and> inv_phase sets mt mp st"
    and "tota_items_count (round_winner sets mt mp st) \<noteq> 0"
  then show "inv_stock stock (commit_transfer sets mt (round_winner sets mt mp st) st)
      \<and> inv_book mt (commit_transfer sets mt (round_winner sets mt mp st) st)
      \<and> inv_phase sets mt mp (commit_transfer sets mt (round_winner sets mt mp st) st)"
    by (blast intro: inv_stock_commit inv_book_commit inv_phase_commit)
qed

subsection \<open>Phase behaviour of RunOpti\<close>

text \<open>Priority first, under the barrier schedule: for a well-formed input the
  transfers \<open>opti_loop\<close> commits are a block of transfers passing the priority filter
  followed by a block of transfers that do not pass it.  The code's torn reads break
  it (\<open>Race_Examples.racy_run_priority_mixed\<close>).\<close>

lemma run_opti_priority_first:
  assumes "stock_wf stock"
  shows "\<exists>as bs. opti_transfers (fst (run_opti stock sets)) = as @ bs
     \<and> list_all (\<lambda>t. prio_pair sets (from_store t) (to_store t)) as
     \<and> list_all (\<lambda>t. \<not> prio_pair sets (from_store t) (to_store t)) bs"
proof -
  let ?st = "opti_loop sets (effective_max_to sets) (effective_min_products sets) (opti_init stock sets)"
  have "inv_phase sets (effective_max_to sets) (effective_min_products sets) ?st"
    using run_phase [OF assms, of "effective_max_to sets" "effective_min_products sets" sets]
      effective_max_to_pos [of sets] effective_min_products_pos [of sets] by simp
  then show ?thesis
    by (cases "prio_first ?st")
      (auto simp: inv_phase_def run_opti_unfold intro: prio_blocks_all)
qed

end
