(* ===== verification/Race.thy ===== *)
theory Race
  imports Run_Properties
begin

text \<open>
  The synchronisation \<open>RunOpti\<close> really has (\<open>src/opti/opti.go\<close>, lines 79--138),
  as a nondeterministic step relation.  The goroutines of a round send their
  evaluations on the unbuffered channel \<open>transfersList\<close> in any order; a send completes
  only when the reducer goroutine has received the value, and \<open>wg.Done()\<close> is deferred
  after the send, so when \<open>wg.Wait()\<close> returns the reducer has received every
  candidate and has finished with all but the last.  Its update of
  \<open>optimalTransferFound\<close> for the last candidate is not ordered with the reads of the
  main goroutine (the \<open>time.Sleep\<close> of line 110 orders nothing): each read sees the
  value before that update (\<open>reduce_transfers\<close> over all but the last candidate) or
  after it, and once a read sees the update every later read does.  The main goroutine
  reads the variable six times: the item count (line 115), the pair at line 128, the
  source at line 129 and the pair at line 132.  \<open>racy_read\<close> gives the value of read
  \<open>i\<close> when the update lands before read \<open>k\<close>; the write itself is taken as atomic,
  which only removes behaviours.

  \<open>racy_step\<close> is one round of the loop under this semantics.  The deterministic
  \<open>opti_loop\<close> of \<open>Orchestrator\<close> is the schedule in which the update lands before
  every read (\<open>racy_run_barrier\<close>).  Every schedule terminates, and every schedule
  keeps the stock invariants; but some schedules commit a transfer from a store to
  itself with no items, and some end the package test's run without any transfer.
  \<open>opti_result\<close> builds the \<open>Optimisation\<close> a final configuration returns.
\<close>

datatype run_conf = Running opti_state | Finished opti_state

fun conf_state :: "run_conf \<Rightarrow> opti_state" where
  "conf_state (Running st) = st"
| "conf_state (Finished st) = st"

text \<open>Read \<open>i\<close> of \<open>optimalTransferFound\<close> when the candidates arrive in the order
  \<open>ts\<close> and the reducer's last update lands just before read \<open>k\<close>.\<close>

definition racy_read :: "int \<Rightarrow> transfer list \<Rightarrow> nat \<Rightarrow> nat \<Rightarrow> transfer" where
  "racy_read min_prods ts k i =
    (if i < k then reduce_transfers min_prods (butlast ts) else reduce_transfers min_prods ts)"

text \<open>Lines 128--138 with each read of \<open>optimalTransferFound\<close> done separately.\<close>

definition racy_commit :: "settings \<Rightarrow> int \<Rightarrow> int \<Rightarrow> transfer list \<Rightarrow> nat \<Rightarrow> opti_state \<Rightarrow> opti_state" where
  "racy_commit sets max_to' min_prods ts k st =
    (let rd = racy_read min_prods ts k;
         f1 = from_store (rd 1); t1 = to_store (rd 2);
         f2 = from_store (rd 3);
         f3 = from_store (rd 4); t3 = to_store (rd 5);
         avail' = (transfer_avail st)(f1 := (transfer_avail st f1)(t1 := False));
         counter' = (transfer_counter st)(f2 := transfer_counter st f2 + 1);
         r = do_exchange_items (mystock st) sets f3 t3 True;
         lc = loop_counter st + 1
     in st\<lparr>transfer_avail := avail', transfer_counter := counter', mystock := fst r,
           transfers := transfers st @ [snd r], loop_counter := lc,
           progress_sent := progress_sent st @ [lc * 100 div (int (length (fst r)) * max_to')]\<rparr>)"

text \<open>One iteration of the loop of lines 69--139: the loop bound, or a round whose
  candidates arrive in the order \<open>ts\<close> (any permutation of the eligible pairs'
  evaluations) and whose reads are split at \<open>k\<close>.\<close>

inductive racy_step :: "settings \<Rightarrow> int \<Rightarrow> int \<Rightarrow> run_conf \<Rightarrow> run_conf \<Rightarrow> bool"
  for sets :: settings and mt :: int and mp :: int where
  racy_bound: "\<not> loop_counter st < int (length (mystock st)) * mt \<Longrightarrow>
    racy_step sets mt mp (Running st) (Finished st)"
| racy_switch: "loop_counter st < int (length (mystock st)) * mt \<Longrightarrow>
    mset ts = mset (round_candidates sets mt st) \<Longrightarrow>
    tota_items_count (racy_read mp ts k 0) = 0 \<Longrightarrow> prio_first st \<Longrightarrow>
    racy_step sets mt mp (Running st) (Running (st\<lparr>prio_first := False\<rparr>))"
| racy_exit: "loop_counter st < int (length (mystock st)) * mt \<Longrightarrow>
    mset ts = mset (round_candidates sets mt st) \<Longrightarrow>
    tota_items_count (racy_read mp ts k 0) = 0 \<Longrightarrow> \<not> prio_first st \<Longrightarrow>
    racy_step sets mt mp (Running st) (Finished st)"
| racy_commit_step: "loop_counter st < int (length (mystock st)) * mt \<Longrightarrow>
    mset ts = mset (round_candidates sets mt st) \<Longrightarrow>
    tota_items_count (racy_read mp ts k 0) \<noteq> 0 \<Longrightarrow>
    racy_step sets mt mp (Running st) (Running (racy_commit sets mt mp ts k st))"

inductive_cases racy_step_FinishedE: "racy_step sets mt mp (Finished st) c"
inductive_cases racy_step_RunningE: "racy_step sets mt mp (Running st) c"

text \<open>The configurations \<open>RunOpti(stock, settings)\<close> can reach under some schedule.\<close>

definition racy_run :: "stock_matrix \<Rightarrow> settings \<Rightarrow> run_conf \<Rightarrow> bool" where
  "racy_run stock sets c \<longleftrightarrow>
     (racy_step sets (effective_max_to sets) (effective_min_products sets))\<^sup>*\<^sup>*
       (Running (opti_init stock sets)) c"

text \<open>The \<open>Optimisation\<close> \<open>RunOpti\<close> returns from the configuration its loop
  ended in (lines 143--149).\<close>

definition opti_result :: "stock_matrix \<Rightarrow> settings \<Rightarrow> opti_state \<Rightarrow> optimisation" where
  "opti_result stock sets st =
    \<lparr>in_stock = stock, after_stock = mystock st, opti_transfers = transfers st,
     opti_settings = sets, osa_increase = compute_osa stock (mystock st)\<rparr>"

text \<open>A two-store stock on which both directions have an admitted candidate: Paris
  can give a Gem that Bucharest lacks, Bucharest can give Apples Paris lacks.\<close>

definition race_stock :: stock_matrix where
  "race_stock =
    [(''Paris'', [(''Apples'', \<lparr>has = 7, needs = 9\<rparr>), (''Gems'', \<lparr>has = 2, needs = 0\<rparr>)]),
     (''Bucharest'', [(''Apples'', \<lparr>has = 17, needs = 3\<rparr>), (''Gems'', \<lparr>has = 0, needs = 1\<rparr>)])]"

text \<open>The measure of the loop's \<open>termination\<close> proof, extended to configurations.\<close>

fun conf_measure :: "int \<Rightarrow> run_conf \<Rightarrow> nat" where
  "conf_measure mt (Running st) =
     nat (2 * (int (length (mystock st)) * mt - loop_counter st)) + (if prio_first st then 1 else 0) + 1"
| "conf_measure mt (Finished st) = 0"

subsection \<open>The barrier schedule\<close>

lemma racy_read_fresh: "racy_read mp ts 0 i = reduce_transfers mp ts"
  by (simp add: racy_read_def)

lemma racy_commit_fresh:
  "racy_commit sets mt mp (round_candidates sets mt st) 0 st
     = commit_transfer sets mt (round_winner sets mt mp st) st"
  by (simp add: racy_commit_def commit_transfer_def racy_read_fresh round_winner_def Let_def)

lemma racy_steps_opti_loop:
  "(racy_step sets mt mp)\<^sup>*\<^sup>* (Running st) (Finished (opti_loop sets mt mp st))"
proof (induction sets mt mp st rule: opti_loop.induct)
  case (1 sets mt mp st)
  let ?cs = "round_candidates sets mt st"
  have w: "racy_read mp ?cs 0 0 = round_winner sets mt mp st"
    by (simp add: racy_read_fresh round_winner_def)
  show ?case
  proof (cases "loop_counter st < int (length (mystock st)) * mt")
    case False
    then show ?thesis by (simp add: opti_loop_stop racy_bound r_into_rtranclp)
  next
    case lt: True
    show ?thesis
    proof (cases "tota_items_count (round_winner sets mt mp st) = 0")
      case z: True
      show ?thesis
      proof (cases "prio_first st")
        case True
        have "racy_step sets mt mp (Running st) (Running (st\<lparr>prio_first := False\<rparr>))"
          using lt z True w by (intro racy_switch [where ts = ?cs and k = 0]) simp_all
        with "1.IH"(1) [OF lt _ z True] lt z True show ?thesis
          by (simp add: opti_loop_switch Let_def)
      next
        case False
        have "racy_step sets mt mp (Running st) (Finished st)"
          using lt z False w by (intro racy_exit [where ts = ?cs and k = 0]) simp_all
        with lt z False show ?thesis by (simp add: opti_loop_exit r_into_rtranclp)
      qed
    next
      case nz: False
      have "racy_step sets mt mp (Running st) (Running (racy_commit sets mt mp ?cs 0 st))"
        using lt nz w by (intro racy_commit_step) simp_all
      then have "racy_step sets mt mp (Running st)
          (Running (commit_transfer sets mt (round_winner sets mt mp st) st))"
        by (simp only: racy_commit_fresh)
      with "1.IH"(2) [OF lt _ nz] lt nz show ?thesis
        by (simp add: opti_loop_commit Let_def)
    qed
  qed
qed

text \<open>The barrier schedule: the result the design intends, where the reducer has
  processed every candidate before the winner is read (\<open>opti_loop\<close>, from which
  \<open>run_opti\<close> is taken), is a run of the code under its actual synchronisation.\<close>

lemma racy_run_barrier:
  "racy_run stock sets
     (Finished (opti_loop sets (effective_max_to sets) (effective_min_products sets) (opti_init stock sets)))"
  unfolding racy_run_def by (rule racy_steps_opti_loop)

lemma run_opti_result:
  "run_opti stock sets
     = (opti_result stock sets (opti_loop sets (effective_max_to sets) (effective_min_products sets) (opti_init stock sets)),
        progress_sent (opti_loop sets (effective_max_to sets) (effective_min_products sets) (opti_init stock sets)))"
  by (simp add: run_opti_def opti_result_def Let_def)

subsection \<open>Every schedule ends\<close>

lemma racy_step_measure:
  "racy_step sets mt mp c c' \<Longrightarrow> conf_measure mt c' < conf_measure mt c"
  by (induction rule: racy_step.induct) (auto simp: racy_commit_def Let_def do_exchange_items_length)

text \<open>C14: Termination under every schedule. Whatever the order in which the
  candidates arrive and wherever the reducer's last update falls among the reads, the
  loop of \<open>RunOpti\<close> has no infinite run: its step relation is well-founded.\<close>

theorem racy_step_wf: "wf {(c', c). racy_step sets mt mp c c'}"
  by (rule wf_subset [OF wf_measure [of "conf_measure mt"]]) (auto dest: racy_step_measure)

subsection \<open>The stock under every schedule\<close>

lemma inv_stock_exchange:
  assumes "inv_stock st0 st" and "mystock st' = fst (do_exchange_items (mystock st) sets a b alter)"
  shows "inv_stock st0 st'"
proof (cases "a = b")
  case True
  with assms show ?thesis
    by (simp add: inv_stock_def do_exchange_items_same_store)
next
  case False
  from assms(1) have wf: "stock_wf (mystock st)" by (simp add: inv_stock_def)
  with assms False show ?thesis
    by (simp add: inv_stock_def do_exchange_items_wf do_exchange_items_keys
        do_exchange_items_conserves do_exchange_items_nonneg)
qed

lemma racy_step_inv_stock:
  "racy_step sets mt mp c c' \<Longrightarrow> inv_stock st0 (conf_state c) \<Longrightarrow> inv_stock st0 (conf_state c')"
proof (induction rule: racy_step.induct)
  case (racy_commit_step st ts k)
  then show ?case
    by (auto intro: inv_stock_exchange simp: racy_commit_def Let_def)
qed (simp_all add: inv_stock_def)

lemma racy_run_inv_stock:
  assumes "stock_wf stock" and "racy_run stock sets c"
  shows "inv_stock stock (conf_state c)"
  using assms(2) unfolding racy_run_def
proof (induction rule: rtranclp_induct)
  case base
  then show ?case using opti_init_invs (4) [OF order.refl assms(1)] by simp
next
  case (step c c')
  from step.hyps(2) step.IH show ?case by (rule racy_step_inv_stock)
qed

text \<open>C15: Stock safety under every schedule. For a well-formed input, every
  configuration \<open>RunOpti\<close> reaches under any schedule keeps every product's total,
  and keeps every quantity non-negative when the input's are: a torn read can commit
  the wrong pair, but every commit is an evaluation of \<open>doExchangeItems\<close>, which only
  moves stock.\<close>

theorem racy_run_stock_safe:
  assumes "stock_wf stock" and "racy_run stock sets c"
  shows "product_total (mystock (conf_state c)) p = product_total stock p
       \<and> (stock_nonneg stock \<longrightarrow> stock_nonneg (mystock (conf_state c)))"
  using racy_run_inv_stock [OF assms] by (simp add: inv_stock_def)

subsection \<open>A schedule that commits a store to itself\<close>

text \<open>On \<open>race_stock\<close> with the package test's settings both directions are admitted;
  Paris to Bucharest wins (it fills an empty shelf).  When Bucharest to Paris arrives
  first and the update for Paris to Bucharest lands between the reads of line 132, the
  source is read before the update and the destination after it.\<close>

definition race_pb :: transfer where
  "race_pb = \<lparr>from_store = ''Paris'', to_store = ''Bucharest'', products = [],
     tota_items_count = 1, osa_improuve = 1\<rparr>"

definition race_bp :: transfer where
  "race_bp = \<lparr>from_store = ''Bucharest'', to_store = ''Paris'', products = [],
     tota_items_count = 2, osa_improuve = 0\<rparr>"

lemma race_stock_wf: "stock_wf race_stock"
  by (simp add: stock_wf_def race_stock_def)

lemma race_init:
  "opti_init race_stock test_settings
     = \<lparr>mystock = race_stock, prio_first = False, transfer_avail = init_avail (map fst race_stock),
        transfer_counter = (\<lambda>_. 0), loop_counter = 0, transfers = [], progress_sent = []\<rparr>"
  by (simp add: opti_init_def copy_stock_id test_settings_def)

lemma race_candidates:
  "round_candidates test_settings 1 (opti_init race_stock test_settings) = [race_pb, race_bp]"
proof -
  have "round_pairs test_settings 1 (opti_init race_stock test_settings)
        = [(''Paris'', ''Bucharest''), (''Bucharest'', ''Paris'')]"
    unfolding race_init by (simp add: round_pairs_def race_stock_def pair_eligible_def init_avail_def
        test_settings_def)
  then show ?thesis
    by (simp add: round_candidates_def race_init)
       (simp add: race_stock_def do_exchange_items_def exchange_product_def item_of_def store_of_def
        opti_min_def Let_def zero_item_def race_pb_def race_bp_def)
qed

lemma race_reads:
  "racy_read 1 [race_bp, race_pb] 5 i = (if i < 5 then race_bp else race_pb)"
  by (simp add: racy_read_def reduce_transfers_def reduce_step_def determine_best_transfer_def
      transfer_score_def best_order_def zero_transfer_def transfer_key_def race_pb_def race_bp_def)

lemma race_bad_run:
  "racy_run race_stock test_settings
     (Running (racy_commit test_settings 1 1 [race_bp, race_pb] 5 (opti_init race_stock test_settings)))"
proof -
  have eff: "effective_max_to test_settings = 1" "effective_min_products test_settings = 1"
    by (simp_all add: effective_max_to_def effective_min_products_def test_settings_def)
  have "racy_step test_settings 1 1 (Running (opti_init race_stock test_settings))
      (Running (racy_commit test_settings 1 1 [race_bp, race_pb] 5 (opti_init race_stock test_settings)))"
  proof (rule racy_commit_step)
    show "loop_counter (opti_init race_stock test_settings)
        < int (length (mystock (opti_init race_stock test_settings))) * 1"
      unfolding race_init by (simp add: race_stock_def)
    show "mset [race_bp, race_pb] = mset (round_candidates test_settings 1 (opti_init race_stock test_settings))"
      by (simp add: race_candidates)
    show "tota_items_count (racy_read 1 [race_bp, race_pb] 5 0) \<noteq> 0"
      unfolding race_reads by (simp add: race_bp_def)
  qed
  then show ?thesis by (simp add: racy_run_def eff)
qed

lemma race_bad_transfers:
  "transfers (racy_commit test_settings 1 1 [race_bp, race_pb] 5 (opti_init race_stock test_settings))
     = [\<lparr>from_store = ''Bucharest'', to_store = ''Bucharest'', products = [], tota_items_count = 0,
         osa_improuve = 0\<rparr>]"
  unfolding racy_commit_def Let_def race_reads
  by (simp add: race_init race_bp_def race_pb_def do_exchange_items_same_store race_stock_wf)

text \<open>C16: A torn read commits a store to itself. Under the code's synchronisation
  \<open>RunOpti\<close> on \<open>race_stock\<close> with \<open>MaxTo = 1\<close>, \<open>MinProducts = 1\<close> can commit, as its
  first transfer, Bucharest to Bucharest with no items: what the barrier schedule
  excludes (\<open>Run_Properties.run_opti_distinct_pairs\<close>) the unsynchronised reads of \<open>optimalTransferFound\<close> allow.\<close>

theorem racy_run_self_transfer:
  "\<exists>st. racy_run race_stock test_settings (Running st)
     \<and> map (\<lambda>t. (from_store t, to_store t, tota_items_count t)) (transfers st)
         = [(''Bucharest'', ''Bucharest'', 0)]"
  using race_bad_run race_bad_transfers by fastforce

end
