(* ===== verification/Race_Examples.thy ===== *)
theory Race_Examples
  imports Race Phase
begin

text \<open>
  Two runs of \<open>RunOpti\<close> under the code's synchronisation (\<open>Race\<close>) that break what
  the barrier schedule guarantees: a store sourcing more transfers than \<open>MaxTo\<close>, and
  the priority phase committing a transfer that is not a priority pair before one that
  is.  In both, the reducer's last update (for the best candidate) lands among the
  reads of lines 128--132, so the commit mixes the best and the second-best
  candidate.
\<close>

text \<open>A candidate as a dry run reports it (no product lines).\<close>

definition cand :: "string \<Rightarrow> string \<Rightarrow> int \<Rightarrow> int \<Rightarrow> transfer" where
  "cand f t n m = \<lparr>from_store = f, to_store = t, products = [], tota_items_count = n, osa_improuve = m\<rparr>"

text \<open>C can fill E's shelf of product a; D can fill E's and F's shelves of product b.\<close>

definition cap_stock :: stock_matrix where
  "cap_stock =
    [(''C'', [(''a'', \<lparr>has = 2, needs = 0\<rparr>)]),
     (''F'', [(''b'', \<lparr>has = 0, needs = 1\<rparr>)]),
     (''E'', [(''a'', \<lparr>has = 0, needs = 2\<rparr>), (''b'', \<lparr>has = 0, needs = 5\<rparr>)]),
     (''D'', [(''b'', \<lparr>has = 10, needs = 0\<rparr>)])]"

definition cap_cands1 :: "transfer list" where
  "cap_cands1 =
    [cand ''C'' ''F'' 0 0, cand ''C'' ''E'' 2 1, cand ''C'' ''D'' 0 0,
     cand ''F'' ''C'' 0 0, cand ''F'' ''E'' 0 0, cand ''F'' ''D'' 0 0,
     cand ''E'' ''C'' 0 0, cand ''E'' ''F'' 0 0, cand ''E'' ''D'' 0 0,
     cand ''D'' ''C'' 0 0, cand ''D'' ''F'' 1 1, cand ''D'' ''E'' 5 1]"

definition cap_after1 :: stock_matrix where
  "cap_after1 =
    [(''C'', [(''a'', \<lparr>has = 2, needs = 0\<rparr>)]),
     (''F'', [(''b'', \<lparr>has = 0, needs = 1\<rparr>)]),
     (''E'', [(''a'', \<lparr>has = 0, needs = 2\<rparr>), (''b'', \<lparr>has = 5, needs = 5\<rparr>)]),
     (''D'', [(''b'', \<lparr>has = 5, needs = 0\<rparr>)])]"

definition cap_state1 :: opti_state where
  "cap_state1 =
    \<lparr>mystock = cap_after1, prio_first = False,
     transfer_avail = (init_avail (map fst cap_stock))(''C'' := (init_avail (map fst cap_stock) ''C'')(''E'' := False)),
     transfer_counter = (\<lambda>_. 0)(''C'' := 1), loop_counter = 1,
     transfers = [\<lparr>from_store = ''D'', to_store = ''E'', products = [\<lparr>tp_product = ''b'', quant = 5\<rparr>],
                   tota_items_count = 5, osa_improuve = 1\<rparr>],
     progress_sent = [25]\<rparr>"

definition cap_cands2 :: "transfer list" where
  "cap_cands2 =
    [cand ''F'' ''C'' 0 0, cand ''F'' ''E'' 0 0, cand ''F'' ''D'' 0 0,
     cand ''E'' ''C'' 0 0, cand ''E'' ''F'' 0 0, cand ''E'' ''D'' 0 0,
     cand ''D'' ''C'' 0 0, cand ''D'' ''F'' 1 1, cand ''D'' ''E'' 0 0]"

text \<open>The same shelves with S a secure store and D a destock store: the priority phase
  admits C to S (S is secure) and D's transfers.\<close>

definition prio_race_stock :: stock_matrix where
  "prio_race_stock =
    [(''C'', [(''a'', \<lparr>has = 2, needs = 0\<rparr>)]),
     (''S'', [(''a'', \<lparr>has = 0, needs = 2\<rparr>)]),
     (''E'', [(''a'', \<lparr>has = 0, needs = 2\<rparr>), (''b'', \<lparr>has = 0, needs = 5\<rparr>)]),
     (''D'', [(''b'', \<lparr>has = 10, needs = 0\<rparr>)])]"

definition prio_race_settings :: settings where
  "prio_race_settings = test_settings\<lparr>secure_stock_in := [''S''], de_stock_in := [''D'']\<rparr>"

definition prio_cands1 :: "transfer list" where
  "prio_cands1 =
    [cand ''C'' ''S'' 2 1, cand ''E'' ''S'' 0 0, cand ''D'' ''C'' 0 0, cand ''D'' ''S'' 0 0,
     cand ''D'' ''E'' 5 1]"

definition prio_after1 :: stock_matrix where
  "prio_after1 =
    [(''C'', [(''a'', \<lparr>has = 0, needs = 0\<rparr>)]),
     (''S'', [(''a'', \<lparr>has = 0, needs = 2\<rparr>)]),
     (''E'', [(''a'', \<lparr>has = 2, needs = 2\<rparr>), (''b'', \<lparr>has = 0, needs = 5\<rparr>)]),
     (''D'', [(''b'', \<lparr>has = 10, needs = 0\<rparr>)])]"

definition prio_state1 :: opti_state where
  "prio_state1 =
    \<lparr>mystock = prio_after1, prio_first = True,
     transfer_avail = (init_avail (map fst prio_race_stock))(''C'' := (init_avail (map fst prio_race_stock) ''C'')(''S'' := False)),
     transfer_counter = (\<lambda>_. 0)(''C'' := 1), loop_counter = 1,
     transfers = [\<lparr>from_store = ''C'', to_store = ''E'', products = [\<lparr>tp_product = ''a'', quant = 2\<rparr>],
                   tota_items_count = 2, osa_improuve = 1\<rparr>],
     progress_sent = [25]\<rparr>"

definition prio_cands2 :: "transfer list" where
  "prio_cands2 = [cand ''E'' ''S'' 0 0, cand ''D'' ''C'' 0 0, cand ''D'' ''S'' 0 0, cand ''D'' ''E'' 5 1]"

lemma cap_init:
  "opti_init cap_stock test_settings
     = \<lparr>mystock = cap_stock, prio_first = False, transfer_avail = init_avail (map fst cap_stock),
        transfer_counter = (\<lambda>_. 0), loop_counter = 0, transfers = [], progress_sent = []\<rparr>"
  by (simp add: opti_init_def copy_stock_id test_settings_def)

lemmas cand_eval = do_exchange_items_def exchange_product_def item_of_def store_of_def
  opti_min_def Let_def zero_item_def cand_def

lemma cap_round1:
  "round_candidates test_settings 1 (opti_init cap_stock test_settings) = cap_cands1"
  unfolding cap_init
  by (simp add: round_candidates_def round_pairs_def pair_eligible_def init_avail_def
      test_settings_def cap_stock_def cap_cands1_def cand_eval)


lemma cap_reads1:
  "racy_read 1 cap_cands1 4 i = (if i < 4 then cand ''C'' ''E'' 2 1 else cand ''D'' ''E'' 5 1)"
  by (simp add: racy_read_def cap_cands1_def reduce_transfers_def reduce_step_def
      determine_best_transfer_def transfer_score_def best_order_def zero_transfer_def
      transfer_key_def cand_def)

lemma cap_commit1:
  "racy_commit test_settings 1 1 cap_cands1 4 (opti_init cap_stock test_settings) = cap_state1"
  unfolding racy_commit_def Let_def cap_reads1 cap_init
  by (simp add: cap_stock_def cap_after1_def cap_state1_def cand_eval set_item_def)

lemma cap_round2: "round_candidates test_settings 1 cap_state1 = cap_cands2"
  by (simp add: cap_state1_def round_candidates_def round_pairs_def pair_eligible_def init_avail_def
      test_settings_def cap_stock_def cap_after1_def cap_cands2_def cand_eval)

lemma cap_reads2: "racy_read 1 cap_cands2 0 i = cand ''D'' ''F'' 1 1"
  by (simp add: racy_read_def cap_cands2_def reduce_transfers_def reduce_step_def
      determine_best_transfer_def transfer_score_def best_order_def zero_transfer_def
      transfer_key_def cand_def)

lemma cap_transfers2:
  "transfers (racy_commit test_settings 1 1 cap_cands2 0 cap_state1)
     = [\<lparr>from_store = ''D'', to_store = ''E'', products = [\<lparr>tp_product = ''b'', quant = 5\<rparr>],
         tota_items_count = 5, osa_improuve = 1\<rparr>,
        \<lparr>from_store = ''D'', to_store = ''F'', products = [\<lparr>tp_product = ''b'', quant = 1\<rparr>],
         tota_items_count = 1, osa_improuve = 1\<rparr>]"
  unfolding racy_commit_def Let_def cap_reads2
  by (simp add: cap_state1_def cap_after1_def cand_eval set_item_def)

lemma cap_run:
  "racy_run cap_stock test_settings (Running (racy_commit test_settings 1 1 cap_cands2 0 cap_state1))"
proof -
  have eff: "effective_max_to test_settings = 1" "effective_min_products test_settings = 1"
    by (simp_all add: effective_max_to_def effective_min_products_def test_settings_def)
  have s1: "racy_step test_settings 1 1 (Running (opti_init cap_stock test_settings)) (Running cap_state1)"
    unfolding cap_commit1 [symmetric]
  proof (rule racy_commit_step)
    show "loop_counter (opti_init cap_stock test_settings)
        < int (length (mystock (opti_init cap_stock test_settings))) * 1"
      unfolding cap_init by (simp add: cap_stock_def)
    show "mset cap_cands1 = mset (round_candidates test_settings 1 (opti_init cap_stock test_settings))"
      by (simp add: cap_round1)
    show "tota_items_count (racy_read 1 cap_cands1 4 0) \<noteq> 0"
      by (simp add: cap_reads1 cand_def)
  qed
  have s2: "racy_step test_settings 1 1 (Running cap_state1)
      (Running (racy_commit test_settings 1 1 cap_cands2 0 cap_state1))"
  proof (rule racy_commit_step)
    show "loop_counter cap_state1 < int (length (mystock cap_state1)) * 1"
      by (simp add: cap_state1_def cap_after1_def)
    show "mset cap_cands2 = mset (round_candidates test_settings 1 cap_state1)"
      by (simp add: cap_round2)
    show "tota_items_count (racy_read 1 cap_cands2 0 0) \<noteq> 0"
      by (simp add: cap_reads2 cand_def)
  qed
  from s1 s2 show ?thesis by (simp add: racy_run_def eff)
qed


lemma prio_race_init:
  "opti_init prio_race_stock prio_race_settings
     = \<lparr>mystock = prio_race_stock, prio_first = True, transfer_avail = init_avail (map fst prio_race_stock),
        transfer_counter = (\<lambda>_. 0), loop_counter = 0, transfers = [], progress_sent = []\<rparr>"
  by (simp add: opti_init_def copy_stock_id prio_race_settings_def test_settings_def)

lemma prio_round1:
  "round_candidates prio_race_settings 1 (opti_init prio_race_stock prio_race_settings) = prio_cands1"
  unfolding prio_race_init
  by (simp add: round_candidates_def round_pairs_def pair_eligible_def init_avail_def
      prio_race_settings_def test_settings_def prio_race_stock_def prio_cands1_def cand_eval)

lemma prio_reads1:
  "racy_read 1 prio_cands1 5 i = (if i < 5 then cand ''C'' ''S'' 2 1 else cand ''D'' ''E'' 5 1)"
  by (simp add: racy_read_def prio_cands1_def reduce_transfers_def reduce_step_def
      determine_best_transfer_def transfer_score_def best_order_def zero_transfer_def
      transfer_key_def cand_def)

lemma prio_commit1:
  "racy_commit prio_race_settings 1 1 prio_cands1 5 (opti_init prio_race_stock prio_race_settings) = prio_state1"
  unfolding racy_commit_def Let_def prio_reads1 prio_race_init
  by (simp add: prio_race_stock_def prio_after1_def prio_state1_def cand_eval set_item_def)

lemma prio_round2: "round_candidates prio_race_settings 1 prio_state1 = prio_cands2"
  by (simp add: prio_state1_def round_candidates_def round_pairs_def pair_eligible_def init_avail_def
      prio_race_settings_def test_settings_def prio_race_stock_def prio_after1_def prio_cands2_def cand_eval)

lemma prio_reads2: "racy_read 1 prio_cands2 0 i = cand ''D'' ''E'' 5 1"
  by (simp add: racy_read_def prio_cands2_def reduce_transfers_def reduce_step_def
      determine_best_transfer_def transfer_score_def best_order_def zero_transfer_def
      transfer_key_def cand_def)

lemma prio_state2:
  "transfers (racy_commit prio_race_settings 1 1 prio_cands2 0 prio_state1)
     = [\<lparr>from_store = ''C'', to_store = ''E'', products = [\<lparr>tp_product = ''a'', quant = 2\<rparr>],
         tota_items_count = 2, osa_improuve = 1\<rparr>,
        \<lparr>from_store = ''D'', to_store = ''E'', products = [\<lparr>tp_product = ''b'', quant = 5\<rparr>],
         tota_items_count = 5, osa_improuve = 1\<rparr>]"
  "prio_first (racy_commit prio_race_settings 1 1 prio_cands2 0 prio_state1)"
  unfolding racy_commit_def Let_def prio_reads2
  by (simp_all add: prio_state1_def prio_after1_def cand_eval set_item_def)

lemma prio_run:
  "racy_run prio_race_stock prio_race_settings
     (Running (racy_commit prio_race_settings 1 1 prio_cands2 0 prio_state1))"
proof -
  have eff: "effective_max_to prio_race_settings = 1" "effective_min_products prio_race_settings = 1"
    by (simp_all add: effective_max_to_def effective_min_products_def prio_race_settings_def test_settings_def)
  have s1: "racy_step prio_race_settings 1 1 (Running (opti_init prio_race_stock prio_race_settings))
      (Running prio_state1)"
    unfolding prio_commit1 [symmetric]
  proof (rule racy_commit_step)
    show "loop_counter (opti_init prio_race_stock prio_race_settings)
        < int (length (mystock (opti_init prio_race_stock prio_race_settings))) * 1"
      unfolding prio_race_init by (simp add: prio_race_stock_def)
    show "mset prio_cands1
        = mset (round_candidates prio_race_settings 1 (opti_init prio_race_stock prio_race_settings))"
      by (simp add: prio_round1)
    show "tota_items_count (racy_read 1 prio_cands1 5 0) \<noteq> 0"
      by (simp add: prio_reads1 cand_def)
  qed
  have s2: "racy_step prio_race_settings 1 1 (Running prio_state1)
      (Running (racy_commit prio_race_settings 1 1 prio_cands2 0 prio_state1))"
  proof (rule racy_commit_step)
    show "loop_counter prio_state1 < int (length (mystock prio_state1)) * 1"
      by (simp add: prio_state1_def prio_after1_def)
    show "mset prio_cands2 = mset (round_candidates prio_race_settings 1 prio_state1)"
      by (simp add: prio_round2)
    show "tota_items_count (racy_read 1 prio_cands2 0 0) \<noteq> 0"
      by (simp add: prio_reads2 cand_def)
  qed
  from s1 s2 show ?thesis by (simp add: racy_run_def eff)
qed

text \<open>C3: The MaxTo cap under the code's synchronisation. On \<open>cap_stock\<close> with
  \<open>MaxTo = 1\<close> and \<open>MinProducts = 1\<close>, when D to E arrives last and the reducer's
  update for it lands after the counter's read (line 129) and before the evaluation's
  (line 132), the first commit charges C's counter but moves D's stock to E; D to F
  wins the next round, and D has sourced two transfers: \<open>transferCounterMat\<close> does not
  bound the transfers a store sends.\<close>

theorem racy_run_outgoing_cap_broken:
  "\<exists>st. racy_run cap_stock test_settings (Running st)
     \<and> int (length (filter (\<lambda>t. from_store t = ''D'') (transfers st))) > effective_max_to test_settings"
proof -
  have "effective_max_to test_settings = 1"
    by (simp add: effective_max_to_def test_settings_def)
  with cap_run cap_transfers2 show ?thesis by fastforce
qed

text \<open>C13: The priority phase under the code's synchronisation. On
  \<open>prio_race_stock\<close> with S secure and D to destock, when D to E arrives last and the
  reducer's update for it lands between the two reads of line 132, the first commit
  of the priority phase moves C's stock to E, a pair the priority filter does not
  admit; the next round, still in the priority phase, commits D to E: the committed
  transfers are not priority transfers followed by the others.\<close>

theorem racy_run_priority_mixed:
  "\<exists>st. racy_run prio_race_stock prio_race_settings (Running st) \<and> prio_first st
     \<and> map (\<lambda>t. prio_pair prio_race_settings (from_store t) (to_store t)) (transfers st) = [False, True]"
proof -
  have "prio_pair prio_race_settings ''C'' ''E'' = False" "prio_pair prio_race_settings ''D'' ''E''"
    by (simp_all add: prio_pair_def prio_race_settings_def test_settings_def)
  with prio_run prio_state2 show ?thesis by fastforce
qed

end
