(* ===== verification/Parser.thy ===== *)
theory Parser
  imports Stock
begin

text \<open>
  The stock reader \<open>ParseFromCSV\<close> of \<open>src/stockparser/stockparser.go\<close> and the
  number conversions it and the writer rely on.  \<open>strconv.Atoi\<close> is the Go library's:
  a fast path for strings shorter than 19 bytes and \<open>ParseInt\<close> (over \<open>ParseUint\<close>)
  otherwise, with Go's \<open>int\<close> of 64 bits; \<open>itoa\<close> is the decimal form \<open>%d\<close> writes.
  Errors are values: \<open>num_err\<close> is the \<open>Err\<close> field of Go's \<open>*NumError\<close>.
\<close>

datatype num_err = Err_syntax | Err_range

definition is_digit :: "char \<Rightarrow> bool" where
  "is_digit c \<longleftrightarrow> CHR ''0'' \<le> c \<and> c \<le> CHR ''9''"

definition digit_val :: "char \<Rightarrow> nat" where
  "digit_val c = of_char c - of_char CHR ''0''"

definition uint64_max :: nat where
  "uint64_max = 2 ^ 64 - 1"

text \<open>The digit loop of \<open>ParseUint(s, 10, 64)\<close>: a byte that is not a decimal digit
  is a syntax error (a letter gets a digit value of at least 10, which is the same
  error), and the first step that would exceed \<open>maxUint64\<close> is a range error
  (\<open>n >= cutoff\<close> or \<open>n1 > maxVal\<close>).\<close>

fun parse_uint_digits :: "nat \<Rightarrow> string \<Rightarrow> num_err + nat" where
  "parse_uint_digits n [] = Inr n"
| "parse_uint_digits n (c # cs) =
    (if \<not> is_digit c then Inl Err_syntax
     else if n \<ge> uint64_max div 10 + 1 then Inl Err_range
     else (let n1 = n * 10 + digit_val c in
           if n1 > uint64_max then Inl Err_range else parse_uint_digits n1 cs))"

definition parse_uint :: "string \<Rightarrow> num_err + nat" where
  "parse_uint s = (if s = [] then Inl Err_syntax else parse_uint_digits 0 s)"

text \<open>\<open>ParseInt(s, 10, 0)\<close>: the sign, then \<open>ParseUint\<close>, then the range of
  \<open>int64\<close>.\<close>

definition parse_int :: "string \<Rightarrow> num_err + int" where
  "parse_int s =
    (if s = [] then Inl Err_syntax
     else (let neg = (hd s = CHR ''-'');
               s' = (if hd s = CHR ''+'' \<or> hd s = CHR ''-'' then tl s else s)
           in case parse_uint s' of
                Inl e \<Rightarrow> Inl e
              | Inr un \<Rightarrow>
                  if \<not> neg \<and> un \<ge> 2 ^ 63 then Inl Err_range
                  else if neg \<and> un > 2 ^ 63 then Inl Err_range
                  else Inr (if neg then - int un else int un)))"

text \<open>The fast path of \<open>Atoi\<close>: \<open>ch -= '0'; if ch > 9\<close> rejects every byte but a
  digit.\<close>

fun fast_digits :: "int \<Rightarrow> string \<Rightarrow> int option" where
  "fast_digits n [] = Some n"
| "fast_digits n (c # cs) = (if is_digit c then fast_digits (n * 10 + int (digit_val c)) cs else None)"

definition atoi :: "string \<Rightarrow> num_err + int" where
  "atoi s =
    (if 0 < length s \<and> length s < 19 then
       (let s' = (if hd s = CHR ''-'' \<or> hd s = CHR ''+'' then tl s else s) in
        if s' = [] then Inl Err_syntax
        else (case fast_digits 0 s' of
                None \<Rightarrow> Inl Err_syntax
              | Some n \<Rightarrow> Inr (if hd s = CHR ''-'' then - n else n)))
     else parse_int s)"

text \<open>\<open>strconv.Itoa\<close> and \<open>fmt\<close>'s \<open>%d\<close>: a minus sign, then the decimal digits.\<close>

fun nat_digits :: "nat \<Rightarrow> string" where
  "nat_digits n = (if n < 10 then [char_of (48 + n)] else nat_digits (n div 10) @ [char_of (48 + n mod 10)])"

declare nat_digits.simps [simp del]

definition itoa :: "int \<Rightarrow> string" where
  "itoa i = (if i < 0 then CHR ''-'' # nat_digits (nat (- i)) else nat_digits (nat i))"

text \<open>The value of a string of digits.\<close>

definition digits_value :: "string \<Rightarrow> nat" where
  "digits_value cs = foldl (\<lambda>n c. n * 10 + digit_val c) 0 cs"

subsection \<open>ParseFromCSV\<close>

text \<open>\<open>strings.TrimSpace\<close> on the bytes of a UTF-8 string: it cuts from both ends the
  runes \<open>unicode.IsSpace\<close> holds for.  Those are the ASCII tab, newline, vertical tab,
  form feed, carriage return and space (\<open>is_space\<close>), and the runes U+0085, U+00A0,
  U+1680, U+2000 to U+200A, U+2028, U+2029, U+202F, U+205F and U+3000, whose UTF-8
  encodings \<open>space_runes\<close> lists.  A byte that does not start one of them, invalid
  UTF-8 included, decodes to a rune that is not a space and stops the cut.\<close>

definition is_space :: "char \<Rightarrow> bool" where
  "is_space c \<longleftrightarrow> of_char c \<in> {9, 10, 11, 12, 13, 32 :: nat}"

definition space_runes :: "string list" where
  "space_runes =
    [[CHR 0xC2, CHR 0x85], [CHR 0xC2, CHR 0xA0], [CHR 0xE1, CHR 0x9A, CHR 0x80],
     [CHR 0xE2, CHR 0x80, CHR 0x80], [CHR 0xE2, CHR 0x80, CHR 0x81], [CHR 0xE2, CHR 0x80, CHR 0x82],
     [CHR 0xE2, CHR 0x80, CHR 0x83], [CHR 0xE2, CHR 0x80, CHR 0x84], [CHR 0xE2, CHR 0x80, CHR 0x85],
     [CHR 0xE2, CHR 0x80, CHR 0x86], [CHR 0xE2, CHR 0x80, CHR 0x87], [CHR 0xE2, CHR 0x80, CHR 0x88],
     [CHR 0xE2, CHR 0x80, CHR 0x89], [CHR 0xE2, CHR 0x80, CHR 0x8A], [CHR 0xE2, CHR 0x80, CHR 0xA8],
     [CHR 0xE2, CHR 0x80, CHR 0xA9], [CHR 0xE2, CHR 0x80, CHR 0xAF], [CHR 0xE2, CHR 0x81, CHR 0x9F],
     [CHR 0xE3, CHR 0x80, CHR 0x80]]"

text \<open>\<open>strings.TrimLeftFunc(s, unicode.IsSpace)\<close>, with the multi-byte space runes
  \<open>qs\<close>: cut an ASCII space or a rune of \<open>qs\<close> at the front until neither starts the
  string.  Every rune of \<open>qs\<close> starts with a byte of at least \<open>0x80\<close>, so any other
  ASCII byte stops the cut at once.  On the reversed string with the reversed
  encodings it is \<open>TrimRightFunc\<close>.\<close>

function trim_left :: "string list \<Rightarrow> string \<Rightarrow> string" where
  "trim_left qs [] = []"
| "trim_left qs (c # cs) =
    (if is_space c then trim_left qs cs
     else if of_char c < (128::nat) then c # cs
     else (case find (\<lambda>q. q \<noteq> [] \<and> hd q = c \<and> take (length q - 1) cs = tl q) qs of
             Some q \<Rightarrow> trim_left qs (drop (length q - 1) cs)
           | None \<Rightarrow> c # cs))"
  by pat_completeness auto
termination
  by (relation "measure (\<lambda>(qs, s). length s)") auto

definition trim_space :: "string \<Rightarrow> string" where
  "trim_space s = rev (trim_left (map rev space_runes) (rev (trim_left space_runes s)))"

text \<open>What can go wrong: \<open>Atoi\<close> returns a \<open>*NumError\<close> for the trimmed field, or
  \<open>record[3]\<close> is out of range and the goroutine panics.\<close>

datatype parse_error = Num_error num_err string | Index_panic

text \<open>The body of the loop for one record (lines 34--62): the header row is skipped,
  any other row is converted and stored at \<open>stock[store][product]\<close> (the store's map
  is created on first use, which \<open>set_item\<close> does).\<close>

definition read_record :: "stock_matrix \<Rightarrow> string list \<Rightarrow> parse_error + stock_matrix" where
  "read_record stock record =
    (if length record < 4 then Inl Index_panic
     else (let store = trim_space (record ! 0); product = trim_space (record ! 1);
               value = trim_space (record ! 2); max = trim_space (record ! 3) in
           if store = ''Store'' \<and> product = ''Product'' then Inr stock
           else (case atoi value of
                   Inl e \<Rightarrow> Inl (Num_error e value)
                 | Inr istock \<Rightarrow>
                     (case atoi max of
                        Inl e \<Rightarrow> Inl (Num_error e max)
                      | Inr imax \<Rightarrow> Inr (set_item stock store product \<lparr>has = istock, needs = imax\<rparr>)))))"

text \<open>The loop of lines 27--64 over the records \<open>csvReader.Read()\<close> returns before
  \<open>io.EOF\<close>.  Every other error of \<open>Read\<close> is ignored by the code (only \<open>io.EOF\<close> is
  tested), so the records, as returned, are the input.\<close>

fun parse_records :: "stock_matrix \<Rightarrow> string list list \<Rightarrow> parse_error + stock_matrix" where
  "parse_records stock [] = Inr stock"
| "parse_records stock (record # records) =
    (case read_record stock record of Inl e \<Rightarrow> Inl e | Inr stock' \<Rightarrow> parse_records stock' records)"

definition parse_from_csv :: "string list list \<Rightarrow> parse_error + stock_matrix" where
  "parse_from_csv records = parse_records [] records"

text \<open>The records the parser accepts: at least four fields, and either the header
  or two integer fields.\<close>

definition is_int :: "string \<Rightarrow> bool" where
  "is_int s = (case atoi s of Inl _ \<Rightarrow> False | Inr _ \<Rightarrow> True)"

definition record_ok :: "string list \<Rightarrow> bool" where
  "record_ok r \<longleftrightarrow> 4 \<le> length r
     \<and> ((trim_space (r ! 0) = ''Store'' \<and> trim_space (r ! 1) = ''Product'')
        \<or> (is_int (trim_space (r ! 2)) \<and> is_int (trim_space (r ! 3))))"

text \<open>The CSV form of a matrix, one row per store and product in map order, with the
  header the code skips; used to state the round trip.\<close>

definition stock_records :: "stock_matrix \<Rightarrow> string list list" where
  "stock_records st =
    [''Store'', ''Product'', ''Stock'', ''Max'']
    # concat (map (\<lambda>(s, ps). map (\<lambda>(p, it). [s, p, itoa (has it), itoa (needs it)]) ps) st)"

text \<open>What the records say, read as a table: every record but a header row gives its
  trimmed store and product and the item of its two integer fields.  \<open>last_item\<close>
  is the item the last row for a store and product gives, the zero item when no row
  names them.\<close>

definition record_row :: "string list \<Rightarrow> (string \<times> string \<times> stock_item) list" where
  "record_row r =
    (let s = trim_space (r ! 0); p = trim_space (r ! 1) in
     if s = ''Store'' \<and> p = ''Product'' then []
     else [(s, p, \<lparr>has = projr (atoi (trim_space (r ! 2))), needs = projr (atoi (trim_space (r ! 3)))\<rparr>)])"

definition data_rows :: "string list list \<Rightarrow> (string \<times> string \<times> stock_item) list" where
  "data_rows records = concat (map record_row records)"

definition row_items :: "(string \<times> string \<times> stock_item) list \<Rightarrow> string \<Rightarrow> string \<Rightarrow> stock_item list" where
  "row_items rows s p = [v. (s', p', v) \<leftarrow> rows, s' = s \<and> p' = p]"

definition last_item :: "(string \<times> string \<times> stock_item) list \<Rightarrow> string \<Rightarrow> string \<Rightarrow> stock_item" where
  "last_item rows s p = (case row_items rows s p of [] \<Rightarrow> zero_item | vs \<Rightarrow> last vs)"

text \<open>Go's \<open>int\<close> on a 64-bit platform.\<close>

definition in_int64 :: "int \<Rightarrow> bool" where
  "in_int64 i \<longleftrightarrow> - (2 ^ 63) \<le> i \<and> i < 2 ^ 63"

definition stock_int64 :: "stock_matrix \<Rightarrow> bool" where
  "stock_int64 st \<longleftrightarrow> (\<forall>(s, ps) \<in> set st. \<forall>(p, it) \<in> set ps. in_int64 (has it) \<and> in_int64 (needs it))"

text \<open>The matrices \<open>stock_records\<close> writes faithfully: no store without products,
  names without surrounding white space, no row that reads as the header, values
  of Go's \<open>int\<close>.\<close>

definition csv_writable :: "stock_matrix \<Rightarrow> bool" where
  "csv_writable st \<longleftrightarrow> (\<forall>(s, ps) \<in> set st. ps \<noteq> [] \<and> trim_space s = s
     \<and> (\<forall>(p, it) \<in> set ps. trim_space p = p \<and> \<not> (s = ''Store'' \<and> p = ''Product'')
          \<and> in_int64 (has it) \<and> in_int64 (needs it)))"

subsection \<open>Digits\<close>

lemma digit_char_of:
  assumes "n < 10"
  shows "is_digit (char_of (48 + n))" and "digit_val (char_of (48 + n)) = n"
  using assms by (simp_all add: is_digit_def digit_val_def less_eq_char_def of_char_of)

lemma digit_val_le: "is_digit c \<Longrightarrow> digit_val c \<le> 9"
  by (simp add: is_digit_def digit_val_def less_eq_char_def) arith

lemma digit_step_bound:
  fixes n d k :: nat
  assumes "d \<le> 9"
  shows "(n * 10 + d + 1) * 10 ^ k \<le> (n + 1) * 10 ^ Suc k"
proof -
  have "n * 10 + d + 1 \<le> (n + 1) * 10" using assms by simp
  then have "(n * 10 + d + 1) * 10 ^ k \<le> (n + 1) * 10 * 10 ^ k" by (rule mult_right_mono) simp
  also have "\<dots> = (n + 1) * 10 ^ Suc k" by (simp add: algebra_simps)
  finally show ?thesis .
qed

lemma sign_not_digit: "\<not> is_digit CHR ''-''" "\<not> is_digit CHR ''+''"
  by (simp_all add: is_digit_def less_eq_char_def)

lemma digits_value_snoc: "digits_value (cs @ [c]) = digits_value cs * 10 + digit_val c"
  by (simp add: digits_value_def)

lemma nat_digits_props:
  "nat_digits n \<noteq> [] \<and> list_all is_digit (nat_digits n) \<and> digits_value (nat_digits n) = n"
proof (induction n rule: nat_digits.induct)
  case (1 n)
  show ?case
  proof (cases "n < 10")
    case True
    then show ?thesis
      by (simp add: nat_digits.simps [of n] digit_char_of digits_value_def)
  next
    case False
    then have "n div 10 * 10 + n mod 10 = n" by simp
    with False "1.IH" show ?thesis
      by (simp add: nat_digits.simps [of n] digit_char_of digits_value_snoc)
  qed
qed

lemma foldl_digits_ge: "n \<le> foldl (\<lambda>n c. n * 10 + digit_val c) n cs"
proof (induction cs arbitrary: n)
  case Nil
  then show ?case by simp
next
  case (Cons c cs)
  from Cons.IH [of "n * 10 + digit_val c"] show ?case by simp
qed

lemma foldl_digits_less:
  "list_all is_digit cs \<Longrightarrow> foldl (\<lambda>n c. n * 10 + digit_val c) n cs < (n + 1) * 10 ^ length cs"
proof (induction cs arbitrary: n)
  case Nil
  then show ?case by simp
next
  case (Cons c cs)
  have "digit_val c \<le> 9" using Cons.prems by (simp add: digit_val_le)
  then have "(n * 10 + digit_val c + 1) * 10 ^ length cs \<le> (n + 1) * 10 ^ length (c # cs)"
    using digit_step_bound [of "digit_val c" n "length cs"] by simp
  with Cons.IH [of "n * 10 + digit_val c"] Cons.prems show ?case by simp
qed

subsection \<open>The digit loop of ParseUint\<close>

lemma parse_uint_digits_ok:
  assumes "list_all is_digit cs" and "foldl (\<lambda>n c. n * 10 + digit_val c) n cs \<le> uint64_max"
  shows "parse_uint_digits n cs = Inr (foldl (\<lambda>n c. n * 10 + digit_val c) n cs)"
  using assms
proof (induction cs arbitrary: n)
  case Nil
  then show ?case by simp
next
  case (Cons c cs)
  let ?n1 = "n * 10 + digit_val c"
  have "?n1 \<le> uint64_max"
    using foldl_digits_ge [of ?n1 cs] Cons.prems(2) by simp
  then have "n < uint64_max div 10 + 1" and "\<not> ?n1 > uint64_max" by linarith+
  with Cons show ?case by (simp add: Let_def)
qed

lemma parse_uint_digits_syntax:
  assumes "\<not> list_all is_digit cs" and "(n + 1) * 10 ^ length cs \<le> 10 ^ 18"
  shows "parse_uint_digits n cs = Inl Err_syntax"
  using assms
proof (induction cs arbitrary: n)
  case Nil
  then show ?case by simp
next
  case (Cons c cs)
  show ?case
  proof (cases "is_digit c")
    case False
    then show ?thesis by simp
  next
    case True
    let ?n1 = "n * 10 + digit_val c"
    have d: "digit_val c \<le> 9" using True by (rule digit_val_le)
    have "(?n1 + 1) * 10 ^ length cs \<le> (n + 1) * 10 ^ length (c # cs)"
      using digit_step_bound [OF d, of n "length cs"] by simp
    with Cons.prems(2) have b: "(?n1 + 1) * 10 ^ length cs \<le> 10 ^ 18" by linarith
    have e: "(n + 1) * 10 * 10 ^ length cs = (n + 1) * 10 ^ length (c # cs)"
      by (simp add: algebra_simps)
    have "1 \<le> (10::nat) ^ length cs" by simp
    then have "(n + 1) * 10 * 1 \<le> (n + 1) * 10 * 10 ^ length cs" by (rule mult_le_mono2)
    then have "(n + 1) * 10 \<le> (n + 1) * 10 * 10 ^ length cs" by (simp only: mult_1_right)
    with e Cons.prems(2) have "(n + 1) * 10 \<le> 10 ^ 18" by (metis order_trans)
    then have "n < uint64_max div 10 + 1" and "\<not> ?n1 > uint64_max"
      using d by (simp_all add: uint64_max_def)
    with True Cons.IH [OF _ b] Cons.prems(1) show ?thesis by (simp add: Let_def)
  qed
qed

lemma fast_digits_eq:
  "fast_digits (int n) cs
     = (if list_all is_digit cs then Some (int (foldl (\<lambda>n c. n * 10 + digit_val c) n cs)) else None)"
proof (induction cs arbitrary: n)
  case Nil
  then show ?case by simp
next
  case (Cons c cs)
  from Cons.IH [of "n * 10 + digit_val c"] show ?case by simp
qed

lemma pow10_le: "k \<le> 18 \<Longrightarrow> (10::nat) ^ k \<le> 10 ^ 18"
  by (rule power_increasing) simp_all

lemma digits_value_short:
  assumes "list_all is_digit s" and "length s \<le> 18"
  shows "digits_value s < 10 ^ 18"
proof -
  have "(0 + 1) * 10 ^ length s \<le> (10::nat) ^ 18"
    using pow10_le [OF assms(2)] by simp
  with foldl_digits_less [OF assms(1), of 0] show ?thesis by (simp add: digits_value_def)
qed

text \<open>On at most 18 bytes \<open>ParseUint\<close> cannot overflow: it accepts exactly the
  strings of digits.\<close>

lemma parse_uint_short:
  assumes "s \<noteq> []" and "length s \<le> 18"
  shows "parse_uint s = (if list_all is_digit s then Inr (digits_value s) else Inl Err_syntax)"
proof (cases "list_all is_digit s")
  case True
  have "digits_value s \<le> uint64_max"
    using digits_value_short [OF True assms(2)] by (simp add: uint64_max_def)
  with True assms(1) show ?thesis
    by (simp add: parse_uint_def digits_value_def parse_uint_digits_ok)
next
  case False
  have "(0 + 1) * 10 ^ length s \<le> (10::nat) ^ 18"
    using pow10_le [OF assms(2)] by simp
  with False assms(1) show ?thesis
    by (simp add: parse_uint_def parse_uint_digits_syntax)
qed

lemma parse_uint_digits_of:
  assumes "list_all is_digit s" and "s \<noteq> []" and "digits_value s \<le> uint64_max"
  shows "parse_uint s = Inr (digits_value s)"
  using assms by (simp add: parse_uint_def digits_value_def parse_uint_digits_ok)

subsection \<open>Atoi\<close>

text \<open>The fast path of \<open>Atoi\<close> is \<open>ParseInt\<close>. For every string, \<open>strconv.Atoi\<close>
  with its fast path for short strings gives the same value or the same error as
  \<open>ParseInt(s, 10, 64)\<close>: a string of at most 18 bytes cannot overflow.\<close>

theorem atoi_parse_int: "atoi s = parse_int s"
proof (cases "0 < length s \<and> length s < 19")
  case False
  show ?thesis by (simp only: atoi_def if_not_P [OF False])
next
  case True
  then have ne: "s \<noteq> []" by auto
  define s' where "s' = (if hd s = CHR ''-'' \<or> hd s = CHR ''+'' then tl s else s)"
  have s'_alt: "(if hd s = CHR ''+'' \<or> hd s = CHR ''-'' then tl s else s) = s'"
    by (auto simp: s'_def)
  have len: "length s' \<le> 18"
    using True unfolding s'_def by (cases "hd s = CHR ''-'' \<or> hd s = CHR ''+''") auto
  show ?thesis
  proof (cases "s' = []")
    case True
    then show ?thesis
      using ne \<open>0 < length s \<and> length s < 19\<close>
      by (simp add: atoi_def parse_int_def Let_def s'_alt parse_uint_def flip: s'_def)
  next
    case ne': False
    show ?thesis
    proof (cases "list_all is_digit s'")
      case dig: True
      have v: "digits_value s' < 10 ^ 18" using digits_value_short [OF dig len] .
      have "fast_digits 0 s' = Some (int (digits_value s'))"
        using fast_digits_eq [of 0 s'] dig by (simp add: digits_value_def)
      then show ?thesis
        using ne ne' \<open>0 < length s \<and> length s < 19\<close> parse_uint_short [OF ne' len] dig v
        by (simp add: atoi_def parse_int_def Let_def s'_alt flip: s'_def)
    next
      case dig: False
      have "fast_digits 0 s' = None"
        using fast_digits_eq [of 0 s'] dig by simp
      then show ?thesis
        using ne ne' \<open>0 < length s \<and> length s < 19\<close> parse_uint_short [OF ne' len] dig
        by (simp add: atoi_def parse_int_def Let_def s'_alt flip: s'_def)
    qed
  qed
qed

lemma parse_int_bounds:
  "parse_int s = Inr n \<Longrightarrow> - (2 ^ 63) \<le> n \<and> n < 2 ^ 63"
  by (auto simp: parse_int_def Let_def split: if_splits sum.splits)

lemma parse_int_itoa:
  assumes "- (2 ^ 63) \<le> i" and "i < 2 ^ 63"
  shows "parse_int (itoa i) = Inr i"
proof (cases "i < 0")
  case True
  let ?m = "nat (- i)"
  have d: "list_all is_digit (nat_digits ?m)" "nat_digits ?m \<noteq> []" "digits_value (nat_digits ?m) = ?m"
    using nat_digits_props [of ?m] by simp_all
  have "?m \<le> 2 ^ 63" using assms(1) by simp
  then have "parse_uint (nat_digits ?m) = Inr ?m"
    using parse_uint_digits_of [OF d(1,2)] d(3) by (simp add: uint64_max_def)
  with True \<open>?m \<le> 2 ^ 63\<close> show ?thesis by (simp add: itoa_def parse_int_def)
next
  case False
  let ?m = "nat i"
  have d: "list_all is_digit (nat_digits ?m)" "nat_digits ?m \<noteq> []" "digits_value (nat_digits ?m) = ?m"
    using nat_digits_props [of ?m] by simp_all
  then have h: "is_digit (hd (nat_digits ?m))" by (cases "nat_digits ?m") simp_all
  then have "hd (nat_digits ?m) \<noteq> CHR ''-''" "hd (nat_digits ?m) \<noteq> CHR ''+''"
    using sign_not_digit by metis+
  moreover have "?m < 2 ^ 63" using assms(2) False by simp
  moreover have "parse_uint (nat_digits ?m) = Inr ?m"
    using parse_uint_digits_of [OF d(1,2)] d(3) \<open>?m < 2 ^ 63\<close> by (simp add: uint64_max_def)
  ultimately show ?thesis using False d(2) by (simp add: itoa_def parse_int_def)
qed

subsection \<open>The records ParseFromCSV accepts\<close>

lemma read_record_ok:
  "(\<exists>st'. read_record stock r = Inr st') \<longleftrightarrow> record_ok r"
  by (auto simp: read_record_def record_ok_def is_int_def Let_def split: sum.splits)

text \<open>C18: What ParseFromCSV accepts. \<open>ParseFromCSV\<close> returns a matrix exactly when
  every record has at least four fields and is the header or has integer third and
  fourth fields; any other record makes it fail as a whole, with no partial matrix.\<close>

theorem parse_from_csv_ok_iff:
  "(\<exists>st. parse_from_csv records = Inr st) \<longleftrightarrow> list_all record_ok records"
proof -
  have "(\<exists>st. parse_records acc records = Inr st) \<longleftrightarrow> list_all record_ok records" for acc
  proof (induction records arbitrary: acc)
    case Nil
    then show ?case by simp
  next
    case (Cons r records)
    show ?case
    proof (cases "read_record acc r")
      case (Inl e)
      then show ?thesis using read_record_ok [of acc r] by auto
    next
      case (Inr acc')
      then show ?thesis using read_record_ok [of acc r] Cons.IH [of acc'] by auto
    qed
  qed
  then show ?thesis by (simp add: parse_from_csv_def)
qed

subsection \<open>The matrix ParseFromCSV returns\<close>

lemma atoi_in_int64: "atoi s = Inr n \<Longrightarrow> in_int64 n"
  using parse_int_bounds by (simp add: atoi_parse_int in_int64_def)

lemma stock_int64_iff:
  "stock_wf st \<Longrightarrow> stock_int64 st \<longleftrightarrow> (\<forall>s p. in_int64 (has (item_of st s p)) \<and> in_int64 (needs (item_of st s p)))"
  using stock_entries_iff [of st "\<lambda>it. in_int64 (has it) \<and> in_int64 (needs it)"]
  by (simp add: stock_int64_def zero_item_def in_int64_def)

lemma read_record_inv:
  assumes "read_record stock r = Inr stock'" and "stock_wf stock" and "stock_int64 stock"
  shows "stock_wf stock' \<and> stock_int64 stock'"
proof -
  from assms(1) consider "stock' = stock"
    | store product istock imax where "stock' = set_item stock store product \<lparr>has = istock, needs = imax\<rparr>"
        and "in_int64 istock" and "in_int64 imax"
    by (auto simp: read_record_def Let_def split: if_splits sum.splits) (metis atoi_in_int64)+
  then show ?thesis
  proof cases
    case 1
    with assms(2,3) show ?thesis by simp
  next
    case 2
    have wf': "stock_wf stock'" using 2(1) stock_wf_set_item [OF assms(2)] by simp
    have "in_int64 (has (item_of stock s p)) \<and> in_int64 (needs (item_of stock s p))" for s p
      using assms(3) stock_int64_iff [OF assms(2)] by simp
    with 2 have "\<forall>s p. in_int64 (has (item_of stock' s p)) \<and> in_int64 (needs (item_of stock' s p))"
      by simp
    with wf' show ?thesis by (simp add: stock_int64_iff)
  qed
qed

lemma parse_records_inv:
  "parse_records stock rs = Inr st \<Longrightarrow> stock_wf stock \<Longrightarrow> stock_int64 stock
   \<Longrightarrow> stock_wf st \<and> stock_int64 st"
proof (induction rs arbitrary: stock)
  case Nil
  then show ?case by simp
next
  case (Cons r rs)
  then obtain stock' where r: "read_record stock r = Inr stock'" and rs: "parse_records stock' rs = Inr st"
    by (auto split: sum.splits)
  from read_record_inv [OF r Cons.prems(2,3)] Cons.IH [OF rs] show ?case by simp
qed

lemma read_record_Inr:
  assumes "read_record acc r = Inr acc'"
  shows "acc' = (case record_row r of [] \<Rightarrow> acc | (s, p, v) # _ \<Rightarrow> set_item acc s p v)
    \<and> length (record_row r) \<le> 1"
  using assms
  by (auto simp: read_record_def record_row_def Let_def split: if_splits sum.splits)

lemma row_items_append [simp]:
  "row_items (xs @ ys) s p = row_items xs s p @ row_items ys s p"
  "row_items [] s p = []"
  "row_items ((s0, p0, v0) # rows) s p = (if s0 = s \<and> p0 = p then v0 # row_items rows s p else row_items rows s p)"
  by (simp_all add: row_items_def)

lemma parse_records_rows:
  assumes "parse_records acc records = Inr st"
  shows "item_of st s p = (case row_items (data_rows records) s p of
             [] \<Rightarrow> item_of acc s p | vs \<Rightarrow> last vs)
    \<and> set (map fst st) = set (map fst acc) \<union> set (map fst (data_rows records))"
  using assms
proof (induction records arbitrary: acc)
  case Nil
  then show ?case by (simp add: data_rows_def)
next
  case (Cons r records)
  then obtain acc' where r: "read_record acc r = Inr acc'" and rs: "parse_records acc' records = Inr st"
    by (auto split: sum.splits)
  note IH = Cons.IH [OF rs]
  have split_rows: "data_rows (r # records) = record_row r @ data_rows records"
    by (simp add: data_rows_def)
  have keys: "set (map fst (set_item acc s0 p0 v0)) = insert s0 (set (map fst acc))" for s0 p0 v0
    by (auto simp: set_item_def image_iff dom_update [unfolded dom_map_of_conv_image_fst])
  show ?case
  proof (cases "record_row r")
    case Nil
    with read_record_Inr [OF r] have "acc' = acc" by simp
    with IH Nil show ?thesis by (simp add: split_rows split: list.split)
  next
    case (Cons row more)
    obtain s0 p0 v0 where row: "row = (s0, p0, v0)" by (cases row) auto
    with read_record_Inr [OF r] Cons have acc': "acc' = set_item acc s0 p0 v0" and "more = []" by auto
    with IH Cons row keys show ?thesis
      by (auto simp: split_rows split: list.split)
  qed
qed

text \<open>C19: The matrix ParseFromCSV returns. Whenever \<open>ParseFromCSV\<close> returns a matrix,
  its stores are those named by the data rows, and the item it holds for a store and
  product is the one of the last data row naming them (a later row overwrites an
  earlier one, as the map assignment of line 58 does), the zero item when no row names
  them.\<close>

theorem parse_from_csv_last_row:
  assumes "parse_from_csv records = Inr st"
  shows "item_of st s p = last_item (data_rows records) s p
    \<and> set (map fst st) = set (map fst (data_rows records))"
proof -
  have "item_of [] s p = zero_item" by (simp add: item_of_def store_of_def)
  with parse_records_rows [of "[]" records st s p] assms show ?thesis
    unfolding last_item_def parse_from_csv_def by (simp split: list.split)
qed

subsection \<open>Writing a matrix and reading it back\<close>

lemma digit_not_space: "is_digit c \<Longrightarrow> \<not> is_space c"
  by (auto simp: is_digit_def is_space_def less_eq_char_def)

lemma trim_left_ascii:
  "\<not> is_space c \<Longrightarrow> of_char c < (128::nat) \<Longrightarrow> trim_left qs (c # cs) = c # cs"
  by simp

lemma trim_space_id:
  assumes "\<forall>c \<in> set s. \<not> is_space c \<and> of_char c < (128::nat)"
  shows "trim_space s = s"
proof -
  have "trim_left qs xs = xs" if "\<forall>c \<in> set xs. \<not> is_space c \<and> of_char c < (128::nat)" for qs xs
    using that by (cases xs) simp_all
  with assms show ?thesis by (simp add: trim_space_def)
qed

lemma itoa_no_space: "\<forall>c \<in> set (itoa i). \<not> is_space c \<and> of_char c < (128::nat)"
proof -
  have "\<forall>c \<in> set (nat_digits n). \<not> is_space c \<and> of_char c < (128::nat)" for n
    using nat_digits_props [of n]
    by (auto simp: list_all_iff digit_not_space is_digit_def less_eq_char_def)
  moreover have "\<not> is_space CHR ''-''" by (simp add: is_space_def)
  ultimately show ?thesis by (simp add: itoa_def)
qed

lemma atoi_itoa: "in_int64 i \<Longrightarrow> atoi (itoa i) = Inr i"
  by (simp add: atoi_parse_int parse_int_itoa in_int64_def)

lemma read_record_row:
  assumes "trim_space s = s" and "trim_space p = p" and "\<not> (s = ''Store'' \<and> p = ''Product'')"
    and "in_int64 (has it)" and "in_int64 (needs it)"
  shows "read_record acc [s, p, itoa (has it), itoa (needs it)] = Inr (set_item acc s p it)"
  using assms by (cases it) (auto simp: read_record_def Let_def trim_space_id itoa_no_space atoi_itoa)

lemma set_item_new:
  "s \<notin> set (map fst acc) \<Longrightarrow> set_item acc s p it = acc @ [(s, [(p, it)])]"
  by (simp add: set_item_def store_of_def lookup_or_notin update_absent)

lemma set_item_last:
  "s \<notin> set (map fst acc) \<Longrightarrow> p \<notin> set (map fst ps0)
   \<Longrightarrow> set_item (acc @ [(s, ps0)]) s p it = acc @ [(s, ps0 @ [(p, it)])]"
  by (simp add: set_item_def store_of_def lookup_or_last update_absent update_last)

lemma parse_store_rows:
  assumes "s \<notin> set (map fst acc)" and "distinct (map fst (ps0 @ ps))" and "trim_space s = s"
    and "\<forall>(p, it) \<in> set ps. trim_space p = p \<and> \<not> (s = ''Store'' \<and> p = ''Product'')
           \<and> in_int64 (has it) \<and> in_int64 (needs it)"
  shows "parse_records (acc @ [(s, ps0)])
           (map (\<lambda>(p, it). [s, p, itoa (has it), itoa (needs it)]) ps @ rest)
         = parse_records (acc @ [(s, ps0 @ ps)]) rest"
  using assms(2,4)
proof (induction ps arbitrary: ps0)
  case Nil
  then show ?case by simp
next
  case (Cons e ps)
  obtain p it where e: "e = (p, it)" by (cases e)
  have "read_record (acc @ [(s, ps0)]) [s, p, itoa (has it), itoa (needs it)]
        = Inr (acc @ [(s, ps0 @ [(p, it)])])"
    using Cons.prems e assms(1,3) by (simp add: read_record_row set_item_last)
  with Cons.IH [of "ps0 @ [(p, it)]"] Cons.prems e show ?case by simp
qed

lemma parse_stores:
  assumes "distinct (map fst (acc @ st))" and "\<forall>(s, ps) \<in> set st. distinct (map fst ps)"
    and "csv_writable st"
  shows "parse_records acc
           (concat (map (\<lambda>(s, ps). map (\<lambda>(p, it). [s, p, itoa (has it), itoa (needs it)]) ps) st))
         = Inr (acc @ st)"
  using assms
proof (induction st arbitrary: acc)
  case Nil
  then show ?case by simp
next
  case (Cons x st)
  obtain s ps where x: "x = (s, ps)" by (cases x)
  with Cons.prems have s: "s \<notin> set (map fst acc)" and ne: "ps \<noteq> []" and t: "trim_space s = s"
    and d: "distinct (map fst ps)"
    and ok: "\<forall>(p, it) \<in> set ps. trim_space p = p \<and> \<not> (s = ''Store'' \<and> p = ''Product'')
           \<and> in_int64 (has it) \<and> in_int64 (needs it)"
    by (auto simp: csv_writable_def)
  obtain p it ps' where ps: "ps = (p, it) # ps'" using ne by (cases ps) auto
  have first: "read_record acc [s, p, itoa (has it), itoa (needs it)] = Inr (acc @ [(s, [(p, it)])])"
    using ok ps s t by (simp add: read_record_row set_item_new)
  have rest: "parse_records (acc @ [(s, [(p, it)])])
      (map (\<lambda>(p, it). [s, p, itoa (has it), itoa (needs it)]) ps' @ r)
      = parse_records (acc @ [(s, ps)]) r" for r
    using parse_store_rows [OF s, of "[(p, it)]" ps'] d ok t ps by simp
  have "parse_records (acc @ [(s, ps)])
      (concat (map (\<lambda>(s, ps). map (\<lambda>(p, it). [s, p, itoa (has it), itoa (needs it)]) ps) st))
      = Inr ((acc @ [(s, ps)]) @ st)"
    using Cons.IH [of "acc @ [(s, ps)]"] Cons.prems x by (simp add: csv_writable_def)
  with first rest x ps show ?case by simp
qed

text \<open>C20: Reading back what was written. A well-formed matrix whose stores all have
  products, whose names carry no surrounding white space and no row of which reads
  as the header, and whose quantities are Go \<open>int\<close>s, is what \<open>ParseFromCSV\<close> returns
  on its rows written with \<open>%d\<close> under the header \<open>Store, Product, Stock, Max\<close>, with
  the same stores and products in the same order.\<close>

theorem parse_stock_records:
  assumes "stock_wf st" and "csv_writable st"
  shows "parse_from_csv (stock_records st) = Inr st"
proof -
  have "read_record [] [''Store'', ''Product'', ''Stock'', ''Max''] = Inr []"
    by (simp add: read_record_def trim_space_def is_space_def)
  moreover have "\<forall>(s, ps) \<in> set st. distinct (map fst ps)" and "distinct (map fst st)"
    using assms(1) by (simp_all add: stock_wf_def)
  ultimately show ?thesis
    using parse_stores [of "[]" st] assms(2)
    by (simp add: parse_from_csv_def stock_records_def)
qed

subsection \<open>Failures\<close>

lemma read_record_error:
  "read_record stock r = Inl e \<Longrightarrow> \<not> record_ok r \<and> (e = Index_panic \<longleftrightarrow> length r < 4)"
  using read_record_ok [of stock r]
  by (auto simp: read_record_def Let_def split: if_splits sum.splits)

lemma parse_records_error:
  "parse_records acc rs = Inl e \<Longrightarrow>
   \<exists>good r rest. rs = good @ r # rest \<and> list_all record_ok good \<and> \<not> record_ok r
     \<and> (e = Index_panic \<longleftrightarrow> length r < 4)"
proof (induction rs arbitrary: acc)
  case Nil
  then show ?case by simp
next
  case (Cons r rs)
  show ?case
  proof (cases "read_record acc r")
    case (Inl e')
    with Cons.prems have "e' = e" by simp
    with Inl read_record_error [of acc r e'] show ?thesis
      by (intro exI [of _ "[]"] exI [of _ r] exI [of _ rs]) simp
  next
    case (Inr acc')
    with Cons.prems have "parse_records acc' rs = Inl e" by simp
    from Cons.IH [OF this] obtain good r' rest where
      "rs = good @ r' # rest" "list_all record_ok good" "\<not> record_ok r'"
      "e = Index_panic \<longleftrightarrow> length r' < 4" by blast
    moreover have "record_ok r" using Inr read_record_ok [of acc r] by blast
    ultimately show ?thesis
      by (intro exI [of _ "r # good"] exI [of _ r'] exI [of _ rest]) simp
  qed
qed

text \<open>C21: Failure comes from the first bad record. When \<open>ParseFromCSV\<close> fails, the
  input has a first record that is neither the header nor a row of two integers,
  every record before it is accepted, and the failure is a panic exactly when that
  record has fewer than four fields (otherwise it is \<open>Atoi\<close>'s error).\<close>

theorem parse_from_csv_error:
  "parse_from_csv records = Inl e \<Longrightarrow>
   \<exists>good r rest. records = good @ r # rest \<and> list_all record_ok good \<and> \<not> record_ok r
     \<and> (e = Index_panic \<longleftrightarrow> length r < 4)"
  unfolding parse_from_csv_def by (rule parse_records_error)

subsection \<open>Concrete inputs\<close>

lemmas csv_eval = parse_from_csv_def read_record_def trim_space_def is_space_def space_runes_def atoi_def
  is_digit_def digit_val_def less_eq_char_def set_item_def store_of_def Let_def

lemmas itoa_eval = itoa_def nat_digits.simps char_of_def bit_simps

text \<open>Fields are trimmed and a negative target is accepted.\<close>

lemma parse_example:
  "parse_from_csv [[''Store'', ''Product'', ''Stock'', ''Max''], ['' Paris'', ''Apples '', '' 7'', ''-9'']]
     = Inr [(''Paris'', [(''Apples'', \<lparr>has = 7, needs = -9\<rparr>)])]"
  by (simp add: csv_eval)

lemma parse_example_error:
  "parse_from_csv [[''Paris'', ''Apples'', ''7x'', ''9'']] = Inl (Num_error Err_syntax ''7x'')"
  by (simp add: csv_eval)

lemma test_stock_writable: "csv_writable test_stock"
  by (simp add: csv_writable_def test_stock_def trim_space_def is_space_def in_int64_def)

text \<open>C22: A header anywhere is skipped. The header test of line 39 is applied to every
  record, not only the first: a data row for a store named \<open>Store\<close> and a product
  named \<open>Product\<close> is silently dropped wherever it stands.\<close>

theorem parse_from_csv_drops_header_row:
  "parse_from_csv [[''Paris'', ''Apples'', ''1'', ''2''], [''Store'', ''Product'', ''5'', ''5'']]
     = Inr [(''Paris'', [(''Apples'', \<lparr>has = 1, needs = 2\<rparr>)])]"
  by (simp add: csv_eval)

end
