(* ===== verification/Command.thy ===== *)
theory Command
  imports Orchestrator Parser
begin

text \<open>
  The \<open>opti\<close> command of \<open>src/cmd/opti.go\<close> (its \<open>Run\<close> function, lines 30--107): read
  the input file, parse it, run the optimisation with the settings taken from the
  flags, and write the committed transfers as CSV.  The file system is the
  environment \<open>cmd_env\<close>: what reading the input gives (the records the CSV reader
  returns, or an error), whether creating, truncating and seeking the output succeed,
  and whether the \<open>n\<close>-th \<open>WriteString\<close> succeeds (a failed write is taken to write
  nothing).  Logging, the progress printer goroutine and the console output are
  modelled in \<open>Console\<close>.
\<close>

record cmd_flags =
  flag_input :: string
  flag_output :: string
  flag_min_products :: int
  flag_max_to :: int
  flag_secure :: "string list"
  flag_destock :: "string list"
  flag_log_level :: string

record cmd_env =
  env_read :: "string \<Rightarrow> unit + string list list"
  env_create_ok :: "string \<Rightarrow> bool"
  env_truncate_ok :: bool
  env_seek_ok :: bool
  env_write_ok :: "nat \<Rightarrow> bool"

text \<open>The flag defaults of lines 123--129; the default output name depends on the
  clock and is a parameter.\<close>

definition default_flags :: "string \<Rightarrow> cmd_flags" where
  "default_flags now =
    \<lparr>flag_input = [], flag_output = ''opti-'' @ now @ ''.csv'', flag_min_products = 20,
     flag_max_to = 4, flag_secure = [], flag_destock = [], flag_log_level = ''warn''\<rparr>"

text \<open>The \<open>opti.Settings\<close> literal of line 59.\<close>

definition cmd_settings :: "cmd_flags \<Rightarrow> settings" where
  "cmd_settings flags =
    \<lparr>max_to = flag_max_to flags, min_products = flag_min_products flags,
     secure_stock_in = flag_secure flags, de_stock_in = flag_destock flags\<rparr>"

text \<open>\<open>strings.HasSuffix\<close>.\<close>

definition has_suffix :: "string \<Rightarrow> string \<Rightarrow> bool" where
  "has_suffix s suf \<longleftrightarrow> length suf \<le> length s \<and> drop (length s - length suf) s = suf"

text \<open>Lines 72--75.\<close>

definition output_path :: "string \<Rightarrow> string" where
  "output_path p = (if has_suffix p ''.csv'' then p else p @ ''.csv'')"

definition newline :: char where
  "newline = CHR 0x0A"

text \<open>Line 95.\<close>

definition output_header :: string where
  "output_header = ''From, To, Product, Quantity'' @ [newline]"

text \<open>The lines of the loop of lines 97--105:
  \<open>fmt.Sprintf("%s,%s,%s,%d\n", t.FromStore, t.ToStore, p.Product, p.Quant)\<close> for every
  product of every transfer, in order.\<close>

definition transfer_line :: "transfer \<Rightarrow> transfered_product \<Rightarrow> string" where
  "transfer_line t p =
    from_store t @ '','' @ to_store t @ '','' @ tp_product p @ '','' @ itoa (quant p) @ [newline]"

definition transfer_lines :: "transfer list \<Rightarrow> string list" where
  "transfer_lines ts = concat (map (\<lambda>t. map (transfer_line t) (products t)) ts)"

text \<open>The writes of the loop, the \<open>i\<close>-th \<open>WriteString\<close> of the run first: the lines
  written, and whether the loop ran to its end (a failed write logs and returns).\<close>

fun write_lines :: "(nat \<Rightarrow> bool) \<Rightarrow> nat \<Rightarrow> string list \<Rightarrow> string list \<times> bool" where
  "write_lines ok i [] = ([], True)"
| "write_lines ok i (l # ls) =
    (if ok i then (let (w, b) = write_lines ok (Suc i) ls in (l # w, b)) else ([], False))"

text \<open>Reading the output back: split at the line feeds (the text ends with one),
  then each line at the commas.\<close>

fun split_on :: "char \<Rightarrow> string \<Rightarrow> string list" where
  "split_on c [] = [[]]"
| "split_on c (x # xs) = (if x = c then [] # split_on c xs else (let r = split_on c xs in (x # hd r) # tl r))"

definition decode_output :: "string \<Rightarrow> string list list" where
  "decode_output text = map (split_on CHR '','') (butlast (split_on newline text))"

datatype cmd_outcome =
    Read_failed
  | Parse_failed parse_error
  | Create_failed
  | Truncate_failed
  | Seek_failed
  | Written string "string list" bool

text \<open>Lines 72--105 of \<open>Run\<close>, once \<open>RunOpti\<close> has returned \<open>optim\<close>: the output
  path, \<open>Create\<close>, \<open>Truncate\<close>, \<open>Seek\<close> and the writes.  The header's
  \<open>WriteString\<close> (write 0) has its result discarded; the row writes are numbered from
  1.  \<open>Written path lines finished\<close> is the file left at \<open>path\<close>, as its lines, and
  whether the row loop completed.\<close>

definition write_output :: "cmd_env \<Rightarrow> cmd_flags \<Rightarrow> optimisation \<Rightarrow> cmd_outcome" where
  "write_output env flags optim =
    (let path = output_path (flag_output flags)
     in if \<not> env_create_ok env path then Create_failed
        else if \<not> env_truncate_ok env then Truncate_failed
        else if \<not> env_seek_ok env then Seek_failed
        else (let header = (if env_write_ok env 0 then [output_header] else []);
                  (rows, complete) = write_lines (env_write_ok env) 1 (transfer_lines (opti_transfers optim))
              in Written path (header @ rows) complete))"

text \<open>The \<open>Run\<close> function: read, parse, \<open>RunOpti\<close> with the flags' settings, write.\<close>

definition opti_command :: "cmd_env \<Rightarrow> cmd_flags \<Rightarrow> cmd_outcome" where
  "opti_command env flags =
    (case env_read env (flag_input flags) of
       Inl _ \<Rightarrow> Read_failed
     | Inr records \<Rightarrow>
         (case parse_from_csv records of
            Inl e \<Rightarrow> Parse_failed e
          | Inr stock \<Rightarrow> write_output env flags (fst (run_opti stock (cmd_settings flags)))))"

subsection \<open>Splitting\<close>

lemma split_on_no_sep: "c \<notin> set a \<Longrightarrow> split_on c a = [a]"
  by (induction a) auto

lemma split_on_append_sep: "c \<notin> set a \<Longrightarrow> split_on c (a @ c # b) = a # split_on c b"
  by (induction a) (auto simp: Let_def)

lemma itoa_chars: "x \<in> set (itoa i) \<Longrightarrow> is_digit x \<or> x = CHR ''-''"
  using nat_digits_props [of "nat i"] nat_digits_props [of "nat (- i)"]
  by (auto simp: itoa_def list_all_iff split: if_splits)

lemma itoa_no_sep: "newline \<notin> set (itoa i)" "CHR '','' \<notin> set (itoa i)"
  using itoa_chars [of newline i] itoa_chars [of "CHR '',''" i]
  by (auto simp: newline_def is_digit_def less_eq_char_def)

text \<open>A text of lines each ending in a line feed splits into the lines' bodies and
  the empty rest after the last line feed.\<close>

lemma split_on_lines:
  assumes "\<forall>l \<in> set ls. \<exists>b. l = b @ [c] \<and> c \<notin> set b"
  shows "split_on c (concat ls) = map butlast ls @ [[]]"
  using assms
proof (induction ls)
  case Nil
  then show ?case by simp
next
  case (Cons l ls)
  then obtain b where l: "l = b @ [c]" and b: "c \<notin> set b" by auto
  have "split_on c (b @ c # concat ls) = b # split_on c (concat ls)"
    using b by (rule split_on_append_sep)
  with Cons.IH Cons.prems l show ?case by simp
qed

text \<open>The four fields of a row come back when no name contains a comma.\<close>

lemma split_transfer_line:
  assumes "CHR '','' \<notin> set (from_store t)" and "CHR '','' \<notin> set (to_store t)"
    and "CHR '','' \<notin> set (tp_product p)"
  shows "split_on CHR '','' (butlast (transfer_line t p))
         = [from_store t, to_store t, tp_product p, itoa (quant p)]"
  using assms itoa_no_sep (2) [of "quant p"]
  by (simp add: transfer_line_def split_on_append_sep split_on_no_sep butlast_append)

subsection \<open>Writing\<close>

lemma write_lines_prefix:
  "write_lines ok i ls = (w, b) \<Longrightarrow> (\<exists>r. ls = w @ r) \<and> (b \<longleftrightarrow> w = ls)"
proof (induction ok i ls arbitrary: w b rule: write_lines.induct)
  case (1 ok i)
  then show ?case by simp
next
  case (2 ok i l ls)
  show ?case
  proof (cases "ok i")
    case True
    obtain w' b' where r: "write_lines ok (Suc i) ls = (w', b')" by fastforce
    with 2 True show ?thesis by auto
  next
    case False
    with "2.prems" show ?thesis by auto
  qed
qed

lemma write_lines_all_ok:
  "(\<forall>j. i \<le> j \<longrightarrow> ok j) \<Longrightarrow> write_lines ok i ls = (ls, True)"
  by (induction ok i ls rule: write_lines.induct) auto

lemma output_path_csv: "has_suffix (output_path p) ''.csv''"
  by (simp add: output_path_def has_suffix_def)

lemma opti_command_written:
  assumes "opti_command env flags = Written path lines finished"
  obtains records stock where "env_read env (flag_input flags) = Inr records"
    and "parse_from_csv records = Inr stock" and "path = output_path (flag_output flags)"
    and "(lines, finished) = ((if env_write_ok env 0 then [output_header] else [])
           @ fst (write_lines (env_write_ok env) 1
                    (transfer_lines (opti_transfers (fst (run_opti stock (cmd_settings flags)))))),
           snd (write_lines (env_write_ok env) 1
                    (transfer_lines (opti_transfers (fst (run_opti stock (cmd_settings flags)))))))"
  using assms
  by (auto simp: opti_command_def write_output_def Let_def split: sum.splits if_splits prod.splits)

subsection \<open>Properties of the command\<close>

text \<open>C23: No output without a parsed input. The command leaves an output file only
  when the input was read and parsed; a parse failure (or a read failure) ends it
  with no file, and the file it writes is named by the output flag with \<open>.csv\<close>
  appended unless already there.\<close>

theorem opti_command_needs_parse:
  assumes "opti_command env flags = Written path lines finished"
  shows "\<exists>records stock. env_read env (flag_input flags) = Inr records
           \<and> parse_from_csv records = Inr stock
           \<and> path = output_path (flag_output flags) \<and> has_suffix path ''.csv''"
  using assms by (elim opti_command_written) (auto simp: output_path_csv)

text \<open>C24: The output of a completed run. When every write succeeds, the file holds the
  header and then one line per product of every transfer \<open>RunOpti\<close> committed on the
  parsed input, in commit order: one more line than the number of products moved.\<close>

theorem opti_command_output:
  assumes "opti_command env flags = Written path lines True" and "env_write_ok env 0"
  shows "\<exists>stock. parse_from_csv (projr (env_read env (flag_input flags))) = Inr stock
    \<and> lines = output_header # transfer_lines (opti_transfers (fst (run_opti stock (cmd_settings flags))))
    \<and> length lines = 1 + sum_list (map (\<lambda>t. length (products t))
                                        (opti_transfers (fst (run_opti stock (cmd_settings flags)))))"
proof -
  obtain records stock where r: "env_read env (flag_input flags) = Inr records"
    and p: "parse_from_csv records = Inr stock"
    and l: "(lines, True) = ((if env_write_ok env 0 then [output_header] else [])
           @ fst (write_lines (env_write_ok env) 1
                    (transfer_lines (opti_transfers (fst (run_opti stock (cmd_settings flags)))))),
           snd (write_lines (env_write_ok env) 1
                    (transfer_lines (opti_transfers (fst (run_opti stock (cmd_settings flags)))))))"
    using assms(1) by (rule opti_command_written)
  let ?ls = "transfer_lines (opti_transfers (fst (run_opti stock (cmd_settings flags))))"
  obtain w b where wb: "write_lines (env_write_ok env) 1 ?ls = (w, b)" by fastforce
  with write_lines_prefix [OF wb] l have "w = ?ls" and "lines = output_header # ?ls"
    using assms(2) by auto
  moreover have "length ?ls = sum_list (map (\<lambda>t. length (products t))
      (opti_transfers (fst (run_opti stock (cmd_settings flags)))))"
    by (simp add: transfer_lines_def length_concat comp_def)
  ultimately show ?thesis using r p by simp
qed

text \<open>C25: The output reads back. When no store or product name contains a comma or
  a line feed, splitting the written text at line feeds and commas gives the header's
  four fields and then, for every product of every transfer in order, its source,
  destination, product and quantity in \<open>%d\<close> form.\<close>

theorem decode_output_lines:
  assumes "\<forall>t \<in> set ts. CHR '','' \<notin> set (from_store t) \<and> CHR '','' \<notin> set (to_store t)
      \<and> newline \<notin> set (from_store t) \<and> newline \<notin> set (to_store t)
      \<and> (\<forall>p \<in> set (products t). CHR '','' \<notin> set (tp_product p) \<and> newline \<notin> set (tp_product p))"
  shows "decode_output (concat (output_header # transfer_lines ts))
    = [''From'', '' To'', '' Product'', '' Quantity'']
      # concat (map (\<lambda>t. map (\<lambda>p. [from_store t, to_store t, tp_product p, itoa (quant p)]) (products t)) ts)"
proof -
  have nl: "newline \<noteq> CHR '',''" by (simp add: newline_def)
  have lines: "\<forall>l \<in> set (output_header # transfer_lines ts). \<exists>b. l = b @ [newline] \<and> newline \<notin> set b"
    using assms nl itoa_no_sep (1)
    by (auto simp: output_header_def transfer_lines_def transfer_line_def newline_def)
  have rows: "map (split_on CHR '','') (map butlast (transfer_lines ts))
      = concat (map (\<lambda>t. map (\<lambda>p. [from_store t, to_store t, tp_product p, itoa (quant p)]) (products t)) ts)"
    using assms by (induction ts) (auto simp: transfer_lines_def split_transfer_line)
  have "split_on CHR '','' (butlast output_header) = [''From'', '' To'', '' Product'', '' Quantity'']"
    by (simp add: output_header_def newline_def)
  with split_on_lines [OF lines] rows show ?thesis
    by (simp add: decode_output_def butlast_append)
qed

end
