(* ===== verification/Console.thy ===== *)
theory Console
  imports Command
begin

text \<open>
  What the program writes on standard output.  \<open>main.go\<close> sets the logger up (JSON
  entries, written to standard output, warn level) before \<open>cmd.Execute()\<close> runs the
  \<open>opti\<close> command; the command's \<open>Run\<close> (\<open>src/cmd/opti.go\<close>) sets the level from
  its \<open>-l\<close> flag, logs each failure with \<open>log.Error\<close>, and prints the progress: a
  printer goroutine writes every value \<open>RunOpti\<close> sends on the unbuffered
  \<open>progress\<close> channel (lines 61--65) while the command goroutine, once \<open>RunOpti\<close>
  has returned, writes the 100\% line and the OSA line (lines 67--69) and goes on to
  write the file.  The two goroutines are an interleaving (\<open>console_step\<close>) whose
  complete runs are the outputs \<open>console_outputs\<close> lists.  A console is a list of
  \<open>console_item\<close>s: one per \<open>Printf\<close> or per log entry (the JSON text of an entry
  carries the clock and is not modelled); the \<open>Debug\<close> and \<open>Info\<close> entries of
  \<open>RunOpti\<close> and \<open>ParseFromCSV\<close> are left out of it.
\<close>

subsection \<open>The logger\<close>

text \<open>\<open>logrus.Level\<close>: the levels in their numeric order, \<open>PanicLevel = 0\<close> first.\<close>

datatype log_level = PanicLevel | FatalLevel | ErrorLevel | WarnLevel | InfoLevel | DebugLevel | TraceLevel

fun level_num :: "log_level \<Rightarrow> nat" where
  "level_num PanicLevel = 0"
| "level_num FatalLevel = 1"
| "level_num ErrorLevel = 2"
| "level_num WarnLevel = 3"
| "level_num InfoLevel = 4"
| "level_num DebugLevel = 5"
| "level_num TraceLevel = 6"

instantiation log_level :: linorder
begin

definition less_eq_log_level :: "log_level \<Rightarrow> log_level \<Rightarrow> bool" where
  "l \<le> m \<longleftrightarrow> level_num l \<le> level_num m"

definition less_log_level :: "log_level \<Rightarrow> log_level \<Rightarrow> bool" where
  "l < m \<longleftrightarrow> level_num l < level_num m"

instance
proof
  fix x y z :: log_level
  show "x < y \<longleftrightarrow> x \<le> y \<and> \<not> y \<le> x" by (auto simp: less_eq_log_level_def less_log_level_def)
  show "x \<le> x" by (simp add: less_eq_log_level_def)
  show "x \<le> y \<Longrightarrow> y \<le> z \<Longrightarrow> x \<le> z" by (simp add: less_eq_log_level_def)
  show "x \<le> y \<Longrightarrow> y \<le> x \<Longrightarrow> x = y" by (cases x; cases y) (simp_all add: less_eq_log_level_def)
  show "x \<le> y \<or> y \<le> x" by (auto simp: less_eq_log_level_def)
qed

end

text \<open>\<open>strings.ToLower\<close> as far as it decides which level a string names.  The
  string is UTF-8; \<open>unicode.ToLower\<close> maps the ASCII capitals to small letters, and
  exactly two other runes to ASCII letters: U+0130 (bytes \<open>C4 B0\<close>) to \<open>i\<close> and
  the Kelvin sign U+212A (\<open>E2 84 AA\<close>) to \<open>k\<close>.  Every other rune, and the
  replacement rune for invalid UTF-8, lowers to a non-ASCII rune; \<open>go_lower\<close> leaves
  its bytes as they are, which keeps them non-ASCII and so gives the same answer to
  every comparison with a level's name.\<close>

definition ascii_lower :: "char \<Rightarrow> char" where
  "ascii_lower c = (if CHR ''A'' \<le> c \<and> c \<le> CHR ''Z'' then char_of (of_char c + (32::nat)) else c)"

fun go_lower :: "string \<Rightarrow> string" where
  "go_lower [] = []"
| "go_lower (c # cs) =
    (if c = CHR 0xC4 \<and> take 1 cs = [CHR 0xB0] then CHR ''i'' # go_lower (drop 1 cs)
     else if c = CHR 0xE2 \<and> take 2 cs = [CHR 0x84, CHR 0xAA] then CHR ''k'' # go_lower (drop 2 cs)
     else ascii_lower c # go_lower cs)"

text \<open>\<open>logrus.ParseLevel\<close>: \<open>None\<close> is its error result, returned with the level
  \<open>0\<close>.\<close>

definition parse_level :: "string \<Rightarrow> log_level option" where
  "parse_level s =
    (let l = go_lower s in
     if l = ''panic'' then Some PanicLevel
     else if l = ''fatal'' then Some FatalLevel
     else if l = ''error'' then Some ErrorLevel
     else if l = ''warn'' \<or> l = ''warning'' then Some WarnLevel
     else if l = ''info'' then Some InfoLevel
     else if l = ''debug'' then Some DebugLevel
     else if l = ''trace'' then Some TraceLevel
     else None)"

text \<open>The logger's settings: JSON or text entries, standard output or standard error,
  the level.\<close>

record logger =
  log_json :: bool
  log_stdout :: bool
  log_lvl :: log_level

text \<open>The standard logger of \<open>logrus\<close> before \<open>main.go\<close> runs.\<close>

definition logrus_default :: logger where
  "logrus_default = \<lparr>log_json = False, log_stdout = False, log_lvl = InfoLevel\<rparr>"

text \<open>The \<open>init\<close> function of \<open>main.go\<close> (lines 15--25).\<close>

definition main_init :: "logger \<Rightarrow> logger" where
  "main_init lg = lg\<lparr>log_json := True, log_stdout := True, log_lvl := WarnLevel\<rparr>"

text \<open>Lines 31--33 of \<open>cmd/opti.go\<close>: \<open>level, _ := log.ParseLevel(logLevel)\<close> discards
  the error, so an unknown name gives level \<open>0\<close>, \<open>PanicLevel\<close>.\<close>

definition cmd_log_level :: "string \<Rightarrow> log_level" where
  "cmd_log_level s = (case parse_level s of Some l \<Rightarrow> l | None \<Rightarrow> PanicLevel)"

subsection \<open>Console items\<close>

text \<open>The error each \<open>log.Error(err)\<close> of \<open>Run\<close> logs, by the call that failed.\<close>

datatype log_msg = Read_error | Parse_error parse_error | Create_error | Truncate_error
  | Seek_error | Write_error

datatype console_item = Print string | Log log_level log_msg

text \<open>\<open>log.Error\<close>: an entry on standard output when the logger writes there and the
  error level is enabled (\<open>logger.IsLevelEnabled\<close>: the level at most the logger's).\<close>

definition log_error :: "logger \<Rightarrow> log_msg \<Rightarrow> console_item list" where
  "log_error lg m = (if log_stdout lg \<and> ErrorLevel \<le> log_lvl lg then [Log ErrorLevel m] else [])"

text \<open>\<open>strconv.FormatFloat(x, 'f', prec, 64)\<close>, the \<open>%.<prec>f\<close> verb, on the
  exact value: rounded to \<open>prec\<close> decimals, a tie to the even neighbour, the sign kept.
  The \<open>prec\<close> decimals are those of \<open>10^prec + n mod 10^prec\<close> after its leading
  \<open>1\<close>, which pads them with zeros on the left.\<close>

definition round_half_even :: "rat \<Rightarrow> int" where
  "round_half_even x =
    (let f = \<lfloor>x\<rfloor>; r = x - of_int f in
     if r > 1/2 then f + 1 else if r < 1/2 then f else if even f then f else f + 1)"

definition fmt_fixed :: "nat \<Rightarrow> rat \<Rightarrow> string" where
  "fmt_fixed prec x =
    (let n = round_half_even (\<bar>x\<bar> * 10 ^ prec);
         frac = tl (itoa (10 ^ prec + n mod 10 ^ prec));
         digits = itoa (n div 10 ^ prec) @ (if prec = 0 then [] else CHR ''.'' # frac)
     in if x < 0 then CHR ''-'' # digits else digits)"

definition carriage_return :: char where
  "carriage_return = CHR 0x0D"

text \<open>Line 63: \<open>fmt.Printf("\rProgress: %d%%", p)\<close>.\<close>

definition progress_line :: "int \<Rightarrow> string" where
  "progress_line p = carriage_return # ''Progress: '' @ itoa p @ ''%''"

text \<open>Line 68.\<close>

definition progress_done :: string where
  "progress_done = carriage_return # ''Progress: 100%'' @ [newline]"

text \<open>Line 69: \<open>fmt.Printf("OSA increased: +%.2f%%\n", optim.OSAIncrease)\<close>.\<close>

definition osa_line :: "rat \<Rightarrow> string" where
  "osa_line q = ''OSA increased: +'' @ fmt_fixed 2 q @ ''%'' @ [newline]"

subsection \<open>The printer and the command goroutine\<close>

text \<open>The command goroutine waits for \<open>RunOpti\<close>'s result (holding what it will write
  after it), then writes its items, then ends the process.  The printer has received
  the value \<open>c_held\<close> and not yet printed it; \<open>c_sends\<close> are the values \<open>RunOpti\<close>
  has still to send.\<close>

datatype main_pc = Await_resp "console_item list" | Emit "console_item list" | Exited

record console_conf =
  c_sends :: "int list"
  c_held :: "int option"
  c_main :: main_pc
  c_out :: "console_item list"

definition console_init :: "int list \<Rightarrow> console_item list \<Rightarrow> console_conf" where
  "console_init ps after = \<lparr>c_sends = ps, c_held = None, c_main = Await_resp after, c_out = []\<rparr>"

text \<open>A send on the unbuffered channel completes when the printer receives
  (\<open>recv\<close>); the printer prints what it received before it receives again
  (\<open>print\<close>), unless the process has ended; \<open>RunOpti\<close> returns, and \<open>resp\<close> is
  received, once every value is sent (\<open>resp\<close>); the command goroutine writes its items
  in order (\<open>emit\<close>) and the process ends when \<open>Run\<close> returns (\<open>finish\<close>).  The
  channel is never closed: the printer is still running then.\<close>

inductive console_step :: "console_conf \<Rightarrow> console_conf \<Rightarrow> bool" where
  recv: "c_held c = None \<Longrightarrow> c_sends c = p # ps
    \<Longrightarrow> console_step c (c\<lparr>c_sends := ps, c_held := Some p\<rparr>)"
| print: "c_held c = Some p \<Longrightarrow> c_main c \<noteq> Exited
    \<Longrightarrow> console_step c (c\<lparr>c_held := None, c_out := c_out c @ [Print (progress_line p)]\<rparr>)"
| resp: "c_sends c = [] \<Longrightarrow> c_main c = Await_resp after
    \<Longrightarrow> console_step c (c\<lparr>c_main := Emit after\<rparr>)"
| emit: "c_main c = Emit (i # is)
    \<Longrightarrow> console_step c (c\<lparr>c_main := Emit is, c_out := c_out c @ [i]\<rparr>)"
| finish: "c_main c = Emit [] \<Longrightarrow> console_step c (c\<lparr>c_main := Exited\<rparr>)"

text \<open>The lines the printer writes for the values \<open>ps\<close>, in order.\<close>

definition progress_prints :: "int list \<Rightarrow> console_item list" where
  "progress_prints ps = map (\<lambda>p. Print (progress_line p)) ps"

text \<open>The outputs of the complete runs: every value but the last printed first, in
  order; the last one printed anywhere among the command goroutine's items, or lost
  when the process ends first.\<close>

definition console_outputs :: "int list \<Rightarrow> console_item list \<Rightarrow> console_item list list" where
  "console_outputs ps after =
    (if ps = [] then [after]
     else (let pre = progress_prints (butlast ps);
               l = Print (progress_line (last ps))
           in map (\<lambda>i. pre @ take i after @ l # drop i after) [0..<Suc (length after)]
              @ [pre @ after]))"

subsection \<open>The command's console\<close>

text \<open>The entries each outcome of \<open>Run\<close> logs: the early returns of lines 37--93 and
  a failed row write (lines 100--103).  A number \<open>ParseFromCSV\<close> cannot read is
  logged twice: by the parser (\<open>src/stockparser/stockparser.go\<close>, lines 49 and 55)
  and again by \<open>Run\<close> (line 42), both on the same logger.  A record too short for
  \<open>record[i]\<close> panics instead: the panic is written on standard error.\<close>

fun outcome_log :: "logger \<Rightarrow> cmd_outcome \<Rightarrow> console_item list" where
  "outcome_log lg Read_failed = log_error lg Read_error"
| "outcome_log lg (Parse_failed Index_panic) = []"
| "outcome_log lg (Parse_failed e) = log_error lg (Parse_error e) @ log_error lg (Parse_error e)"
| "outcome_log lg Create_failed = log_error lg Create_error"
| "outcome_log lg Truncate_failed = log_error lg Truncate_error"
| "outcome_log lg Seek_failed = log_error lg Seek_error"
| "outcome_log lg (Written path lines finished) = (if finished then [] else log_error lg Write_error)"

text \<open>The possible consoles of \<open>Run\<close> started with the logger \<open>lg0\<close>: with a parsed
  input, the progress printer's lines interleaved with the 100\% line, the OSA line
  and the entry of a failure to write the file.\<close>

definition opti_console :: "logger \<Rightarrow> cmd_env \<Rightarrow> cmd_flags \<Rightarrow> console_item list list" where
  "opti_console lg0 env flags =
    (let lg = lg0\<lparr>log_lvl := cmd_log_level (flag_log_level flags)\<rparr>;
         outcome = opti_command env flags
     in case env_read env (flag_input flags) of
          Inl _ \<Rightarrow> [outcome_log lg outcome]
        | Inr records \<Rightarrow>
            (case parse_from_csv records of
               Inl _ \<Rightarrow> [outcome_log lg outcome]
             | Inr stock \<Rightarrow>
                 (let r = run_opti stock (cmd_settings flags)
                  in console_outputs (snd r)
                       (Print progress_done # Print (osa_line (osa_increase (fst r)))
                        # outcome_log lg outcome))))"

text \<open>\<open>main()\<close> of \<open>main.go\<close> (lines 27--29): the logger set up by \<open>init\<close>, then
  \<open>cmd.Execute()\<close>, which runs the \<open>opti\<close> command with the flags it parsed.\<close>

definition dstock_main :: "cmd_env \<Rightarrow> cmd_flags \<Rightarrow> console_item list list" where
  "dstock_main env flags = opti_console (main_init logrus_default) env flags"

subsection \<open>Reachable configurations\<close>

text \<open>The configurations reachable from \<open>console_init ps after\<close>: before \<open>RunOpti\<close>
  returns, a prefix of the values sent and all but possibly the last received one
  printed; after it, a prefix \<open>e\<close> of the command goroutine's items written and the
  last value still held, already printed among them, or (only when there is none)
  nothing.\<close>

definition console_inv :: "int list \<Rightarrow> console_item list \<Rightarrow> console_conf \<Rightarrow> bool" where
  "console_inv ps after c \<longleftrightarrow>
    (case c_main c of
       Await_resp a \<Rightarrow> a = after \<and> (\<exists>j \<le> length ps. c_sends c = drop j ps
          \<and> (c_held c = None \<and> c_out c = progress_prints (take j ps)
             \<or> 0 < j \<and> c_held c = Some (ps ! (j - 1)) \<and> c_out c = progress_prints (take (j - 1) ps)))
     | m \<Rightarrow> c_sends c = [] \<and> (\<exists>e. (m = Exited \<and> e = after \<or> (\<exists>rest. m = Emit rest \<and> after = e @ rest))
          \<and> (ps = [] \<and> c_held c = None \<and> c_out c = e
             \<or> ps \<noteq> [] \<and> (c_held c = Some (last ps) \<and> c_out c = progress_prints (butlast ps) @ e
                 \<or> c_held c = None \<and> (\<exists>i \<le> length e. c_out c = progress_prints (butlast ps)
                       @ take i e @ Print (progress_line (last ps)) # drop i e)))))"

text \<open>Every step lowers this count: two per value still to send, one for a value held,
  and the command goroutine's remaining items.\<close>

fun pc_measure :: "main_pc \<Rightarrow> nat" where
  "pc_measure (Await_resp a) = length a + 2"
| "pc_measure (Emit r) = length r + 1"
| "pc_measure Exited = 0"

definition console_measure :: "console_conf \<Rightarrow> nat" where
  "console_measure c = 2 * length (c_sends c) + (if c_held c = None then 0 else 1) + pc_measure (c_main c)"

subsection \<open>Invariant and runs\<close>

lemma console_inv_init: "console_inv ps after (console_init ps after)"
  by (auto simp: console_inv_def console_init_def progress_prints_def)

lemma console_step_inv:
  assumes "console_step c c'" and "console_inv ps after c"
  shows "console_inv ps after c'"
  using assms
proof (induction rule: console_step.induct)
  case (recv c p qs)
  show ?case
  proof (cases "c_main c")
    case (Await_resp a)
    with recv obtain j where j: "j \<le> length ps" "drop j ps = p # qs"
      "c_out c = progress_prints (take j ps)" "a = after"
      by (auto simp: console_inv_def)
    with drop_eq_Cons [OF j(2)] show ?thesis using Await_resp
      by (auto simp: console_inv_def intro!: exI [of _ "Suc j"])
  qed (use recv in \<open>auto simp: console_inv_def\<close>)
next
  case (print c p)
  show ?case
  proof (cases "c_main c")
    case (Await_resp a)
    with print obtain j where j: "0 < j" "j \<le> length ps" "c_sends c = drop j ps" "p = ps ! (j - 1)"
      "c_out c = progress_prints (take (j - 1) ps)" "a = after"
      by (auto simp: console_inv_def)
    then have "take j ps = take (j - 1) ps @ [ps ! (j - 1)]"
      by (metis Suc_diff_1 Suc_le_lessD diff_less less_one take_Suc_conv_app_nth zero_less_diff)
    with j show ?thesis using Await_resp
      by (auto simp: console_inv_def progress_prints_def intro!: exI [of _ j])
  next
    case (Emit rest)
    with print obtain e where e: "after = e @ rest" "c_sends c = []" "ps \<noteq> []" "p = last ps"
      "c_out c = progress_prints (butlast ps) @ e"
      by (auto simp: console_inv_def)
    then show ?thesis using Emit
      by (auto simp: console_inv_def intro!: exI [of _ e] exI [of _ "length e"])
  qed (use print in simp)
next
  case (resp c a)
  then obtain j where j: "j \<le> length ps" "drop j ps = []" "a = after"
      "c_held c = None \<and> c_out c = progress_prints (take j ps)
       \<or> 0 < j \<and> c_held c = Some (ps ! (j - 1)) \<and> c_out c = progress_prints (take (j - 1) ps)"
    by (auto simp: console_inv_def)
  then have jl: "j = length ps" by simp
  show ?case
  proof (cases "ps = []")
    case True
    with j jl resp show ?thesis by (auto simp: console_inv_def progress_prints_def)
  next
    case False
    have "progress_prints ps = progress_prints (butlast ps) @ [Print (progress_line (last ps))]"
      using False by (metis append_butlast_last_id list.map(1,2) map_append progress_prints_def)
    moreover have "take (j - 1) ps = butlast ps" "ps ! (j - 1) = last ps"
      using jl False by (simp_all add: butlast_conv_take last_conv_nth)
    ultimately show ?thesis using j jl resp False
      by (auto simp: console_inv_def intro!: exI [of _ "[]::console_item list"])
  qed
next
  case (emit c i "is")
  then obtain e where e: "after = e @ i # is" "c_sends c = []"
      "ps = [] \<and> c_held c = None \<and> c_out c = e
       \<or> ps \<noteq> [] \<and> (c_held c = Some (last ps) \<and> c_out c = progress_prints (butlast ps) @ e
           \<or> c_held c = None \<and> (\<exists>k \<le> length e. c_out c = progress_prints (butlast ps)
                 @ take k e @ Print (progress_line (last ps)) # drop k e))"
    by (auto simp: console_inv_def)
  from e(3) consider (none) "ps = []" "c_held c = None" "c_out c = e"
    | (held) "ps \<noteq> []" "c_held c = Some (last ps)" "c_out c = progress_prints (butlast ps) @ e"
    | (printed) k where "ps \<noteq> []" "c_held c = None" "k \<le> length e"
        "c_out c = progress_prints (butlast ps) @ take k e @ Print (progress_line (last ps)) # drop k e"
    by auto
  then show ?case
  proof cases
    case printed
    then show ?thesis using emit e
      by (auto simp: console_inv_def intro!: exI [of _ "e @ [i]"] exI [of _ k])
  qed (use emit e in \<open>auto simp: console_inv_def intro!: exI [of _ "e @ [i]"]\<close>)
next
  case (finish c)
  then show ?case by (auto simp: console_inv_def)
qed

lemma console_reach_inv:
  "console_step\<^sup>*\<^sup>* (console_init ps after) c \<Longrightarrow> console_inv ps after c"
  by (induction rule: rtranclp_induct) (auto intro: console_inv_init console_step_inv)

lemma console_outputs_iff:
  "out \<in> set (console_outputs ps after) \<longleftrightarrow>
    (ps = [] \<and> out = after)
    \<or> (ps \<noteq> [] \<and> (out = progress_prints (butlast ps) @ after
        \<or> (\<exists>i \<le> length after. out = progress_prints (butlast ps) @ take i after
                                   @ Print (progress_line (last ps)) # drop i after)))"
  by (auto simp: console_outputs_def Let_def image_iff atLeast0LessThan lessThan_Suc_atMost
      simp del: upt_Suc)

lemma console_final_outputs:
  assumes "console_step\<^sup>*\<^sup>* (console_init ps after) c" and "c_main c = Exited"
  shows "c_out c \<in> set (console_outputs ps after)"
proof -
  from console_reach_inv [OF assms(1)] assms(2)
  consider (none) "ps = []" "c_out c = after"
    | (lost) "ps \<noteq> []" "c_out c = progress_prints (butlast ps) @ after"
    | (printed) i where "ps \<noteq> []" "i \<le> length after"
        "c_out c = progress_prints (butlast ps) @ take i after @ Print (progress_line (last ps)) # drop i after"
    by (auto simp: console_inv_def)
  then show ?thesis by cases (auto simp: console_outputs_iff)
qed

lemma recv_print_steps:
  "c_held c = None \<Longrightarrow> c_main c \<noteq> Exited \<Longrightarrow> c_sends c = xs @ ys
   \<Longrightarrow> console_step\<^sup>*\<^sup>* c (c\<lparr>c_sends := ys, c_out := c_out c @ progress_prints xs\<rparr>)"
proof (induction xs arbitrary: c)
  case Nil
  then show ?case by (cases c) (simp add: progress_prints_def)
next
  case (Cons x xs)
  let ?c1 = "c\<lparr>c_sends := xs @ ys, c_held := Some x\<rparr>"
  let ?c2 = "?c1\<lparr>c_held := None, c_out := c_out ?c1 @ [Print (progress_line x)]\<rparr>"
  have "console_step c ?c1" using Cons.prems by (intro console_step.recv) simp_all
  moreover have "console_step ?c1 ?c2" using Cons.prems by (intro console_step.print) simp_all
  moreover have "console_step\<^sup>*\<^sup>* ?c2 (?c2\<lparr>c_sends := ys, c_out := c_out ?c2 @ progress_prints xs\<rparr>)"
    using Cons.prems by (intro Cons.IH) simp_all
  moreover have "?c2\<lparr>c_sends := ys, c_out := c_out ?c2 @ progress_prints xs\<rparr>
      = c\<lparr>c_sends := ys, c_out := c_out c @ progress_prints (x # xs)\<rparr>"
    using Cons.prems by (cases c) (simp add: progress_prints_def)
  ultimately show ?case
    by (metis (no_types, lifting) converse_rtranclp_into_rtranclp)
qed

lemma emit_steps:
  "c_main c = Emit (xs @ ys) \<Longrightarrow> console_step\<^sup>*\<^sup>* c (c\<lparr>c_main := Emit ys, c_out := c_out c @ xs\<rparr>)"
proof (induction xs arbitrary: c)
  case Nil
  then show ?case by (cases c) simp
next
  case (Cons x xs)
  let ?c1 = "c\<lparr>c_main := Emit (xs @ ys), c_out := c_out c @ [x]\<rparr>"
  have "console_step c ?c1" using Cons.prems by (intro console_step.emit) simp
  moreover have "console_step\<^sup>*\<^sup>* ?c1 (?c1\<lparr>c_main := Emit ys, c_out := c_out ?c1 @ xs\<rparr>)"
    by (intro Cons.IH) simp
  ultimately show ?case by (simp add: converse_rtranclp_into_rtranclp)
qed

lemma emit_finish_steps:
  "c_main c = Emit xs \<Longrightarrow> console_step\<^sup>*\<^sup>* c (c\<lparr>c_main := Exited, c_out := c_out c @ xs\<rparr>)"
proof -
  assume "c_main c = Emit xs"
  then have "console_step\<^sup>*\<^sup>* c (c\<lparr>c_main := Emit [], c_out := c_out c @ xs\<rparr>)"
    using emit_steps [of c xs "[]"] by simp
  moreover have "console_step (c\<lparr>c_main := Emit [], c_out := c_out c @ xs\<rparr>)
      (c\<lparr>c_main := Exited, c_out := c_out c @ xs\<rparr>)"
    using console_step.finish [of "c\<lparr>c_main := Emit [], c_out := c_out c @ xs\<rparr>"] by (cases c) simp
  ultimately show ?thesis by (rule rtranclp.rtrancl_into_rtrancl)
qed

text \<open>Up to \<open>RunOpti\<close>'s return: every value but the last sent and printed, the last
  one received and held.\<close>

lemma console_to_resp:
  assumes "ps \<noteq> []"
  shows "console_step\<^sup>*\<^sup>* (console_init ps after)
    \<lparr>c_sends = [], c_held = Some (last ps), c_main = Emit after, c_out = progress_prints (butlast ps)\<rparr>"
proof -
  let ?c0 = "console_init ps after"
  let ?c1 = "?c0\<lparr>c_sends := [last ps], c_out := c_out ?c0 @ progress_prints (butlast ps)\<rparr>"
  have "console_step\<^sup>*\<^sup>* ?c0 ?c1"
    using assms by (intro recv_print_steps) (simp_all add: console_init_def)
  moreover have "console_step ?c1 (?c1\<lparr>c_sends := [], c_held := Some (last ps)\<rparr>)"
    by (intro console_step.recv) (simp_all add: console_init_def)
  moreover have "console_step (?c1\<lparr>c_sends := [], c_held := Some (last ps)\<rparr>)
      (?c1\<lparr>c_sends := [], c_held := Some (last ps), c_main := Emit after\<rparr>)"
    by (intro console_step.resp) (simp_all add: console_init_def)
  ultimately show ?thesis
    by (simp add: console_init_def rtranclp.rtrancl_into_rtrancl)
qed

lemma console_run_printed:
  assumes "ps \<noteq> []" and "i \<le> length after"
  shows "\<exists>c. console_step\<^sup>*\<^sup>* (console_init ps after) c \<and> c_main c = Exited
    \<and> c_out c = progress_prints (butlast ps) @ take i after @ Print (progress_line (last ps)) # drop i after"
proof -
  let ?c = "\<lparr>c_sends = [], c_held = Some (last ps), c_main = Emit after, c_out = progress_prints (butlast ps)\<rparr>"
  let ?d = "?c\<lparr>c_main := Emit (drop i after), c_out := c_out ?c @ take i after\<rparr>"
  let ?e = "?d\<lparr>c_held := None, c_out := c_out ?d @ [Print (progress_line (last ps))]\<rparr>"
  have "console_step\<^sup>*\<^sup>* ?c ?d" using emit_steps [of ?c "take i after" "drop i after"] by simp
  moreover have "console_step ?d ?e" by (intro console_step.print) simp_all
  moreover have "console_step\<^sup>*\<^sup>* ?e (?e\<lparr>c_main := Exited, c_out := c_out ?e @ drop i after\<rparr>)"
    by (intro emit_finish_steps) simp
  ultimately have "console_step\<^sup>*\<^sup>* ?c (?e\<lparr>c_main := Exited, c_out := c_out ?e @ drop i after\<rparr>)"
    by (meson rtranclp.rtrancl_into_rtrancl rtranclp_trans)
  with console_to_resp [OF assms(1), of after] show ?thesis
    by (intro exI [of _ "?e\<lparr>c_main := Exited, c_out := c_out ?e @ drop i after\<rparr>"]) (auto intro: rtranclp_trans)
qed

lemma console_run_lost:
  "\<exists>c. console_step\<^sup>*\<^sup>* (console_init ps after) c \<and> c_main c = Exited
     \<and> c_out c = progress_prints (butlast ps) @ after"
proof (cases "ps = []")
  case True
  let ?c = "(console_init ps after)\<lparr>c_main := Emit after\<rparr>"
  have "console_step (console_init ps after) ?c"
    using True by (intro console_step.resp) (simp_all add: console_init_def)
  moreover have "console_step\<^sup>*\<^sup>* ?c (?c\<lparr>c_main := Exited, c_out := c_out ?c @ after\<rparr>)"
    by (intro emit_finish_steps) simp
  ultimately show ?thesis using True
    by (intro exI [of _ "?c\<lparr>c_main := Exited, c_out := c_out ?c @ after\<rparr>"])
       (auto simp: console_init_def progress_prints_def intro: converse_rtranclp_into_rtranclp)
next
  case False
  let ?c = "\<lparr>c_sends = [], c_held = Some (last ps), c_main = Emit after, c_out = progress_prints (butlast ps)\<rparr>"
  have "console_step\<^sup>*\<^sup>* ?c (?c\<lparr>c_main := Exited, c_out := c_out ?c @ after\<rparr>)"
    by (intro emit_finish_steps) simp
  with console_to_resp [OF False, of after] show ?thesis
    by (intro exI [of _ "?c\<lparr>c_main := Exited, c_out := c_out ?c @ after\<rparr>"]) (auto intro: rtranclp_trans)
qed

text \<open>C30: The consoles of the complete runs. An output is what a complete run of the
  printer goroutine and the command goroutine (one that ends with the process) writes
  exactly when \<open>console_outputs\<close> lists it: every progress value but the last
  printed first and in order, then the command goroutine's items in order with the
  last progress value printed at any point among them, or lost.\<close>

theorem console_complete_runs:
  "(\<exists>c. console_step\<^sup>*\<^sup>* (console_init ps after) c \<and> c_main c = Exited \<and> c_out c = out)
   \<longleftrightarrow> out \<in> set (console_outputs ps after)"
proof
  assume "\<exists>c. console_step\<^sup>*\<^sup>* (console_init ps after) c \<and> c_main c = Exited \<and> c_out c = out"
  then show "out \<in> set (console_outputs ps after)" using console_final_outputs by blast
next
  assume m: "out \<in> set (console_outputs ps after)"
  show "\<exists>c. console_step\<^sup>*\<^sup>* (console_init ps after) c \<and> c_main c = Exited \<and> c_out c = out"
  proof (cases "ps = []")
    case True
    with m have "out = after" by (simp add: console_outputs_iff)
    with console_run_lost [of ps after] True show ?thesis by (simp add: progress_prints_def)
  next
    case False
    with m show ?thesis using console_run_lost [of ps after] console_run_printed [OF False]
      by (auto simp: console_outputs_iff)
  qed
qed


lemma console_step_measure: "console_step c c' \<Longrightarrow> console_measure c' < console_measure c"
  by (induction rule: console_step.induct) (auto simp: console_measure_def)

lemma console_step_wf: "wf {(c', c). console_step c c'}"
  by (rule wf_subset [OF wf_measure [of console_measure]]) (auto simp: console_step_measure)

text \<open>C31: The printer and the command goroutine never deadlock and always end. Every
  run of the two goroutines is finite, and a configuration reached from the start
  admits no further step exactly when the process has ended: each send of
  \<open>RunOpti\<close> on the unbuffered channel finds the printer ready to receive.\<close>

theorem console_step_ends:
  assumes "console_step\<^sup>*\<^sup>* (console_init ps after) c"
  shows "wf {(c', c). console_step c c'} \<and> ((\<nexists>c'. console_step c c') \<longleftrightarrow> c_main c = Exited)"
proof -
  have inv: "console_inv ps after c" using assms by (rule console_reach_inv)
  have "(\<nexists>c'. console_step c c') \<longleftrightarrow> c_main c = Exited"
  proof (cases "c_main c")
    case (Await_resp a)
    then have "\<exists>c'. console_step c c'"
    proof (cases "c_held c")
      case None
      then show ?thesis using Await_resp
        by (cases "c_sends c") (auto intro: console_step.recv console_step.resp)
    next
      case (Some p)
      then show ?thesis using Await_resp console_step.print [of c p] by auto
    qed
    then show ?thesis using Await_resp by simp
  next
    case (Emit r)
    then have "\<exists>c'. console_step c c'"
      by (cases r) (auto intro: console_step.emit console_step.finish)
    then show ?thesis using Emit by simp
  next
    case Exited
    with inv have "c_sends c = []" by (simp add: console_inv_def)
    with Exited show ?thesis by (auto elim: console_step.cases)
  qed
  with console_step_wf show ?thesis by simp
qed

lemma console_outputs_after:
  "out \<in> set (console_outputs ps after) \<Longrightarrow> set after \<subseteq> set out"
proof -
  have "\<forall>i. set after \<subseteq> set (take i after) \<union> set (drop i after)"
    by (metis append_take_drop_id set_append subset_refl)
  then show "out \<in> set (console_outputs ps after) \<Longrightarrow> set after \<subseteq> set out"
    by (auto simp: console_outputs_iff) blast
qed

lemma fmt_fixed_neg: "x < 0 \<Longrightarrow> fmt_fixed prec x = CHR ''-'' # fmt_fixed prec (- x)"
  by (simp add: fmt_fixed_def Let_def)

subsection \<open>The program's console\<close>

text \<open>C33: An unknown log level silences the errors. When the input file cannot be
  read, the program writes the error entry on standard output exactly when the
  \<open>-l\<close> flag names the error level or a more verbose one; with \<open>panic\<close>,
  \<open>fatal\<close> or any name \<open>logrus\<close> does not know (which \<open>Run\<close> turns into
  \<open>PanicLevel\<close>) it ends with nothing written at all.\<close>

theorem dstock_main_read_failure:
  assumes "env_read env (flag_input flags) = Inl u"
  shows "dstock_main env flags = (if parse_level (flag_log_level flags) \<in> {None, Some PanicLevel, Some FatalLevel}
     then [[]] else [[Log ErrorLevel Read_error]])"
proof (cases "parse_level (flag_log_level flags)")
  case None
  then show ?thesis using assms
    by (simp add: dstock_main_def opti_console_def opti_command_def log_error_def cmd_log_level_def
        less_eq_log_level_def)
next
  case (Some l)
  then show ?thesis using assms
    by (cases l) (simp_all add: dstock_main_def opti_console_def opti_command_def main_init_def
        log_error_def cmd_log_level_def less_eq_log_level_def)
qed


text \<open>C34: The OSA line of a run that lowers the OSA. For every input the program reads
  and parses whose optimisation lowers the OSA figure (C28), every console of the
  program carries the line \<open>OSA increased: +-\<close> followed by the size of the fall:
  the format string's literal \<open>+\<close> stands before the sign \<open>%.2f\<close> writes.\<close>

theorem dstock_main_osa_negative:
  assumes "env_read env (flag_input flags) = Inr records" and "parse_from_csv records = Inr stock"
    and "osa_increase (fst (run_opti stock (cmd_settings flags))) < 0"
  shows "\<forall>out \<in> set (dstock_main env flags).
    Print (''OSA increased: +-'' @ fmt_fixed 2 (- osa_increase (fst (run_opti stock (cmd_settings flags))))
           @ ''%'' @ [newline]) \<in> set out"
proof
  fix out
  assume "out \<in> set (dstock_main env flags)"
  then have "set (Print progress_done # Print (osa_line (osa_increase (fst (run_opti stock (cmd_settings flags)))))
      # outcome_log (main_init logrus_default\<lparr>log_lvl := cmd_log_level (flag_log_level flags)\<rparr>)
          (opti_command env flags)) \<subseteq> set out"
    using assms(1,2) by (intro console_outputs_after) (simp add: dstock_main_def opti_console_def Let_def)
  then show "Print (''OSA increased: +-'' @ fmt_fixed 2 (- osa_increase (fst (run_opti stock (cmd_settings flags))))
      @ ''%'' @ [newline]) \<in> set out"
    using assms(3) by (simp add: osa_line_def fmt_fixed_neg)
qed

end
