(* ===== verification/Program.thy ===== *)
theory Program
  imports Console Race
begin

text \<open>
  The program as it runs: \<open>main()\<close> with the logger of \<open>main_init\<close>, the
  \<open>opti\<close> command, and \<open>RunOpti\<close> under the code's actual synchronisation
  (\<open>Race\<close>), so under every schedule of its rounds.  \<open>program_console env flags
  out\<close> holds when the program can leave the console \<open>out\<close>: for a parsed input, some
  schedule of \<open>RunOpti\<close> ends in a configuration whose progress values, OSA line and
  file writes give \<open>out\<close> by an interleaving of the printer and the command goroutine
  (\<open>console_outputs\<close>).  \<open>Console.dstock_main\<close> is its barrier schedule
  (\<open>dstock_main_consoles\<close>).
\<close>

definition program_console :: "cmd_env \<Rightarrow> cmd_flags \<Rightarrow> console_item list \<Rightarrow> bool" where
  "program_console env flags out \<longleftrightarrow>
    (let lg = main_init logrus_default\<lparr>log_lvl := cmd_log_level (flag_log_level flags)\<rparr>;
         sets = cmd_settings flags
     in case env_read env (flag_input flags) of
          Inl _ \<Rightarrow> out = outcome_log lg Read_failed
        | Inr records \<Rightarrow>
            (case parse_from_csv records of
               Inl e \<Rightarrow> out = outcome_log lg (Parse_failed e)
             | Inr stock \<Rightarrow>
                 (\<exists>st. racy_run stock sets (Finished st)
                    \<and> out \<in> set (console_outputs (progress_sent st)
                         (Print progress_done # Print (osa_line (osa_increase (opti_result stock sets st)))
                          # outcome_log lg (write_output env flags (opti_result stock sets st)))))))"

text \<open>Every console of the barrier model is one the program can leave.\<close>

lemma dstock_main_consoles:
  assumes "out \<in> set (dstock_main env flags)"
  shows "program_console env flags out"
proof (cases "env_read env (flag_input flags)")
  case (Inl u)
  with assms show ?thesis
    by (simp add: dstock_main_def opti_console_def program_console_def opti_command_def Let_def)
next
  case (Inr records)
  show ?thesis
  proof (cases "parse_from_csv records")
    case (Inl e)
    with Inr assms show ?thesis
      by (simp add: dstock_main_def opti_console_def program_console_def opti_command_def Let_def)
  next
    case (Inr stock)
    let ?sets = "cmd_settings flags"
    let ?st = "opti_loop ?sets (effective_max_to ?sets) (effective_min_products ?sets) (opti_init stock ?sets)"
    have "racy_run stock ?sets (Finished ?st)" by (rule racy_run_barrier)
    with \<open>env_read env (flag_input flags) = Inr records\<close> Inr assms show ?thesis
      by (simp add: dstock_main_def opti_console_def program_console_def opti_command_def
          run_opti_result Let_def) blast
  qed
qed

end
