(* ===== verification/Run_Bounds.thy ===== *)
theory Run_Bounds
  imports Run_Properties Parser "HOL-Library.Word"
begin

text \<open>
  Go's \<open>int\<close> is 64 bits and wraps around; the model computes with unbounded
  integers.  \<open>go_sub\<close> is Go's subtraction on \<open>int\<close>, as the surplus and deficit
  tests of \<open>doExchangeItems\<close> (line 213) compute it.  It is the unbounded difference
  whenever that difference is a 64-bit value (\<open>go_sub_exact\<close>), in particular for
  non-negative 64-bit quantities (\<open>go_sub_exact_nonneg\<close>); there the model's
  arithmetic is Go's.  A commit moves
  an item's \<open>Has\<close> towards its \<open>Needs\<close> and never past it, so in the model every
  quantity of the matrix stays between two quantities of the input
  (\<open>run_opti_int64\<close>).  But \<open>ParseFromCSV\<close> accepts every 64-bit value, and on
  \<open>Has = -2^63\<close> the test of line 213 wraps: Go sees a surplus where the model sees a
  deficit (\<open>parse_accepts_surplus_overflow\<close>).
\<close>

definition go_sub :: "int \<Rightarrow> int \<Rightarrow> int" where
  "go_sub a b = sint (word_of_int a - word_of_int b :: 64 word)"

lemma moved_item_between:
  assumes "s1 \<noteq> s2"
  shows "min (has (item_of st s p)) (needs (item_of st s p)) \<le> has (moved_item st s1 s2 s p)
       \<and> has (moved_item st s1 s2 s p) \<le> max (has (item_of st s p)) (needs (item_of st s p))
       \<and> needs (moved_item st s1 s2 s p) = needs (item_of st s p)"
  using assms transfer_qty_bounds [of st s1 s2 p]
  by (cases "0 < transfer_qty st s1 s2 p"; auto simp: moved_item_def Let_def)

lemma in_int64_between:
  "in_int64 a \<Longrightarrow> in_int64 b \<Longrightarrow> min a b \<le> x \<Longrightarrow> x \<le> max a b \<Longrightarrow> in_int64 x"
  by (auto simp: in_int64_def)

lemma commit_int64:
  assumes "stock_wf st" and "s1 \<noteq> s2" and "stock_int64 st"
  shows "stock_int64 (fst (do_exchange_items st sets s1 s2 True))"
proof -
  let ?st' = "fst (do_exchange_items st sets s1 s2 True)"
  have i: "in_int64 (has (item_of st s p)) \<and> in_int64 (needs (item_of st s p))" for s p
    using assms(3) stock_int64_iff [OF assms(1)] by simp
  have "in_int64 (has (item_of ?st' s p)) \<and> in_int64 (needs (item_of ?st' s p))" for s p
    using do_exchange_items_closed_form (1) [OF assms(1,2), of sets True s p]
      moved_item_between [OF assms(2), of st s p] i [of s p]
    by (auto intro: in_int64_between)
  then show ?thesis
    using stock_int64_iff [OF do_exchange_items_wf [OF assms(1)]] by simp
qed

lemma run_int64:
  assumes "stock_wf stock" and "stock_int64 stock" and "0 \<le> mt"
  shows "stock_int64 (mystock (opti_loop sets mt mp (opti_init stock sets)))
       \<and> inv_stock stock (opti_loop sets mt mp (opti_init stock sets))
       \<and> inv_book mt (opti_loop sets mt mp (opti_init stock sets))"
proof (rule opti_loop_inv)
  show "stock_int64 (mystock (opti_init stock sets)) \<and> inv_stock stock (opti_init stock sets)
      \<and> inv_book mt (opti_init stock sets)"
    using opti_init_invs [OF assms(3)] assms(1,2) by (simp add: opti_init_def copy_stock_id Let_def)
next
  fix st
  assume "stock_int64 (mystock st) \<and> inv_stock stock st \<and> inv_book mt st"
  then show "stock_int64 (mystock (st\<lparr>prio_first := False\<rparr>)) \<and> inv_stock stock (st\<lparr>prio_first := False\<rparr>)
      \<and> inv_book mt (st\<lparr>prio_first := False\<rparr>)"
    by simp
next
  fix st
  assume a: "stock_int64 (mystock st) \<and> inv_stock stock st \<and> inv_book mt st"
    and nz: "tota_items_count (round_winner sets mt mp st) \<noteq> 0"
  have "stock_int64 (mystock (commit_transfer sets mt (round_winner sets mt mp st) st))"
    using a commit_int64 [OF _ commit_pair (1) [OF _ nz]]
    by (simp add: commit_transfer_fields inv_stock_def)
  with a nz show "stock_int64 (mystock (commit_transfer sets mt (round_winner sets mt mp st) st))
      \<and> inv_stock stock (commit_transfer sets mt (round_winner sets mt mp st) st)
      \<and> inv_book mt (commit_transfer sets mt (round_winner sets mt mp st) st)"
    by (blast intro: inv_stock_commit inv_book_commit)
qed

text \<open>In the unbounded model, a run on 64-bit quantities returns 64-bit quantities.\<close>

lemma run_opti_int64:
  assumes "stock_wf stock" and "stock_int64 stock"
  shows "stock_int64 (after_stock (fst (run_opti stock sets)))"
  using run_int64 [OF assms, of "effective_max_to sets" sets "effective_min_products sets"]
    effective_max_to_pos [of sets]
  by (simp add: run_opti_unfold)

lemma go_sub_exact:
  assumes "- (2 ^ 63) \<le> a - b" and "a - b < 2 ^ 63"
  shows "go_sub a b = a - b"
proof -
  have "go_sub a b = signed_take_bit 63 (a - b)"
    unfolding go_sub_def of_int_diff [symmetric] sint_sbintrunc' by simp
  also have "\<dots> = a - b"
    using assms by (intro signed_take_bit_int_eq_self) simp_all
  finally show ?thesis .
qed

lemma go_sub_exact_nonneg:
  "0 \<le> a \<Longrightarrow> a < 2 ^ 63 \<Longrightarrow> 0 \<le> b \<Longrightarrow> b < 2 ^ 63 \<Longrightarrow> go_sub a b = a - b"
  by (intro go_sub_exact) simp_all

text \<open>C29: The surplus test overflows on an accepted input. \<open>ParseFromCSV\<close> accepts a
  row with \<open>Stock = -9223372036854775808\<close> and \<open>Max = 1\<close>; for that item
  \<open>Has - Needs\<close> is negative, yet Go's 64-bit subtraction of line 213 wraps it to
  \<open>MaxInt64\<close>, so \<open>doExchangeItems\<close> treats the store as having a surplus of
  \<open>2^63 - 1\<close> items where the unbounded model sees none.\<close>

theorem parse_accepts_surplus_overflow:
  "\<exists>st. parse_from_csv [[''S'', ''P'', ''-9223372036854775808'', ''1'']] = Inr st
     \<and> has (item_of st ''S'' ''P'') - needs (item_of st ''S'' ''P'') < 0
     \<and> go_sub (has (item_of st ''S'' ''P'')) (needs (item_of st ''S'' ''P'')) = 9223372036854775807"
proof -
  have "parse_from_csv [[''S'', ''P'', ''-9223372036854775808'', ''1'']]
      = Inr [(''S'', [(''P'', \<lparr>has = -9223372036854775808, needs = 1\<rparr>)])]"
    by (simp add: csv_eval parse_int_def parse_uint_def uint64_max_def)
  moreover have "go_sub (-9223372036854775808) 1 = 9223372036854775807"
    by (simp add: go_sub_def)
  ultimately show ?thesis by (simp add: item_of_def store_of_def)
qed

end
