(* ===== verification/Spec2Isabelle.thy ===== *)
theory Spec2Isabelle
  imports Run_Properties Phase Race Race_Examples Parser Command Console Program Run_Bounds
begin

text \<open>
  \<^bold>\<open>A verification development of dstock.\<close>

  dstock (\<open>src/\<close>) rebalances stock between stores.  \<open>stockparser.ParseFromCSV\<close>
  (\<open>src/stockparser/stockparser.go\<close>) reads a \<open>StockMatrix\<close>, a map from store to a
  map from product to \<open>StockItem{Has, Needs}\<close>; \<open>opti.RunOpti\<close>
  (\<open>src/opti/opti.go\<close>) repeatedly evaluates every admissible ordered pair of stores
  with \<open>doExchangeItems\<close> in goroutines, reduces the candidates with
  \<open>determineBestTransfer\<close>, commits the winner by re-running \<open>doExchangeItems\<close> with
  \<open>alterStock = true\<close>, and reports progress on a channel; \<open>computeOSA\<close> scores the
  result; the cobra command of \<open>src/cmd/opti.go\<close> wires flags, files and output.

  \<^bold>\<open>Theories.\<close>
  \<^item> \<open>Prelude\<close>: Go maps as association lists (\<open>gomap\<close>), Go's \<open>m[k]\<close> with a zero
    default (\<open>lookup_or\<close>), sums over keys.  The list order is the order a \<open>range\<close>
    loop visits; Go randomises it, and the results below either hold for every order
    or say where the order matters.
  \<^item> \<open>Stock\<close>: \<open>StockItem\<close> as the record \<open>stock_item\<close>, \<open>StockMatrix\<close> as
    \<open>stock_matrix\<close>, the reads and writes \<open>stock[s][p]\<close> (\<open>item_of\<close>, \<open>set_item\<close>),
    well-formedness \<open>stock_wf\<close> (distinct keys), \<open>product_total\<close>,
    \<open>stock_nonneg\<close>, the deep copy \<open>copy_stock\<close>, and the test fixture \<open>test_stock\<close>
    of \<open>src/opti/opti_test.go\<close>.
  \<^item> \<open>Opti_Types\<close>: \<open>Transfer\<close>, \<open>TransferedProduct\<close> and \<open>Settings\<close>
    (\<open>src/opti/transfer.go\<close>, \<open>src/opti/settings.go\<close>).
  \<^item> \<open>Exchange\<close>: the pair evaluator \<open>doExchangeItems\<close> as a left fold of its loop
    body \<open>exchange_product\<close>.  Its closed form (\<open>do_exchange_items_closed_form\<close>)
    says what every store holds afterwards (\<open>moved_item\<close>), with the quantity
    \<open>transfer_qty\<close> = min(surplus, deficit); from it: conservation of every product,
    non-negativity, the feasibility bound of each product line
    (\<open>committed_quantities\<close>) and that a dry run reports what a commit applies
    (\<open>dry_run_matches_commit\<close>).
  \<^item> \<open>Selector\<close>: \<open>determineBestTransfer\<close> and the reducer goroutine
    (\<open>reduce_transfers\<close>, a fold from the zero \<open>Transfer{}\<close>).  The abstract contract
    is the strict order \<open>better\<close> (higher score, then smaller \<open>from-to\<close> key); the
    reducer returns a \<open>better\<close>-greatest admitted candidate
    (\<open>reduce_transfers_greatest\<close>), independent of the delivery order when keys are
    distinct (\<open>reduce_transfers_order_independent\<close>), but not when two store names
    joined with a dash collide (\<open>reduce_transfers_key_collision\<close>).
  \<^item> \<open>Osa\<close>: \<open>computeOSA\<close>.
  \<^item> \<open>Orchestrator\<close>: the loop of \<open>RunOpti\<close> with its state as the record
    \<open>opti_state\<close>; one round is \<open>round_pairs\<close> (the guards of lines 86--87),
    \<open>round_candidates\<close>, \<open>round_winner\<close>, then the phase switch, the exit or
    \<open>commit_transfer\<close>; \<open>opti_loop\<close> is a \<open>function\<close> whose termination measure is
    twice the distance of \<open>loopCounter\<close> to its bound plus the phase flag.
    \<open>opti_loop_inv\<close> is the invariant rule of the loop.
  \<^item> \<open>Run_Properties\<close>: the loop invariants (\<open>inv_stock\<close>, \<open>inv_book\<close>,
    \<open>inv_min\<close>, \<open>inv_progress\<close>) and the properties of a whole run: conservation,
    non-negativity, the bound on the number of transfers and the progress values.
    Lemmas of the barrier schedule only: no self-transfer, each ordered pair at most
    once, the per-store outgoing cap, and the minimum product count of every transfer.
  \<^item> \<open>Phase\<close>: the two-phase priority state machine under the barrier schedule.
    \<open>prio_pair\<close> is the priority filter of line 87; the invariant \<open>inv_phase\<close> says
    the committed transfers are priority transfers followed, after the switch, by
    non-priority ones (\<open>run_opti_priority_first\<close>).  It rests on
    \<open>Exchange.dry_run_total_mono\<close>: a commit never enlarges what a pair can move.
  \<^item> \<open>Race\<close>: the round as the code actually synchronises it, as the inductive
    relation \<open>racy_step\<close> over configurations \<open>run_conf\<close>: candidates arrive in any
    order; each of the six reads of \<open>optimalTransferFound\<close> after \<open>wg.Wait()\<close> sees
    the reducer's value before or after its update for the last candidate
    (\<open>racy_read\<close>, \<open>racy_commit\<close>); \<open>opti_result\<close> is the \<open>Optimisation\<close>
    returned from a final configuration.  The barrier loop is one schedule
    (\<open>racy_run_barrier\<close>).  Results: every schedule terminates (\<open>racy_step_wf\<close>)
    and keeps the stock invariants (\<open>racy_run_stock_safe\<close>); some schedule commits a
    store to itself with no items (\<open>racy_run_self_transfer\<close>).
  \<^item> \<open>Race_Examples\<close>: two runs under the code's synchronisation, evaluated round by
    round, in which a torn commit mixes the best and the second-best candidate: a store
    sources more than \<open>MaxTo\<close> transfers (\<open>racy_run_outgoing_cap_broken\<close>), and
    the priority phase commits a non-priority transfer before a priority one
    (\<open>racy_run_priority_mixed\<close>).
  \<^item> \<open>Run_Bounds\<close>: Go's 64-bit subtraction \<open>go_sub\<close>, equal to the model's when
    the difference is a 64-bit value (\<open>go_sub_exact\<close>, so for non-negative inputs);
    a commit moves \<open>Has\<close> towards \<open>Needs\<close> and never past it
    (\<open>run_opti_int64\<close>); and an input the parser accepts on which line 213 wraps
    (\<open>parse_accepts_surplus_overflow\<close>).
  \<^item> \<open>Parser\<close>: \<open>ParseFromCSV\<close> (\<open>src/stockparser/stockparser.go\<close>) over the records the
    CSV reader returns (the code ignores every \<open>Read\<close> error but \<open>io.EOF\<close>), with
    \<open>strings.TrimSpace\<close> (on UTF-8 bytes, with the Unicode white space runes) and
    \<open>strconv.Atoi\<close> as Go defines them (the fast path for short strings,
    \<open>ParseInt\<close>/\<open>ParseUint\<close> with their overflow checks; the fast path is shown equal
    to \<open>ParseInt\<close>, \<open>atoi_parse_int\<close>); the \<open>%d\<close> printer \<open>itoa\<close>.  Results: what
    the parser accepts, that the matrix it returns holds the last data row for every
    store and product (\<open>parse_from_csv_last_row\<close>, against the table reading
    \<open>data_rows\<close>/\<open>last_item\<close>), that a matrix written as CSV reads back as itself,
    where failures come from, and that a header row is skipped anywhere.
  \<^item> \<open>Command\<close>: the \<open>opti\<close> command (\<open>src/cmd/opti.go\<close>) with the file system as an
    environment of results (\<open>cmd_env\<close>): read, parse, \<open>RunOpti\<close> with the flags'
    settings, output path, create/truncate/seek, and the writer with its per-write
    error handling (\<open>write_lines\<close>).  Results: no output without a parsed input, the
    lines of a completed output, and that the written text splits back into its rows.
  \<^item> \<open>Console\<close>: what the program writes on standard output.  The logger of
    \<open>logrus\<close> as the record \<open>logger\<close>, set up by \<open>init\<close> of \<open>src/main.go\<close>
    (\<open>main_init\<close>) and given its level by \<open>Run\<close> from the \<open>-l\<close> flag
    (\<open>cmd_log_level\<close>, with \<open>logrus.ParseLevel\<close> over \<open>go_lower\<close> and the level
    order as a \<open>linorder\<close> instance); the progress printer goroutine and the command goroutine
    as the step relation \<open>console_step\<close> over the unbuffered \<open>progress\<close> channel
    (a send completes when the printer receives; the printer prints before receiving
    again; \<open>RunOpti\<close> returns after its last send; the process ends when \<open>Run\<close>
    returns); \<open>opti_console\<close> and \<open>main()\<close> as \<open>dstock_main\<close>, with the barrier
    run of \<open>RunOpti\<close>.  Results: the
    consoles of complete runs are exactly those \<open>console_outputs\<close> lists
    (\<open>console_complete_runs\<close>, by the invariant \<open>console_inv\<close> and explicit
    runs), the two goroutines never deadlock and always end
    (\<open>console_step_ends\<close>, measure \<open>console_measure\<close>), an unknown \<open>-l\<close> value
    silences the errors (\<open>dstock_main_read_failure\<close>), and a falling OSA is
    printed as \<open>+-\<close> (\<open>dstock_main_osa_negative\<close>).
  \<^item> \<open>Program\<close>: the program under the code's synchronisation:
    \<open>program_console\<close> says which consoles \<open>main()\<close> can leave when \<open>RunOpti\<close> runs
    under any schedule (\<open>Race\<close>); the consoles of \<open>dstock_main\<close> are among them
    (\<open>dstock_main_consoles\<close>).
  \<^item> this theory: the package test \<open>TestOptiSuccess\<close> evaluated round by round, its
    expected result and checks (\<open>test_should_get\<close>, \<open>test_errors\<close>), the schedule of
    the package test that returns no transfer (\<open>racy_run_test_no_transfer\<close>), the test
    passing under one schedule and failing under another
    (\<open>test_opti_success_flaky\<close>), the command on the package test (a failed header
    write goes unnoticed, \<open>opti_command_header_unchecked\<close>), the program's consoles on
    it (\<open>program_console_test\<close>), a negative target driving stock below zero
    (\<open>parse_run_negative_stock\<close>), a run that lowers OSA (\<open>run_opti_osa_decrease\<close>),
    and one witness per claim with a hypothesis.

  \<^bold>\<open>Modelling choices.\<close>  Go \<open>int\<close> is \<open>int\<close>.  Go's \<open>int\<close> wraps at 64
  bits; the model's arithmetic is Go's as long as every sum and difference the code
  computes is a 64-bit value, which holds for non-negative 64-bit quantities as far as
  the differences of line 213 go (\<open>go_sub_exact_nonneg\<close>), but not for every input the
  parser accepts (\<open>parse_accepts_surplus_overflow\<close>); properties of a run are
  properties of the unbounded model.  Float scores and the OSA percentage are exact
  rationals; the loop counters are \<open>int\<close>.  The concurrency of a round is modelled
  twice: \<open>Orchestrator\<close> takes the barrier the design intends (all candidates are
  evaluated on the unchanged matrix and all are reduced before the winner is read);
  \<open>Race\<close> takes the code's actual synchronisation, in which the evaluating goroutines
  only read the matrix (so the candidates are the same) but the reducer's last update
  races with the reads.  A claim about the code that holds under every schedule is
  stated for \<open>Race\<close> or follows from an invariant that every schedule keeps; those of
  the barrier alone are lemmas.  The loop needs no fuel: its termination is proved
  for both.

  \<^bold>\<open>Not modelled.\<close>  The CSV tokenizer of \<open>encoding/csv\<close> (a library; the parser
  is modelled over the records it returns), cobra's flag parsing and the root command of \<open>cmd/root.go\<close> (not
  under \<open>src/\<close>; \<open>cmd.Execute()\<close> is taken to run \<open>opti\<close> with its parsed flags),
  the JSON text of log entries (it carries the clock) and the \<open>Debug\<close>/\<open>Info\<close>
  entries of \<open>RunOpti\<close> and \<open>ParseFromCSV\<close> (diagnostic output interleaved with
  the console, whose other items keep their order), the panic message of a short record
  (written on standard error), the bytes a failing \<open>WriteString\<close> may still write (a
  failed write is taken to write nothing), \<open>f.Sync\<close> and \<open>f.Close\<close> (results
  discarded), float rounding (scores and OSA are exact rationals; \<open>%.2f\<close> rounds the
  rational, while Go rounds the nearest float64; the two can differ only when the
  rational lies within float64 precision of a rounding boundary), the tearing of the struct write of \<open>optimalTransferFound\<close> within a
  single read (it only adds behaviours to those of \<open>Race\<close>), and the reducer
  goroutine left blocked on the never-closed channel of each round (it writes only its
  own round's variable).
\<close>

definition test_after_stock :: stock_matrix where
  "test_after_stock =
    [(''Paris'', [(''Apples'', \<lparr>has = 9, needs = 9\<rparr>), (''Corn'', \<lparr>has = 4, needs = 4\<rparr>),
       (''Sugar'', \<lparr>has = 4, needs = 4\<rparr>), (''Gems'', \<lparr>has = 2, needs = 0\<rparr>),
       (''Roses'', \<lparr>has = 6, needs = 4\<rparr>)]),
     (''Bucharest'', [(''Apples'', \<lparr>has = 15, needs = 3\<rparr>), (''Corn'', \<lparr>has = 2, needs = 2\<rparr>),
       (''Sugar'', \<lparr>has = 4, needs = 4\<rparr>), (''Gems'', \<lparr>has = 3, needs = 0\<rparr>),
       (''Roses'', \<lparr>has = 5, needs = 2\<rparr>)])]"

definition test_transfer :: transfer where
  "test_transfer = \<lparr>from_store = ''Bucharest'', to_store = ''Paris'',
     products = [\<lparr>tp_product = ''Apples'', quant = 2\<rparr>, \<lparr>tp_product = ''Corn'', quant = 4\<rparr>],
     tota_items_count = 6, osa_improuve = 1\<rparr>"

definition test_state1 :: opti_state where
  "test_state1 = \<lparr>mystock = test_after_stock, prio_first = False,
     transfer_avail = (init_avail (map fst test_stock))
       (''Bucharest'' := (init_avail (map fst test_stock) ''Bucharest'')(''Paris'' := False)),
     transfer_counter = (\<lambda>_. 0)(''Bucharest'' := 1), loop_counter = 1,
     transfers = [test_transfer], progress_sent = [50]\<rparr>"

text \<open>The \<open>opti\<close> command on the package test's stock written as CSV, with
  \<open>-m 1 -n 1 -o out\<close>: once with every write succeeding, once with the header's write
  failing.\<close>

definition test_flags :: cmd_flags where
  "test_flags = \<lparr>flag_input = ''stock.csv'', flag_output = ''out'', flag_min_products = 1,
     flag_max_to = 1, flag_secure = [], flag_destock = [], flag_log_level = ''warn''\<rparr>"

definition all_ok_env :: cmd_env where
  "all_ok_env = \<lparr>env_read = (\<lambda>_. Inr (stock_records test_stock)), env_create_ok = (\<lambda>_. True),
     env_truncate_ok = True, env_seek_ok = True, env_write_ok = (\<lambda>_. True)\<rparr>"

definition header_fail_env :: cmd_env where
  "header_fail_env = all_ok_env\<lparr>env_write_ok := (\<lambda>i. i \<noteq> 0)\<rparr>"

text \<open>An input with a negative target: Paris has no Apples and a target of -5, Bucharest
  none and a target of 3.\<close>

definition neg_records :: "string list list" where
  "neg_records = [[''Paris'', ''Apples'', ''0'', ''-5''], [''Bucharest'', ''Apples'', ''0'', ''3'']]"

definition neg_stock :: stock_matrix where
  "neg_stock = [(''Paris'', [(''Apples'', \<lparr>has = 0, needs = -5\<rparr>)]),
                (''Bucharest'', [(''Apples'', \<lparr>has = 0, needs = 3\<rparr>)])]"

definition neg_after :: stock_matrix where
  "neg_after = [(''Paris'', [(''Apples'', \<lparr>has = -3, needs = -5\<rparr>)]),
                (''Bucharest'', [(''Apples'', \<lparr>has = 3, needs = 3\<rparr>)])]"

definition neg_transfer :: transfer where
  "neg_transfer = \<lparr>from_store = ''Paris'', to_store = ''Bucharest'',
     products = [\<lparr>tp_product = ''Apples'', quant = 3\<rparr>], tota_items_count = 3, osa_improuve = 1\<rparr>"

definition neg_state1 :: opti_state where
  "neg_state1 = \<lparr>mystock = neg_after, prio_first = False,
     transfer_avail = (init_avail (map fst neg_stock))
       (''Paris'' := (init_avail (map fst neg_stock) ''Paris'')(''Bucharest'' := False)),
     transfer_counter = (\<lambda>_. 0)(''Paris'' := 1), loop_counter = 1,
     transfers = [neg_transfer], progress_sent = [50]\<rparr>"

text \<open>A stock on which the winning transfer empties its source: Paris gives both its
  Gems to Bucharest, which already had one.\<close>

definition osa_stock :: stock_matrix where
  "osa_stock = [(''Paris'', [(''Gems'', \<lparr>has = 2, needs = 0\<rparr>)]),
                (''Bucharest'', [(''Gems'', \<lparr>has = 1, needs = 3\<rparr>)])]"

definition osa_after :: stock_matrix where
  "osa_after = [(''Paris'', [(''Gems'', \<lparr>has = 0, needs = 0\<rparr>)]),
                (''Bucharest'', [(''Gems'', \<lparr>has = 3, needs = 3\<rparr>)])]"

definition osa_transfer :: transfer where
  "osa_transfer = \<lparr>from_store = ''Paris'', to_store = ''Bucharest'',
     products = [\<lparr>tp_product = ''Gems'', quant = 2\<rparr>], tota_items_count = 2, osa_improuve = 0\<rparr>"

definition osa_state1 :: opti_state where
  "osa_state1 = \<lparr>mystock = osa_after, prio_first = False,
     transfer_avail = (init_avail (map fst osa_stock))
       (''Paris'' := (init_avail (map fst osa_stock) ''Paris'')(''Bucharest'' := False)),
     transfer_counter = (\<lambda>_. 0)(''Paris'' := 1), loop_counter = 1,
     transfers = [osa_transfer], progress_sent = [50]\<rparr>"

text \<open>The expected result of \<open>TestOptiSuccess\<close> (lines 32--44 of
  \<open>src/opti/opti_test.go\<close>; the fields it leaves out are Go's zero values) and the
  messages of its checks (lines 60--67, \<open>%f\<close> is \<open>%.6f\<close>).\<close>

definition test_should_get :: optimisation where
  "test_should_get =
    \<lparr>in_stock = [], after_stock = [],
     opti_transfers = [\<lparr>from_store = ''Bucharest'', to_store = ''Paris'',
        products = [\<lparr>tp_product = ''Apples'', quant = 2\<rparr>, \<lparr>tp_product = ''Corn'', quant = 4\<rparr>],
        tota_items_count = 0, osa_improuve = 0\<rparr>],
     opti_settings = \<lparr>max_to = 0, min_products = 0, secure_stock_in = [], de_stock_in = []\<rparr>,
     osa_increase = 10\<rparr>"

definition test_errors :: "optimisation \<Rightarrow> string list" where
  "test_errors got =
    (if osa_increase got \<noteq> osa_increase test_should_get
     then [''invalid OSA increase, got '' @ fmt_fixed 6 (osa_increase got)
           @ '', want '' @ fmt_fixed 6 (osa_increase test_should_get)]
     else [])
    @ (if length (opti_transfers got) \<noteq> length (opti_transfers test_should_get)
       then [''invalid transfer, got size '' @ itoa (int (length (opti_transfers got)))
             @ '', want  size '' @ itoa (int (length (opti_transfers test_should_get)))]
       else [])"

text \<open>The program on an unreadable input, and on \<open>osa_stock\<close> written as CSV.\<close>

definition read_fail_env :: cmd_env where
  "read_fail_env = all_ok_env\<lparr>env_read := (\<lambda>_. Inl ())\<rparr>"

definition osa_env :: cmd_env where
  "osa_env = all_ok_env\<lparr>env_read := (\<lambda>_. Inr (stock_records osa_stock))\<rparr>"

subsection \<open>The package test, round by round\<close>

lemma test_settings_effective:
  "effective_max_to test_settings = 1" "effective_min_products test_settings = 1"
  by (simp_all add: effective_max_to_def effective_min_products_def test_settings_def)

lemmas test_eval = test_stock_def test_after_stock_def do_exchange_items_def exchange_product_def
  item_of_def store_of_def opti_min_def Let_def zero_item_def set_item_def

lemma test_init:
  "opti_init test_stock test_settings
     = \<lparr>mystock = test_stock, prio_first = False, transfer_avail = init_avail (map fst test_stock),
        transfer_counter = (\<lambda>_. 0), loop_counter = 0, transfers = [], progress_sent = []\<rparr>"
  by (simp add: opti_init_def copy_stock_id test_settings_def)

lemma test_round1_candidates:
  "round_candidates test_settings 1 (opti_init test_stock test_settings)
     = [\<lparr>from_store = ''Paris'', to_store = ''Bucharest'', products = [], tota_items_count = 0,
         osa_improuve = 0\<rparr>, test_transfer\<lparr>products := []\<rparr>]"
proof -
  have "round_pairs test_settings 1 (opti_init test_stock test_settings)
        = [(''Paris'', ''Bucharest''), (''Bucharest'', ''Paris'')]"
    unfolding test_init by (simp add: round_pairs_def test_stock_def pair_eligible_def init_avail_def
        test_settings_def)
  then show ?thesis
    by (simp add: round_candidates_def test_init) (simp add: test_eval test_transfer_def)
qed

lemma test_round1_winner:
  "round_winner test_settings 1 1 (opti_init test_stock test_settings)
     = test_transfer\<lparr>products := []\<rparr>"
proof -
  note test_round1_candidates
  then show ?thesis
    by (simp add: round_winner_def reduce_transfers_def reduce_step_def determine_best_transfer_def
        transfer_score_def best_order_def zero_transfer_def transfer_key_def test_transfer_def)
qed

lemma test_exchange:
  "do_exchange_items test_stock test_settings ''Bucharest'' ''Paris'' True
     = (test_after_stock, test_transfer)"
  by (simp add: test_eval test_transfer_def)

lemma test_commit1:
  "commit_transfer test_settings 1 (round_winner test_settings 1 1 (opti_init test_stock test_settings))
     (opti_init test_stock test_settings) = test_state1"
proof -
  note d = test_exchange
  have l: "length test_after_stock = 2" by (simp add: test_after_stock_def)
  show ?thesis
    unfolding test_round1_winner unfolding test_init
    by (simp add: commit_transfer_def Let_def test_transfer_def d l test_state1_def)
qed

lemma test_round2_winner:
  "tota_items_count (round_winner test_settings 1 1 test_state1) = 0"
proof -
  have "round_pairs test_settings 1 test_state1 = [(''Paris'', ''Bucharest'')]"
    by (simp add: round_pairs_def test_state1_def test_after_stock_def test_stock_def
        pair_eligible_def init_avail_def test_settings_def)
  then have "round_candidates test_settings 1 test_state1
     = [\<lparr>from_store = ''Paris'', to_store = ''Bucharest'', products = [], tota_items_count = 0,
         osa_improuve = 0\<rparr>]"
    by (simp add: round_candidates_def) (simp add: test_state1_def test_eval)
  then show ?thesis
    by (simp add: round_winner_def reduce_transfers_def reduce_step_def zero_transfer_def)
qed

lemma test_run:
  "opti_loop test_settings (effective_max_to test_settings) (effective_min_products test_settings)
     (opti_init test_stock test_settings) = test_state1"
  unfolding test_settings_effective
proof (rule opti_loop_commit_exit [OF _ _ test_commit1 _ test_round2_winner])
  show "loop_counter (opti_init test_stock test_settings)
      < int (length (mystock (opti_init test_stock test_settings))) * 1"
    unfolding test_init by (simp add: test_stock_def)
  show "tota_items_count (round_winner test_settings 1 1 (opti_init test_stock test_settings)) \<noteq> 0"
    by (simp add: test_round1_winner test_transfer_def)
qed (simp_all add: test_state1_def test_after_stock_def)

lemma test_run_result:
  "opti_transfers (fst (run_opti test_stock test_settings)) = [test_transfer]"
  "after_stock (fst (run_opti test_stock test_settings)) = test_after_stock"
  "snd (run_opti test_stock test_settings) = [50]"
  by (simp_all add: run_opti_def Let_def test_run test_state1_def)

lemma test_compute_osa: "compute_osa test_stock test_after_stock = 10"
  by (simp add: compute_osa_def test_stock_def test_after_stock_def items_in_stock_def total_items_def)

lemma test_run_osa: "osa_increase (fst (run_opti test_stock test_settings)) = 10"
  by (simp add: run_opti_def Let_def test_run test_state1_def test_compute_osa)

subsection \<open>The package test under the code's synchronisation\<close>

lemma test_racy_exit:
  "racy_run test_stock test_settings (Finished (opti_init test_stock test_settings))"
proof -
  have "racy_step test_settings 1 1 (Running (opti_init test_stock test_settings))
      (Finished (opti_init test_stock test_settings))"
  proof (rule racy_exit [where ts = "round_candidates test_settings 1 (opti_init test_stock test_settings)"
        and k = 1])
    show "loop_counter (opti_init test_stock test_settings)
        < int (length (mystock (opti_init test_stock test_settings))) * 1"
      unfolding test_init by (simp add: test_stock_def)
    show "tota_items_count (racy_read 1 (round_candidates test_settings 1 (opti_init test_stock test_settings)) 1 0) = 0"
      unfolding test_round1_candidates
      by (simp add: racy_read_def reduce_transfers_def reduce_step_def zero_transfer_def)
    show "\<not> prio_first (opti_init test_stock test_settings)"
      unfolding test_init by simp
  qed simp
  then show ?thesis by (simp add: racy_run_def test_settings_effective)
qed

text \<open>C17: The package test under the code's synchronisation. \<open>TestOptiSuccess\<close>
  expects one transfer (C12), but when Paris to Bucharest (no items) arrives first and
  the reducer has not yet recorded Bucharest to Paris when the item count is read,
  \<open>RunOpti\<close> ends its first round in the normal phase with no winner and returns no
  transfer at all.\<close>

theorem racy_run_test_no_transfer:
  "\<exists>st. racy_run test_stock test_settings (Finished st) \<and> transfers st = []"
  using test_racy_exit by (auto simp: test_init)

lemma test_compute_osa_zero: "compute_osa test_stock test_stock = 0"
  by (simp add: compute_osa_def test_stock_def items_in_stock_def total_items_def)

text \<open>C12: \<open>TestOptiSuccess\<close> is flaky. Under the code's synchronisation the package
  test's run can return exactly the expected transfer, Bucharest to Paris with 2
  Apples and 4 Corn, and the test's checks (lines 60--67 of
  \<open>src/opti/opti_test.go\<close>) then report no error; and it can return no transfer, and
  the checks then report both the OSA increase and the number of transfers.\<close>

theorem test_opti_success_flaky:
  "(\<exists>st. racy_run test_stock test_settings (Finished st)
      \<and> opti_transfers (opti_result test_stock test_settings st)
          = [\<lparr>from_store = ''Bucharest'', to_store = ''Paris'',
              products = [\<lparr>tp_product = ''Apples'', quant = 2\<rparr>, \<lparr>tp_product = ''Corn'', quant = 4\<rparr>],
              tota_items_count = 6, osa_improuve = 1\<rparr>]
      \<and> test_errors (opti_result test_stock test_settings st) = [])
   \<and> (\<exists>st. racy_run test_stock test_settings (Finished st)
      \<and> test_errors (opti_result test_stock test_settings st)
          = [''invalid OSA increase, got 0.000000, want 10.000000'',
             ''invalid transfer, got size 0, want  size 1''])"
proof
  have "racy_run test_stock test_settings (Finished test_state1)"
    using racy_run_barrier [of test_stock test_settings] by (simp add: test_run)
  moreover have "opti_transfers (opti_result test_stock test_settings test_state1) = [test_transfer]"
    and "osa_increase (opti_result test_stock test_settings test_state1) = 10"
    by (simp_all add: opti_result_def test_state1_def test_compute_osa)
  ultimately show "\<exists>st. racy_run test_stock test_settings (Finished st)
      \<and> opti_transfers (opti_result test_stock test_settings st)
          = [\<lparr>from_store = ''Bucharest'', to_store = ''Paris'',
              products = [\<lparr>tp_product = ''Apples'', quant = 2\<rparr>, \<lparr>tp_product = ''Corn'', quant = 4\<rparr>],
              tota_items_count = 6, osa_improuve = 1\<rparr>]
      \<and> test_errors (opti_result test_stock test_settings st) = []"
    by (intro exI [of _ test_state1]) (simp add: test_errors_def test_should_get_def test_transfer_def)
next
  have "fmt_fixed 6 0 = ''0.000000''" and "fmt_fixed 6 10 = ''10.000000''"
    by (simp_all add: fmt_fixed_def round_half_even_def Let_def itoa_eval)
  moreover have "transfers (opti_init test_stock test_settings) = []"
    by (simp add: test_init)
  moreover have "itoa 0 = ''0''" and "itoa 1 = ''1''" by (simp_all add: itoa_eval)
  moreover have "mystock (opti_init test_stock test_settings) = test_stock" by (simp add: test_init)
  ultimately show "\<exists>st. racy_run test_stock test_settings (Finished st)
      \<and> test_errors (opti_result test_stock test_settings st)
          = [''invalid OSA increase, got 0.000000, want 10.000000'',
             ''invalid transfer, got size 0, want  size 1'']"
    using test_racy_exit
    by (intro exI [of _ "opti_init test_stock test_settings"])
       (simp add: test_errors_def test_should_get_def opti_result_def test_compute_osa_zero)
qed

subsection \<open>The command on the package test\<close>

lemma test_stock_records_parse: "parse_from_csv (stock_records test_stock) = Inr test_stock"
  by (simp add: csv_eval stock_records_def test_stock_def itoa_eval)

lemma test_flags_settings: "cmd_settings test_flags = test_settings"
  by (simp add: cmd_settings_def test_flags_def test_settings_def)

lemma test_transfer_lines:
  "transfer_lines [test_transfer]
     = [''Bucharest,Paris,Apples,2'' @ [newline], ''Bucharest,Paris,Corn,4'' @ [newline]]"
  by (simp add: transfer_lines_def transfer_line_def test_transfer_def itoa_eval)

lemma test_command_run:
  assumes "\<forall>i. 1 \<le> i \<longrightarrow> env_write_ok env i"
    and "env_read env = (\<lambda>_. Inr (stock_records test_stock))" and "env_create_ok env = (\<lambda>_. True)"
    and "env_truncate_ok env" and "env_seek_ok env"
  shows "opti_command env test_flags
     = Written ''out.csv'' ((if env_write_ok env 0 then [output_header] else [])
         @ [''Bucharest,Paris,Apples,2'' @ [newline], ''Bucharest,Paris,Corn,4'' @ [newline]]) True"
proof -
  have w: "write_lines (env_write_ok env) 1 (transfer_lines [test_transfer])
     = (transfer_lines [test_transfer], True)"
    using assms(1) by (intro write_lines_all_ok) simp
  have o: "env_write_ok env (Suc 0)" "env_write_ok env (Suc (Suc 0))" using assms(1) by simp_all
  show ?thesis
    using assms(2-5) o
    by (simp add: opti_command_def write_output_def test_stock_records_parse test_flags_settings test_run_result
        output_path_def has_suffix_def w [unfolded test_transfer_lines] test_transfer_lines)
       (simp add: test_flags_def)
qed

text \<open>C26: A failed header write goes unnoticed. The result of the header's
  \<open>WriteString\<close> (line 95) is discarded: when it fails and every row write succeeds,
  the command completes normally and leaves a file of data rows without its header,
  which the spec's row-count rule forbids.\<close>

theorem opti_command_header_unchecked:
  "opti_command header_fail_env test_flags
     = Written ''out.csv'' [''Bucharest,Paris,Apples,2'' @ [newline], ''Bucharest,Paris,Corn,4'' @ [newline]] True"
  using test_command_run [of header_fail_env] by (simp add: header_fail_env_def all_ok_env_def)

subsection \<open>The program's console on the package test\<close>

text \<open>The four consoles of the barrier schedule on the package test.\<close>

lemma dstock_main_test_console:
  "dstock_main all_ok_env test_flags =
    [[Print (CHR 0x0D # ''Progress: 50%''), Print (CHR 0x0D # ''Progress: 100%'' @ [CHR 0x0A]),
      Print (''OSA increased: +10.00%'' @ [CHR 0x0A])],
     [Print (CHR 0x0D # ''Progress: 100%'' @ [CHR 0x0A]), Print (CHR 0x0D # ''Progress: 50%''),
      Print (''OSA increased: +10.00%'' @ [CHR 0x0A])],
     [Print (CHR 0x0D # ''Progress: 100%'' @ [CHR 0x0A]), Print (''OSA increased: +10.00%'' @ [CHR 0x0A]),
      Print (CHR 0x0D # ''Progress: 50%'')],
     [Print (CHR 0x0D # ''Progress: 100%'' @ [CHR 0x0A]), Print (''OSA increased: +10.00%'' @ [CHR 0x0A])]]"
proof -
  have cmd: "opti_command all_ok_env test_flags
     = Written ''out.csv'' (output_header # [''Bucharest,Paris,Apples,2'' @ [newline], ''Bucharest,Paris,Corn,4'' @ [newline]]) True"
    using test_command_run [of all_ok_env] by (simp add: all_ok_env_def)
  have r: "env_read all_ok_env (flag_input test_flags) = Inr (stock_records test_stock)"
    by (simp add: all_ok_env_def)
  have "fmt_fixed 2 10 = ''10.00''"
    by (simp add: fmt_fixed_def round_half_even_def Let_def itoa_eval)
  then show ?thesis
    by (simp add: dstock_main_def opti_console_def Let_def cmd r test_stock_records_parse
        test_flags_settings test_run_result(3) test_run_osa console_outputs_def progress_prints_def
        progress_line_def progress_done_def osa_line_def carriage_return_def newline_def itoa_eval)
qed

lemma write_output_all_ok:
  "write_output all_ok_env test_flags optim
     = Written ''out.csv'' (output_header # transfer_lines (opti_transfers optim)) True"
  by (simp add: write_output_def all_ok_env_def test_flags_def output_path_def has_suffix_def
      write_lines_all_ok)

text \<open>C32: A stale progress line after 100\%, or no transfer at all. Run on the package
  test's stock with every file operation succeeding, the program can leave a console
  that ends with \<open>Progress: 50%\<close> after the 100\% line and the OSA line (the printer
  goroutine prints the last value late), and, under the schedule of C17, one that
  holds only the 100\% line and \<open>OSA increased: +0.00%\<close>.\<close>

theorem program_console_test:
  "program_console all_ok_env test_flags
     [Print (CHR 0x0D # ''Progress: 100%'' @ [CHR 0x0A]), Print (''OSA increased: +10.00%'' @ [CHR 0x0A]),
      Print (CHR 0x0D # ''Progress: 50%'')]
   \<and> program_console all_ok_env test_flags
     [Print (CHR 0x0D # ''Progress: 100%'' @ [CHR 0x0A]), Print (''OSA increased: +0.00%'' @ [CHR 0x0A])]"
proof
  show "program_console all_ok_env test_flags
     [Print (CHR 0x0D # ''Progress: 100%'' @ [CHR 0x0A]), Print (''OSA increased: +10.00%'' @ [CHR 0x0A]),
      Print (CHR 0x0D # ''Progress: 50%'')]"
    by (rule dstock_main_consoles) (simp add: dstock_main_test_console)
next
  have r: "env_read all_ok_env (flag_input test_flags) = Inr (stock_records test_stock)"
    by (simp add: all_ok_env_def)
  have "fmt_fixed 2 0 = ''0.00''"
    by (simp add: fmt_fixed_def round_half_even_def Let_def itoa_eval)
  moreover have "progress_sent (opti_init test_stock test_settings) = []"
    and "mystock (opti_init test_stock test_settings) = test_stock"
    by (simp_all add: test_init)
  ultimately show "program_console all_ok_env test_flags
     [Print (CHR 0x0D # ''Progress: 100%'' @ [CHR 0x0A]), Print (''OSA increased: +0.00%'' @ [CHR 0x0A])]"
    using test_racy_exit
    by (simp add: program_console_def Let_def r test_stock_records_parse test_flags_settings
        write_output_all_ok console_outputs_def opti_result_def test_compute_osa_zero progress_done_def
        osa_line_def carriage_return_def newline_def)
       (rule exI [of _ "opti_init test_stock test_settings"], simp add: test_compute_osa_zero)
qed


subsection \<open>A negative target\<close>

lemma neg_parse: "parse_from_csv neg_records = Inr neg_stock"
  by (simp add: csv_eval neg_records_def neg_stock_def)

lemma neg_init:
  "opti_init neg_stock test_settings
     = \<lparr>mystock = neg_stock, prio_first = False, transfer_avail = init_avail (map fst neg_stock),
        transfer_counter = (\<lambda>_. 0), loop_counter = 0, transfers = [], progress_sent = []\<rparr>"
  by (simp add: opti_init_def copy_stock_id test_settings_def)

lemma neg_round1_winner:
  "round_winner test_settings 1 1 (opti_init neg_stock test_settings) = neg_transfer\<lparr>products := []\<rparr>"
proof -
  have "round_pairs test_settings 1 (opti_init neg_stock test_settings)
        = [(''Paris'', ''Bucharest''), (''Bucharest'', ''Paris'')]"
    unfolding neg_init by (simp add: round_pairs_def neg_stock_def pair_eligible_def init_avail_def
        test_settings_def)
  then have "round_candidates test_settings 1 (opti_init neg_stock test_settings)
     = [neg_transfer\<lparr>products := []\<rparr>,
        \<lparr>from_store = ''Bucharest'', to_store = ''Paris'', products = [], tota_items_count = 0,
         osa_improuve = 0\<rparr>]"
    by (simp add: round_candidates_def neg_init) (simp add: test_eval neg_stock_def neg_transfer_def)
  then show ?thesis
    by (simp add: round_winner_def reduce_transfers_def reduce_step_def determine_best_transfer_def
        transfer_score_def best_order_def zero_transfer_def transfer_key_def neg_transfer_def)
qed

lemma neg_commit1:
  "commit_transfer test_settings 1 (round_winner test_settings 1 1 (opti_init neg_stock test_settings))
     (opti_init neg_stock test_settings) = neg_state1"
proof -
  have d: "do_exchange_items neg_stock test_settings ''Paris'' ''Bucharest'' True = (neg_after, neg_transfer)"
    by (simp add: test_eval neg_stock_def neg_after_def neg_transfer_def)
  have l: "length neg_after = 2" by (simp add: neg_after_def)
  show ?thesis
    unfolding neg_round1_winner unfolding neg_init
    by (simp add: commit_transfer_def Let_def neg_transfer_def d l neg_state1_def)
qed

lemma neg_round2_winner:
  "tota_items_count (round_winner test_settings 1 1 neg_state1) = 0"
proof -
  have "round_pairs test_settings 1 neg_state1 = [(''Bucharest'', ''Paris'')]"
    by (simp add: round_pairs_def neg_state1_def neg_after_def neg_stock_def
        pair_eligible_def init_avail_def test_settings_def)
  then have "round_candidates test_settings 1 neg_state1
     = [\<lparr>from_store = ''Bucharest'', to_store = ''Paris'', products = [], tota_items_count = 0,
         osa_improuve = 0\<rparr>]"
    by (simp add: round_candidates_def) (simp add: neg_state1_def neg_after_def test_eval)
  then show ?thesis
    by (simp add: round_winner_def reduce_transfers_def reduce_step_def zero_transfer_def)
qed

lemma neg_run:
  "opti_loop test_settings (effective_max_to test_settings) (effective_min_products test_settings)
     (opti_init neg_stock test_settings) = neg_state1"
  unfolding test_settings_effective
proof (rule opti_loop_commit_exit [OF _ _ neg_commit1 _ neg_round2_winner])
  show "loop_counter (opti_init neg_stock test_settings)
      < int (length (mystock (opti_init neg_stock test_settings))) * 1"
    unfolding neg_init by (simp add: neg_stock_def)
  show "tota_items_count (round_winner test_settings 1 1 (opti_init neg_stock test_settings)) \<noteq> 0"
    by (simp add: neg_round1_winner neg_transfer_def)
qed (simp_all add: neg_state1_def neg_after_def)

text \<open>C27: Negative targets drive stock below zero. \<open>ParseFromCSV\<close> accepts a negative
  Max, and \<open>RunOpti\<close> reads a negative target as surplus: on the two-store input above
  it moves 3 Apples out of a Paris that has none, leaving it at -3, while the spec
  says on-hand quantities are never negative.\<close>

theorem parse_run_negative_stock:
  "parse_from_csv neg_records = Inr neg_stock
   \<and> has (item_of (after_stock (fst (run_opti neg_stock test_settings))) ''Paris'' ''Apples'') = -3"
  using neg_parse neg_run
  by (simp add: run_opti_def Let_def neg_state1_def neg_after_def item_of_def store_of_def)

subsection \<open>OSA can fall\<close>

lemma osa_init:
  "opti_init osa_stock test_settings
     = \<lparr>mystock = osa_stock, prio_first = False, transfer_avail = init_avail (map fst osa_stock),
        transfer_counter = (\<lambda>_. 0), loop_counter = 0, transfers = [], progress_sent = []\<rparr>"
  by (simp add: opti_init_def copy_stock_id test_settings_def)

lemma osa_round1_winner:
  "round_winner test_settings 1 1 (opti_init osa_stock test_settings) = osa_transfer\<lparr>products := []\<rparr>"
proof -
  have "round_pairs test_settings 1 (opti_init osa_stock test_settings)
        = [(''Paris'', ''Bucharest''), (''Bucharest'', ''Paris'')]"
    unfolding osa_init by (simp add: round_pairs_def osa_stock_def pair_eligible_def init_avail_def
        test_settings_def)
  then have "round_candidates test_settings 1 (opti_init osa_stock test_settings)
     = [osa_transfer\<lparr>products := []\<rparr>,
        \<lparr>from_store = ''Bucharest'', to_store = ''Paris'', products = [], tota_items_count = 0,
         osa_improuve = 0\<rparr>]"
    by (simp add: round_candidates_def osa_init) (simp add: test_eval osa_stock_def osa_transfer_def)
  then show ?thesis
    by (simp add: round_winner_def reduce_transfers_def reduce_step_def determine_best_transfer_def
        transfer_score_def best_order_def zero_transfer_def transfer_key_def osa_transfer_def)
qed

lemma osa_commit1:
  "commit_transfer test_settings 1 (round_winner test_settings 1 1 (opti_init osa_stock test_settings))
     (opti_init osa_stock test_settings) = osa_state1"
proof -
  have d: "do_exchange_items osa_stock test_settings ''Paris'' ''Bucharest'' True = (osa_after, osa_transfer)"
    by (simp add: test_eval osa_stock_def osa_after_def osa_transfer_def)
  have l: "length osa_after = 2" by (simp add: osa_after_def)
  show ?thesis
    unfolding osa_round1_winner unfolding osa_init
    by (simp add: commit_transfer_def Let_def osa_transfer_def d l osa_state1_def)
qed

lemma osa_round2_winner:
  "tota_items_count (round_winner test_settings 1 1 osa_state1) = 0"
proof -
  have "round_pairs test_settings 1 osa_state1 = [(''Bucharest'', ''Paris'')]"
    by (simp add: round_pairs_def osa_state1_def osa_after_def osa_stock_def
        pair_eligible_def init_avail_def test_settings_def)
  then have "round_candidates test_settings 1 osa_state1
     = [\<lparr>from_store = ''Bucharest'', to_store = ''Paris'', products = [], tota_items_count = 0,
         osa_improuve = 0\<rparr>]"
    by (simp add: round_candidates_def) (simp add: osa_state1_def osa_after_def test_eval)
  then show ?thesis
    by (simp add: round_winner_def reduce_transfers_def reduce_step_def zero_transfer_def)
qed

lemma osa_compute_osa: "compute_osa osa_stock osa_after = -50"
  by (simp add: compute_osa_def osa_stock_def osa_after_def items_in_stock_def total_items_def)

lemma osa_stock_records_parse: "parse_from_csv (stock_records osa_stock) = Inr osa_stock"
  by (simp add: csv_eval stock_records_def osa_stock_def itoa_eval)

lemma osa_run:
  "opti_loop test_settings (effective_max_to test_settings) (effective_min_products test_settings)
     (opti_init osa_stock test_settings) = osa_state1"
  unfolding test_settings_effective
proof (rule opti_loop_commit_exit [OF _ _ osa_commit1 _ osa_round2_winner])
  show "loop_counter (opti_init osa_stock test_settings)
      < int (length (mystock (opti_init osa_stock test_settings))) * 1"
    unfolding osa_init by (simp add: osa_stock_def)
  show "tota_items_count (round_winner test_settings 1 1 (opti_init osa_stock test_settings)) \<noteq> 0"
    by (simp add: osa_round1_winner osa_transfer_def)
qed (simp_all add: osa_state1_def osa_after_def)

text \<open>C28: The OSA figure can fall. The OSA gain of a transfer counts the shelves it fills
  at the destination and not those it empties at the source: on \<open>osa_stock\<close> the
  only transfer moves Paris's two Gems to a Bucharest that already had one, and
  \<open>RunOpti\<close> reports an OSA change of -50 percentage points.\<close>

theorem run_opti_osa_decrease:
  "osa_increase (fst (run_opti osa_stock test_settings)) = -50"
  using osa_run by (simp add: run_opti_def Let_def osa_state1_def osa_compute_osa)

subsection \<open>Witnesses\<close>

text \<open>Each claim whose statement has a hypothesis, applied at a concrete input (the package
  test, its variant with a secure store, or \<open>race_stock\<close>), with the hypothesis discharged there.\<close>

theorem run_opti_conserves_witness:
  "stock_wf test_stock
   \<and> product_total (after_stock (fst (run_opti test_stock test_settings))) ''Corn''
       = product_total test_stock ''Corn''"
  by (intro conjI test_stock_wf run_opti_conserves [OF test_stock_wf])

theorem run_opti_nonneg_witness:
  "stock_wf test_stock \<and> stock_nonneg test_stock
   \<and> stock_nonneg (after_stock (fst (run_opti test_stock test_settings)))"
  by (intro conjI test_stock_wf test_stock_nonneg run_opti_nonneg [OF test_stock_wf test_stock_nonneg])

theorem committed_quantities_witness:
  "stock_wf test_stock \<and> ''Bucharest'' \<noteq> ''Paris''
   \<and> \<lparr>tp_product = ''Apples'', quant = 2\<rparr>
         \<in> set (products (snd (do_exchange_items test_stock test_settings ''Bucharest'' ''Paris'' True)))
   \<and> 0 < has (item_of test_stock ''Bucharest'' ''Apples'') - needs (item_of test_stock ''Bucharest'' ''Apples'')
   \<and> 0 < needs (item_of test_stock ''Paris'' ''Apples'') - has (item_of test_stock ''Paris'' ''Apples'')
   \<and> 2 = min (has (item_of test_stock ''Bucharest'' ''Apples'') - needs (item_of test_stock ''Bucharest'' ''Apples''))
              (needs (item_of test_stock ''Paris'' ''Apples'') - has (item_of test_stock ''Paris'' ''Apples''))"
proof -
  have h: "stock_wf test_stock" "''Bucharest'' \<noteq> ''Paris''" by (simp_all add: test_stock_wf)
  have m: "\<lparr>tp_product = ''Apples'', quant = 2\<rparr>
         \<in> set (products (snd (do_exchange_items test_stock test_settings ''Bucharest'' ''Paris'' True)))"
    by (simp add: test_exchange test_transfer_def)
  show ?thesis using committed_quantities [OF h, of test_settings] h m by fastforce
qed

theorem dry_run_matches_commit_witness:
  "stock_wf test_stock \<and> ''Bucharest'' \<noteq> ''Paris''
   \<and> fst (do_exchange_items test_stock test_settings ''Bucharest'' ''Paris'' False) = test_stock
   \<and> snd (do_exchange_items test_stock test_settings ''Bucharest'' ''Paris'' False)
       = (snd (do_exchange_items test_stock test_settings ''Bucharest'' ''Paris'' True))\<lparr>products := []\<rparr>"
proof -
  have h: "stock_wf test_stock" "''Bucharest'' \<noteq> ''Paris''" by (simp_all add: test_stock_wf)
  show ?thesis using dry_run_matches_commit [OF h, of test_settings] h by blast
qed

theorem reduce_transfers_greatest_witness:
  "reduce_transfers 1 [test_transfer, zero_transfer]
     \<in> insert zero_transfer (set (filter (\<lambda>t. 1 \<le> tota_items_count t) [test_transfer, zero_transfer]))
   \<and> 1 \<le> tota_items_count test_transfer
   \<and> \<not> better best_order test_transfer (reduce_transfers 1 [test_transfer, zero_transfer])"
proof -
  have h: "1 \<le> tota_items_count test_transfer" by (simp add: test_transfer_def)
  show ?thesis using reduce_transfers_greatest [of 1 "[test_transfer, zero_transfer]"] h by simp
qed

theorem reduce_transfers_order_independent_witness:
  "mset [test_transfer, test_transfer\<lparr>from_store := ''Paris'', to_store := ''Bucharest''\<rparr>]
     = mset [test_transfer\<lparr>from_store := ''Paris'', to_store := ''Bucharest''\<rparr>, test_transfer]
   \<and> distinct (map transfer_key [test_transfer, test_transfer\<lparr>from_store := ''Paris'', to_store := ''Bucharest''\<rparr>])
   \<and> reduce_transfers 1 [test_transfer, test_transfer\<lparr>from_store := ''Paris'', to_store := ''Bucharest''\<rparr>]
     = reduce_transfers 1 [test_transfer\<lparr>from_store := ''Paris'', to_store := ''Bucharest''\<rparr>, test_transfer]"
proof -
  let ?a = test_transfer and ?b = "test_transfer\<lparr>from_store := ''Paris'', to_store := ''Bucharest''\<rparr>"
  have h1: "mset [?a, ?b] = mset [?b, ?a]" by (simp add: add_mset_commute)
  have h2: "distinct (map transfer_key [?a, ?b])" by (simp add: transfer_key_def test_transfer_def)
  show ?thesis using reduce_transfers_order_independent [OF h1 h2, of 1] h1 h2 by blast
qed

theorem determine_best_transfer_tie_witness:
  "transfer_score test_transfer best_order
     = transfer_score (test_transfer\<lparr>from_store := ''Paris'', to_store := ''Bucharest''\<rparr>) best_order
   \<and> transfer_key test_transfer < transfer_key (test_transfer\<lparr>from_store := ''Paris'', to_store := ''Bucharest''\<rparr>)
   \<and> determine_best_transfer test_transfer
       (test_transfer\<lparr>from_store := ''Paris'', to_store := ''Bucharest''\<rparr>) best_order = test_transfer
   \<and> determine_best_transfer (test_transfer\<lparr>from_store := ''Paris'', to_store := ''Bucharest''\<rparr>)
       test_transfer best_order = test_transfer"
proof -
  let ?b = "test_transfer\<lparr>from_store := ''Paris'', to_store := ''Bucharest''\<rparr>"
  have h1: "transfer_score test_transfer best_order = transfer_score ?b best_order"
    by (simp add: transfer_score_def)
  have h2: "transfer_key test_transfer < transfer_key ?b"
    by (simp add: transfer_key_def test_transfer_def less_char_def)
  show ?thesis using determine_best_transfer_tie [OF h1 h2] h1 h2 by blast
qed

theorem run_opti_progress_witness:
  "sorted (snd (run_opti test_stock test_settings))
   \<and> 0 \<le> hd (snd (run_opti test_stock test_settings))
   \<and> hd (snd (run_opti test_stock test_settings)) \<le> 100"
  using run_opti_progress [of test_stock test_settings] by (simp add: test_run_result)

theorem racy_run_stock_safe_witness:
  "stock_wf race_stock \<and> stock_nonneg race_stock
   \<and> product_total (mystock (conf_state (Running (racy_commit test_settings 1 1 [race_bp, race_pb] 5
        (opti_init race_stock test_settings))))) ''Apples'' = product_total race_stock ''Apples''
   \<and> stock_nonneg (mystock (conf_state (Running (racy_commit test_settings 1 1 [race_bp, race_pb] 5
        (opti_init race_stock test_settings)))))"
proof -
  have nn: "stock_nonneg race_stock" by (simp add: stock_nonneg_def race_stock_def)
  show ?thesis
    using Race.racy_run_stock_safe [OF race_stock_wf race_bad_run, of "''Apples''"] nn race_stock_wf
    by simp
qed

theorem parse_from_csv_last_row_witness:
  "last_item (data_rows [[''Paris'', ''Apples'', ''1'', ''2''], ['' Paris'', ''Apples'', ''3'', ''4'']])
     ''Paris'' ''Apples'' = \<lparr>has = 3, needs = 4\<rparr>"
proof -
  have p: "parse_from_csv [[''Paris'', ''Apples'', ''1'', ''2''], ['' Paris'', ''Apples'', ''3'', ''4'']]
      = Inr [(''Paris'', [(''Apples'', \<lparr>has = 3, needs = 4\<rparr>)])]"
    by (simp add: csv_eval)
  have "item_of [(''Paris'', [(''Apples'', \<lparr>has = 3, needs = 4\<rparr>)])] ''Paris'' ''Apples'' = \<lparr>has = 3, needs = 4\<rparr>"
    by (simp add: item_of_def store_of_def)
  with Parser.parse_from_csv_last_row [OF p, of "''Paris''" "''Apples''"] show ?thesis by simp
qed

theorem parse_stock_records_witness:
  "stock_wf test_stock \<and> csv_writable test_stock \<and> parse_from_csv (stock_records test_stock) = Inr test_stock"
  using Parser.parse_stock_records [OF test_stock_wf test_stock_writable] test_stock_wf test_stock_writable
  by simp

theorem parse_from_csv_error_witness:
  "\<exists>good r rest. [[''Paris'', ''Apples'', ''7x'', ''9'']] = good @ r # rest
     \<and> list_all record_ok good \<and> \<not> record_ok r
     \<and> (Num_error Err_syntax ''7x'' = Index_panic \<longleftrightarrow> length r < 4)"
  by (rule Parser.parse_from_csv_error [OF parse_example_error])

theorem opti_command_needs_parse_witness:
  "\<exists>records stock. env_read header_fail_env (flag_input test_flags) = Inr records
     \<and> parse_from_csv records = Inr stock \<and> ''out.csv'' = output_path (flag_output test_flags)
     \<and> has_suffix ''out.csv'' ''.csv''"
  using test_command_run [of header_fail_env]
  by (intro Command.opti_command_needs_parse) (simp add: header_fail_env_def all_ok_env_def)

theorem opti_command_output_witness:
  "env_write_ok all_ok_env 0
   \<and> (\<exists>stock. parse_from_csv (projr (env_read all_ok_env (flag_input test_flags))) = Inr stock
    \<and> output_header # [''Bucharest,Paris,Apples,2'' @ [newline], ''Bucharest,Paris,Corn,4'' @ [newline]]
        = output_header # transfer_lines (opti_transfers (fst (run_opti stock (cmd_settings test_flags))))
    \<and> length (output_header # [''Bucharest,Paris,Apples,2'' @ [newline], ''Bucharest,Paris,Corn,4'' @ [newline]])
        = 1 + sum_list (map (\<lambda>t. length (products t)) (opti_transfers (fst (run_opti stock (cmd_settings test_flags))))))"
proof -
  have r: "opti_command all_ok_env test_flags = Written ''out.csv''
      (output_header # [''Bucharest,Paris,Apples,2'' @ [newline], ''Bucharest,Paris,Corn,4'' @ [newline]]) True"
    using test_command_run [of all_ok_env] by (simp add: all_ok_env_def)
  have "env_write_ok all_ok_env 0" by (simp add: all_ok_env_def)
  with Command.opti_command_output [OF r] show ?thesis by simp
qed

theorem decode_output_lines_witness:
  "decode_output (concat (output_header # transfer_lines [test_transfer]))
    = [''From'', '' To'', '' Product'', '' Quantity'']
      # concat (map (\<lambda>t. map (\<lambda>p. [from_store t, to_store t, tp_product p, itoa (quant p)]) (products t))
          [test_transfer])"
  by (rule Command.decode_output_lines) (simp add: test_transfer_def newline_def)

theorem console_step_ends_witness:
  "wf {(c', c). console_step c c'} \<and> (\<exists>c'. console_step (console_init [50] []) c')"
  using Console.console_step_ends [of "[50]" "[]" "console_init [50] []"]
  by (simp add: console_init_def)

theorem dstock_main_read_failure_witness:
  "dstock_main read_fail_env (test_flags\<lparr>flag_log_level := ''verbose''\<rparr>) = [[]]
   \<and> dstock_main read_fail_env test_flags = [[Log ErrorLevel Read_error]]"
proof -
  have "parse_level ''verbose'' = None" "parse_level ''warn'' = Some WarnLevel"
    by (simp_all add: parse_level_def ascii_lower_def Let_def itoa_eval)
  then show ?thesis
    using Console.dstock_main_read_failure [of read_fail_env "test_flags\<lparr>flag_log_level := ''verbose''\<rparr>" "()"]
      Console.dstock_main_read_failure [of read_fail_env test_flags "()"]
    by (simp_all add: read_fail_env_def all_ok_env_def test_flags_def)
qed

theorem dstock_main_osa_negative_witness:
  "list_all (\<lambda>out. Print (''OSA increased: +-50.00%'' @ [newline]) \<in> set out) (dstock_main osa_env test_flags)"
proof -
  have r: "env_read osa_env (flag_input test_flags) = Inr (stock_records osa_stock)"
    by (simp add: osa_env_def)
  have q: "osa_increase (fst (run_opti osa_stock (cmd_settings test_flags))) = -50"
    using osa_run by (simp add: test_flags_settings run_opti_def Let_def osa_state1_def osa_compute_osa)
  have f: "fmt_fixed 2 50 = ''50.00''"
    by (simp add: fmt_fixed_def round_half_even_def Let_def itoa_eval)
  from Console.dstock_main_osa_negative [OF r osa_stock_records_parse] q f show ?thesis
    by (simp add: list_all_iff)
qed

end
